theory Spec2Isabelle
  imports Complex_Main "HOL-Library.Sublist"
begin

text \<open>
  A model of the generation core of RepoMind: the SDK helper (\<open>SDKHelper\<close>: one streamed
  call to the external engine, the retry loop, the degraded and the salvage call) and
  the task list manager (\<open>TaskListManager\<close>: live detection of the delimited task
  segments, the fallback extraction, the packaged result and the update of the knowledge
  base). Functions keep the names of the source. The external engine, the YAML and JSON
  parsers, the clock and the failures of the file system are parameters.
\<close>

section \<open>JavaScript strings\<close>

text \<open>
  A JavaScript string is a sequence of UTF-16 code units, and \<open>length\<close> counts code
  units. The source compares lengths with 50, 100, 200 and 2000 and searches for markers
  written with CJK characters, so a string is modelled as the list of its code units. A
  code unit is an integer from 0 to 65535; no function below depends on the bound.
  Numbers are IEEE doubles in the source; the model computes with exact reals.
\<close>

type_synonym code_unit = int

type_synonym jsstring = "code_unit list"

definition ascii :: "string \<Rightarrow> jsstring" where
  "ascii s = map of_char s"

text \<open>\<open>String.prototype.indexOf\<close>: the first position where the pattern occurs;
  \<open>None\<close> stands for the result \<open>-1\<close>.\<close>

fun indexOf :: "jsstring \<Rightarrow> jsstring \<Rightarrow> nat option" where
  "indexOf [] p = (if p = [] then Some 0 else None)"
| "indexOf (c # cs) p = (if prefix p (c # cs) then Some 0 else map_option Suc (indexOf cs p))"

definition str_includes :: "jsstring \<Rightarrow> jsstring \<Rightarrow> bool" where
  "str_includes s p = (indexOf s p \<noteq> None)"

text \<open>\<open>String.prototype.substring(a, b)\<close>: both indices are clamped to the length and
  swapped when the first exceeds the second.\<close>

definition substring :: "jsstring \<Rightarrow> nat \<Rightarrow> nat \<Rightarrow> jsstring" where
  "substring s a b =
     (let a' = min a (length s); b' = min b (length s);
          lo = min a' b'; hi = max a' b'
      in take (hi - lo) (drop lo s))"

text \<open>The code units that \<open>trim\<close> strips and that \<open>\s\<close> matches: the white space and
  line terminator characters of ECMAScript.\<close>

definition isWhiteSpace :: "code_unit \<Rightarrow> bool" where
  "isWhiteSpace c =
     (c \<in> {9, 10, 11, 12, 13, 32, 160, 5760, 8232, 8233, 8239, 8287, 12288, 65279}
      \<or> (8192 \<le> c \<and> c \<le> 8202))"

definition trim :: "jsstring \<Rightarrow> jsstring" where
  "trim s = rev (dropWhile isWhiteSpace (rev (dropWhile isWhiteSpace s)))"

subsection \<open>String constants of the source\<close>

text \<open>The source writes these strings with CJK characters; each is given by its UTF-16
  code units.\<close>

definition name_overview :: jsstring where
  \<comment> \<open>the task name of overview (four CJK characters: project overview), as UTF-16 code units\<close>
  "name_overview =
    [39033, 30446, 27010, 35272]"

definition name_systemArchitecture :: jsstring where
  \<comment> \<open>the task name of systemArchitecture (nine CJK characters)\<close>
  "name_systemArchitecture =
    [31995, 32479, 26550, 26500, 19982, 32452, 20214, 35774, 35745]"

definition name_apiReference :: jsstring where
  \<comment> \<open>the task name of apiReference: the letters API, then seven CJK characters\<close>
  "name_apiReference =
    [65, 80, 73, 25509, 21475, 19982, 25968, 25454, 27169, 22411]"

definition name_businessWorkflows :: jsstring where
  \<comment> \<open>the task name of businessWorkflows (four CJK characters)\<close>
  "name_businessWorkflows =
    [19994, 21153, 27969, 31243]"

definition desc_overview :: jsstring where
  \<comment> \<open>the description of overview\<close>
  "desc_overview =
    [20998, 26512, 39033, 30446, 25972, 20307, 29305, 24449, 65292, 25552, 20379, 24555,
     36895, 29702, 35299, 39033, 30446, 30340, 27010, 35272, 20449, 24687]"

definition desc_systemArchitecture :: jsstring where
  \<comment> \<open>the description of systemArchitecture\<close>
  "desc_systemArchitecture =
    [20998, 26512, 39033, 30446, 30340, 25972, 20307, 26550, 26500, 35774, 35745, 12289,
     26680, 24515, 27169, 24335, 21450, 32452, 20214, 32467, 26500]"

definition desc_apiReference :: jsstring where
  \<comment> \<open>the description of apiReference\<close>
  "desc_apiReference =
    [20998, 26512, 39033, 30446, 30340, 65, 80, 73, 35774, 35745, 12289, 25509, 21475, 35268,
     33539, 21450, 25968, 25454, 32467, 26500, 27169, 22411]"

definition desc_businessWorkflows :: jsstring where
  \<comment> \<open>the description of businessWorkflows\<close>
  "desc_businessWorkflows =
    [20998, 26512, 39033, 30446, 30340, 26680, 24515, 19994, 21153, 27969, 31243, 21644,
     22788, 29702, 36923, 36753]"

definition footer_generated :: jsstring where
  \<comment> \<open>the footer line up to the timestamp: an asterisk, (this document was generated by the RepoMind system at) and a space\<close>
  "footer_generated =
    [42, 26412, 25991, 26723, 30001, 82, 101, 112, 111, 77, 105, 110, 100, 31995, 32479,
     33258, 21160, 29983, 25104, 20110, 32]"

definition footer_task :: jsstring where
  \<comment> \<open>the second footer line up to the task name: an asterisk, the word for task, a colon and a space\<close>
  "footer_task =
    [42, 20219, 21153, 58, 32]"

definition read_failed_title :: jsstring where
  \<comment> \<open>the text between the task name and the error message in the read-failure document\<close>
  "read_failed_title =
    [32, 45, 32, 25991, 20214, 35835, 21462, 22833, 36133, 10, 10, 23454, 26102, 20889,
     20837, 30340, 25991, 20214, 26080, 27861, 35835, 21462, 58, 32]"

definition mark_note :: jsstring where
  \<comment> \<open>an opening bracket, the two characters of the word for note and a full-width colon (U+FF1A)\<close>
  "mark_note =
    [91, 27880, 24847, 65306]"

definition mark_because :: jsstring where
  \<comment> \<open>the three characters meaning: analysis, because of\<close>
  "mark_because =
    [20998, 26512, 22240]"

definition err_insufficient :: jsstring where
  \<comment> \<open>the message thrown for a result of at most 100 characters (the analysis result is too short)\<close>
  "err_insufficient =
    [20998, 26512, 32467, 26524, 20869, 23481, 19981, 36275]"

definition pat_max_turns_reached :: jsstring where
  \<comment> \<open>reached the maximum number of conversation turns\<close>
  "pat_max_turns_reached =
    [36798, 21040, 26368, 22823, 23545, 35805, 36718, 27425]"

definition pat_max_turns :: jsstring where
  \<comment> \<open>maximum number of conversation turns\<close>
  "pat_max_turns =
    [26368, 22823, 23545, 35805, 36718, 27425]"

definition pat_timeout :: jsstring where
  \<comment> \<open>the word for timeout\<close>
  "pat_timeout =
    [36229, 26102]"

definition note_simplified :: jsstring where
  \<comment> \<open>the annotation of a degraded result: two line feeds and, in brackets, (note: this is a simplified analysis result)\<close>
  "note_simplified =
    [10, 10, 91, 27880, 24847, 65306, 36825, 26159, 31616, 21270, 29256, 20998, 26512, 32467,
     26524, 93]"

definition note_partial :: jsstring where
  \<comment> \<open>the annotation of a salvaged result: (note: the analysis did not complete, this is a partial result)\<close>
  "note_partial =
    [10, 10, 91, 27880, 24847, 65306, 20998, 26512, 26410, 23436, 20840, 23436, 25104, 65292,
     36825, 26159, 37096, 20998, 32467, 26524, 93]"

definition err_failed_prefix :: jsstring where
  \<comment> \<open>the prefix of the final error: Claude, (analysis failed), a colon and a space\<close>
  "err_failed_prefix =
    [67, 108, 97, 117, 100, 101, 20998, 26512, 22833, 36133, 58, 32]"

definition err_execution_failed :: jsstring where
  \<comment> \<open>the message thrown after the loop (the analysis could not be run)\<close>
  "err_execution_failed =
    [20998, 26512, 25191, 34892, 22833, 36133]"

definition note_max_turns_truncated :: jsstring where
  \<comment> \<open>the truncation annotation for a degraded query that reached the turn limit\<close>
  "note_max_turns_truncated =
    [10, 10, 91, 27880, 24847, 65306, 38477, 32423, 20998, 26512, 22240, 36798, 21040, 26368,
     22823, 36718, 27425, 38480, 21046, 32780, 25130, 26029, 93]"

definition err_max_turns :: jsstring where
  \<comment> \<open>the message thrown at the turn limit\<close>
  "err_max_turns =
    [36798, 21040, 26368, 22823, 23545, 35805, 36718, 27425, 38480, 21046, 65292, 35831,
     31616, 21270, 24744, 30340, 20998, 26512, 20219, 21153, 25110, 25286, 20998, 20026,
     22810, 20010, 23567, 20219, 21153]"

definition note_execution_error :: jsstring where
  \<comment> \<open>the truncation annotation after an execution error\<close>
  "note_execution_error =
    [10, 10, 91, 27880, 24847, 65306, 20998, 26512, 22240, 25191, 34892, 38169, 35823, 32780,
     20013, 26029, 93]"

definition err_during_execution :: jsstring where
  \<comment> \<open>the message thrown after an execution error\<close>
  "err_during_execution =
    [25191, 34892, 36807, 31243, 20013, 21457, 29983, 38169, 35823, 65292, 35831, 26816,
     26597, 36755, 20837, 21442, 25968, 21644, 31995, 32479, 37197, 32622]"

definition note_cancelled :: jsstring where
  \<comment> \<open>the truncation annotation after a cancellation\<close>
  "note_cancelled =
    [10, 10, 91, 27880, 24847, 65306, 20998, 26512, 34987, 29992, 25143, 21462, 28040, 93]"

definition err_cancelled :: jsstring where
  \<comment> \<open>the message thrown after a cancellation (the query was cancelled)\<close>
  "err_cancelled =
    [26597, 35810, 34987, 21462, 28040]"

definition note_error_open :: jsstring where
  \<comment> \<open>the truncation annotation for any other error subtype, up to the subtype\<close>
  "note_error_open =
    [10, 10, 91, 27880, 24847, 65306, 20998, 26512, 22240, 38169, 35823, 40]"

definition note_error_close :: jsstring where
  \<comment> \<open>the truncation annotation for any other error subtype, after the subtype\<close>
  "note_error_close =
    [41, 32780, 20013, 26029, 93]"

definition err_query_prefix :: jsstring where
  \<comment> \<open>the prefix of the message thrown for any other error subtype\<close>
  "err_query_prefix =
    [67, 108, 97, 117, 100, 101, 26597, 35810, 38169, 35823, 58, 32]"

definition note_timeout :: jsstring where
  \<comment> \<open>the truncation annotation after an abort\<close>
  "note_timeout =
    [10, 10, 91, 27880, 24847, 65306, 20998, 26512, 22240, 36229, 26102, 32780, 25130, 26029,
     93]"

definition note_incomplete :: jsstring where
  \<comment> \<open>the truncation annotation when the stream ends without a result\<close>
  "note_incomplete =
    [10, 10, 91, 27880, 24847, 65306, 20998, 26512, 26410, 23436, 20840, 23436, 25104, 93]"

definition err_no_response :: jsstring where
  \<comment> \<open>the message thrown when the stream ends without a result and nothing can be salvaged\<close>
  "err_no_response =
    [26410, 25910, 21040, 26377, 25928, 30340, 67, 108, 97, 117, 100, 101, 21709, 24212]"

definition simplified_head :: jsstring where
  \<comment> \<open>the text that createSimplifiedPrompt puts before the original prompt\<close>
  "simplified_head =
    [35831, 23545, 20197, 19979, 20869, 23481, 36827, 34892, 31616, 35201, 20998, 26512,
     65292, 19987, 27880, 26368, 20851, 38190, 30340, 20449, 24687, 65306, 10, 32, 32, 32,
     32, 10]"

definition simplified_tail :: jsstring where
  \<comment> \<open>the text that createSimplifiedPrompt puts after the original prompt\<close>
  "simplified_tail =
    [10, 10, 35831, 25552, 20379, 31934, 31616, 30340, 20998, 26512, 32467, 26524, 65292,
     38480, 21046, 36755, 20986, 38271, 24230, 65292, 36991, 20813, 35814, 32454, 23637,
     24320, 12290]"

definition unified_system_prompt :: jsstring where
  \<comment> \<open>the system prompt of the unified analysis\<close>
  "unified_system_prompt =
    [20320, 26159, 19968, 20010, 19987, 19994, 30340, 20195, 30721, 20179, 24211, 20998,
     26512, 19987, 23478, 65292, 25797, 38271, 29702, 35299, 22797, 26434, 30340, 20195,
     30721, 32467, 26500, 21644, 19994, 21153, 36923, 36753, 12290, 35831, 25353, 29031,
     25351, 23450, 30340, 20219, 21153, 28165, 21333, 65292, 23545, 20195, 30721, 20179,
     24211, 36827, 34892, 20840, 38754, 28145, 20837, 30340, 20998, 26512, 12290]"

section \<open>The declared analysis tasks\<close>

record analysis_task =
  t_id :: jsstring
  t_name :: jsstring
  t_promptFile :: jsstring
  t_outputFile :: jsstring
  t_priority :: nat
  t_description :: jsstring

definition ANALYSIS_TASKS :: "analysis_task list" where
  "ANALYSIS_TASKS =
    [\<lparr>t_id = ascii ''overview'', t_name = name_overview,
      t_promptFile = ascii ''overview-analysis.md'', t_outputFile = ascii ''docs/overview.md'',
      t_priority = 1, t_description = desc_overview\<rparr>,
     \<lparr>t_id = ascii ''systemArchitecture'', t_name = name_systemArchitecture,
      t_promptFile = ascii ''system-architecture-analysis.md'',
      t_outputFile = ascii ''docs/system-architecture.md'',
      t_priority = 2, t_description = desc_systemArchitecture\<rparr>,
     \<lparr>t_id = ascii ''apiReference'', t_name = name_apiReference,
      t_promptFile = ascii ''api-reference-analysis.md'',
      t_outputFile = ascii ''docs/api-reference.md'',
      t_priority = 3, t_description = desc_apiReference\<rparr>,
     \<lparr>t_id = ascii ''businessWorkflows'', t_name = name_businessWorkflows,
      t_promptFile = ascii ''business-workflows-analysis.md'',
      t_outputFile = ascii ''docs/business-workflows.md'',
      t_priority = 4, t_description = desc_businessWorkflows\<rparr>]"

section \<open>Task outputs and the packaged result\<close>

text \<open>A value of type \<open>any\<close> stored in a metadata object, with JavaScript's truthiness.\<close>

datatype jsval = VBool bool | VNum int | VStr jsstring | VNull | VObject

fun truthy :: "jsval \<Rightarrow> bool" where
  "truthy (VBool b) = b"
| "truthy (VNum n) = (n \<noteq> 0)"
| "truthy (VStr s) = (s \<noteq> [])"
| "truthy VNull = False"
| "truthy VObject = True"

type_synonym jsobject = "jsstring \<rightharpoonup> jsval"

record task_output =
  to_taskId :: jsstring
  to_document :: jsstring
  to_metadata :: jsobject
  to_references :: "jsstring list"

datatype result_status = StatusSuccess | StatusPartial | StatusError

record analysis_output =
  ao_document :: jsstring
  ao_metadata :: jsobject
  ao_references :: "jsstring list"

record analysis_result =
  ar_agentName :: jsstring
  ar_status :: result_status
  ar_output :: analysis_output
  ar_executionTime :: real
  ar_confidence :: real

record result_metadata =
  rm_totalTasks :: nat
  rm_successfulTasks :: nat
  rm_averageExecutionTime :: real
  rm_timestamp :: jsstring

record knowledge_generation_result =
  kg_status :: result_status
  kg_results :: "analysis_result list"
  kg_overallConfidence :: real
  kg_generatedFiles :: "jsstring list"
  kg_metadata :: result_metadata

definition calculateTaskConfidence :: "task_output \<Rightarrow> real" where
  "calculateTaskConfidence output =
     (let document = to_document output;
          c0 = min (real (length document) / 2000) 1 * 0.4;
          c1 = (if str_includes document (ascii ''#'') \<and> str_includes document (ascii ''##'')
                then c0 + 0.2 else c0);
          c2 = (if str_includes document ([96, 96, 96] @ ascii ''mermaid'') then c1 + 0.1 else c1);
          c3 = (if str_includes document (ascii ''|'') \<and> str_includes document (ascii ''---'')
                then c2 + 0.1 else c2);
          c4 = (if length (to_references output) > 0 then c3 + 0.1 else c3);
          c5 = (if str_includes document mark_note \<or> str_includes document mark_because
                then c4 * 0.7 else c4)
      in min c5 1)"

text \<open>\<open>validateAndPackageResults\<close>; the formatted clock reading is a parameter.\<close>

definition validateAndPackageResults :: "jsstring \<Rightarrow> task_output list \<Rightarrow> knowledge_generation_result" where
  "validateAndPackageResults timestamp taskOutputs =
     (let results = map (\<lambda>output.
            \<lparr>ar_agentName = to_taskId output,
             ar_status = StatusSuccess,
             ar_output = \<lparr>ao_document = to_document output,
                          ao_metadata = to_metadata output,
                          ao_references = to_references output\<rparr>,
             ar_executionTime = 0,
             ar_confidence = calculateTaskConfidence output\<rparr>) taskOutputs;
          overallConfidence =
            (if length results > 0
             then foldl (\<lambda>sum r. sum + ar_confidence r) 0 results / real (length results)
             else 0);
          generatedFiles = map t_outputFile ANALYSIS_TASKS
      in \<lparr>kg_status = (if length results > 0 then StatusSuccess else StatusError),
          kg_results = results,
          kg_overallConfidence = overallConfidence,
          kg_generatedFiles = generatedFiles,
          kg_metadata = \<lparr>rm_totalTasks = length ANALYSIS_TASKS,
                         rm_successfulTasks = length results,
                         rm_averageExecutionTime = 0,
                         rm_timestamp = timestamp\<rparr>\<rparr>)"

section \<open>The SDK helper\<close>

subsection \<open>Messages of the streaming call\<close>

text \<open>
  The external \<open>query\<close> yields a sequence of messages and then ends or throws. Only the
  fields that \<open>runQuery\<close> reads are kept. An error has a name and a message.
\<close>

datatype js_error = JsError (err_name: jsstring) (err_message: jsstring)

datatype block_kind = TextBlock | ToolUseBlock | OtherBlock

record content_block =
  cb_kind :: block_kind
  cb_name :: "jsstring option"
  cb_id :: "jsstring option"

datatype delta = TextDelta jsstring | OtherDelta

datatype stream_event =
    ContentBlockStart "content_block option"
  | ToolUseStart "content_block option"
  | ContentBlockDelta delta
  | ContentBlockStop
  | OtherEvent

datatype result_subtype =
    Success jsstring
  | ErrorMaxTurns
  | ErrorDuringExecution
  | Cancelled
  | OtherSubtype jsstring

datatype message =
    StreamEvent "jsstring option" "jsstring option" stream_event
  | Result result_subtype
  | OtherMessage

datatype stream_end = EndOfStream | Thrown js_error

record query_options =
  qo_maxTurns :: "real option"
  qo_disallowedTools :: "jsstring list"
  qo_customSystemPrompt :: jsstring
  qo_includePartialMessages :: bool
  qo_abortAfter :: real
  qo_isFallbackQuery :: bool

text \<open>The calls made on the progress callback, in order.\<close>

datatype progress =
    OnThinkingStart jsstring
  | OnThinkingProgress jsstring nat
  | OnToolExecution jsstring jsstring
  | OnContentUpdate jsstring nat
  | OnStatusUpdate nat nat

subsection \<open>\<open>runQuery\<close>\<close>

record rq_state =
  partialContent :: jsstring
  lastValidContent :: jsstring
  isThinking :: bool
  currentSessionId :: jsstring
  emitted :: "progress list"

definition rq_init :: rq_state where
  "rq_init = \<lparr>partialContent = [], lastValidContent = [], isThinking = False,
              currentSessionId = [], emitted = []\<rparr>"

text \<open>\<open>a || b\<close> on optional strings: the first that is present and not empty.\<close>

definition orElse :: "jsstring option \<Rightarrow> jsstring \<Rightarrow> jsstring" where
  "orElse a b = (case a of None \<Rightarrow> b | Some x \<Rightarrow> (if x = [] then b else x))"

definition isToolUse :: "stream_event \<Rightarrow> bool" where
  "isToolUse ev =
     (case ev of
        ToolUseStart _ \<Rightarrow> True
      | ContentBlockStart (Some cb) \<Rightarrow> cb_kind cb = ToolUseBlock
      | _ \<Rightarrow> False)"

definition blockOf :: "stream_event \<Rightarrow> content_block option" where
  "blockOf ev =
     (case ev of ToolUseStart cb \<Rightarrow> cb | ContentBlockStart cb \<Rightarrow> cb | _ \<Rightarrow> None)"

definition onStreamEvent ::
    "jsstring option \<Rightarrow> jsstring option \<Rightarrow> stream_event \<Rightarrow> rq_state \<Rightarrow> rq_state" where
  "onStreamEvent session_id parent_tool_use_id ev st =
     (let st1 = (case session_id of
                   Some sid \<Rightarrow>
                     (if sid \<noteq> [] \<and> sid \<noteq> currentSessionId st
                      then st\<lparr>currentSessionId := sid\<rparr> else st)
                 | None \<Rightarrow> st);
          st2 = (case ev of
                   ContentBlockStart (Some cb) \<Rightarrow>
                     (if cb_kind cb = TextBlock
                      then st1\<lparr>isThinking := True,
                              emitted := emitted st1 @ [OnThinkingStart (currentSessionId st1)]\<rparr>
                      else st1)
                 | _ \<Rightarrow> st1);
          st3 = (if isToolUse ev then
                   (let toolName = orElse (case blockOf ev of None \<Rightarrow> None | Some cb \<Rightarrow> cb_name cb)
                                     (ascii ''unknown'');
                        toolUseId = orElse (case blockOf ev of None \<Rightarrow> None | Some cb \<Rightarrow> cb_id cb)
                                      (orElse parent_tool_use_id (ascii ''unknown''))
                    in st2\<lparr>emitted := emitted st2 @ [OnToolExecution toolName toolUseId]\<rparr>)
                 else st2);
          st4 = (case ev of
                   ContentBlockDelta (TextDelta deltaText) \<Rightarrow>
                     (let pc = partialContent st3 @ deltaText;
                          e1 = (if isThinking st3
                                then emitted st3 @ [OnThinkingProgress deltaText (length pc)]
                                else emitted st3);
                          e2 = e1 @ [OnContentUpdate pc (length pc)]
                      in st3\<lparr>partialContent := pc,
                             lastValidContent := (if length pc > 200 then pc else lastValidContent st3),
                             emitted := e2\<rparr>)
                 | _ \<Rightarrow> st3)
      in (case ev of
            ContentBlockStop \<Rightarrow> (if isThinking st4 then st4\<lparr>isThinking := False\<rparr> else st4)
          | _ \<Rightarrow> st4))"

text \<open>The \<open>catch\<close> clause of \<open>runQuery\<close>; the errors that the body throws pass through
  it as well.\<close>

definition catchClause :: "query_options \<Rightarrow> js_error \<Rightarrow> rq_state \<Rightarrow> js_error + jsstring" where
  "catchClause options e st =
     (if err_name e = ascii ''AbortError'' \<and> lastValidContent st \<noteq> []
         \<and> qo_includePartialMessages options
      then Inr (lastValidContent st @ note_timeout)
      else Inl e)"

definition throwError :: "jsstring \<Rightarrow> js_error" where
  "throwError msg = JsError (ascii ''Error'') msg"

definition onResult :: "query_options \<Rightarrow> result_subtype \<Rightarrow> rq_state \<Rightarrow> js_error + jsstring" where
  "onResult options sub st =
     (case sub of
        Success result \<Rightarrow> Inr result
      | ErrorMaxTurns \<Rightarrow>
          (if qo_isFallbackQuery options \<and> qo_includePartialMessages options
              \<and> lastValidContent st \<noteq> []
           then Inr (lastValidContent st @ note_max_turns_truncated)
           else catchClause options (throwError err_max_turns) st)
      | ErrorDuringExecution \<Rightarrow>
          (if lastValidContent st \<noteq> [] \<and> qo_includePartialMessages options
           then Inr (lastValidContent st @ note_execution_error)
           else catchClause options (throwError err_during_execution) st)
      | Cancelled \<Rightarrow>
          (if lastValidContent st \<noteq> [] \<and> qo_includePartialMessages options
           then Inr (lastValidContent st @ note_cancelled)
           else catchClause options (throwError err_cancelled) st)
      | OtherSubtype name \<Rightarrow>
          (if lastValidContent st \<noteq> [] \<and> qo_includePartialMessages options
           then Inr (lastValidContent st @ note_error_open @ name @ note_error_close)
           else catchClause options (throwError (err_query_prefix @ name)) st))"

fun runQueryLoop ::
    "query_options \<Rightarrow> message list \<Rightarrow> stream_end \<Rightarrow> rq_state \<Rightarrow> (js_error + jsstring) \<times> rq_state" where
  "runQueryLoop options [] fin st =
     (case fin of
        EndOfStream \<Rightarrow>
          (if lastValidContent st \<noteq> [] \<and> qo_includePartialMessages options
           then (Inr (lastValidContent st @ note_incomplete), st)
           else (Inl (throwError err_no_response), st))
      | Thrown e \<Rightarrow> (catchClause options e st, st))"
| "runQueryLoop options (m # ms) fin st =
     (case m of
        StreamEvent session_id parent_tool_use_id ev \<Rightarrow>
          runQueryLoop options ms fin (onStreamEvent session_id parent_tool_use_id ev st)
      | Result sub \<Rightarrow> (onResult options sub st, st)
      | OtherMessage \<Rightarrow> runQueryLoop options ms fin st)"

definition runQuery ::
    "query_options \<Rightarrow> message list \<Rightarrow> stream_end \<Rightarrow> (js_error + jsstring) \<times> progress list" where
  "runQuery options msgs fin =
     (case runQueryLoop options msgs fin rq_init of (r, st) \<Rightarrow> (r, emitted st))"

subsection \<open>Configuration\<close>

record sdk_config_in =
  i_maxTurns :: "real option"
  i_timeout :: "real option"
  i_retryAttempts :: "nat option"
  i_retryDelay :: "real option"
  i_enablePartialResults :: "bool option"
  i_fallbackToSimplerPrompt :: "bool option"
  i_enableDetailedLogging :: "bool option"

record sdk_config =
  c_maxTurns :: "real option"
  c_timeout :: real
  c_retryAttempts :: nat
  c_retryDelay :: real
  c_enablePartialResults :: bool
  c_fallbackToSimplerPrompt :: bool
  c_enableDetailedLogging :: bool

definition DEFAULT_CONFIG :: sdk_config where
  "DEFAULT_CONFIG =
     \<lparr>c_maxTurns = None, c_timeout = 300000, c_retryAttempts = 3, c_retryDelay = 1000,
      c_enablePartialResults = True, c_fallbackToSimplerPrompt = True,
      c_enableDetailedLogging = True\<rparr>"

definition nullish :: "'a option \<Rightarrow> 'a \<Rightarrow> 'a" where
  "nullish a d = (case a of None \<Rightarrow> d | Some x \<Rightarrow> x)"

definition mergeConfig :: "sdk_config_in option \<Rightarrow> sdk_config" where
  "mergeConfig config =
     (case config of
        None \<Rightarrow> DEFAULT_CONFIG
      | Some c \<Rightarrow>
          \<lparr>c_maxTurns = (case i_maxTurns c of Some mt \<Rightarrow> Some mt | None \<Rightarrow> c_maxTurns DEFAULT_CONFIG),
           c_timeout = nullish (i_timeout c) (c_timeout DEFAULT_CONFIG),
           c_retryAttempts = nullish (i_retryAttempts c) (c_retryAttempts DEFAULT_CONFIG),
           c_retryDelay = nullish (i_retryDelay c) (c_retryDelay DEFAULT_CONFIG),
           c_enablePartialResults =
             nullish (i_enablePartialResults c) (c_enablePartialResults DEFAULT_CONFIG),
           c_fallbackToSimplerPrompt =
             nullish (i_fallbackToSimplerPrompt c) (c_fallbackToSimplerPrompt DEFAULT_CONFIG),
           c_enableDetailedLogging =
             nullish (i_enableDetailedLogging c) (c_enableDetailedLogging DEFAULT_CONFIG)\<rparr>)"

subsection \<open>The calls to the engine\<close>

text \<open>
  The engine is a parameter: given the number of calls made before, the prompt and the
  options, it decides the messages of the call and how the stream ends; an abort by the
  timer is a stream that throws an \<open>AbortError\<close>. The state of a run records every call
  issued, every call on the progress callback, every error that the \<open>catch\<close> clause of
  an attempt receives (the source logs it) and every delay awaited.
\<close>

type_synonym engine = "nat \<Rightarrow> jsstring \<Rightarrow> query_options \<Rightarrow> message list \<times> stream_end"

record sdk_state =
  calls :: "(jsstring \<times> query_options) list"
  progress :: "progress list"
  failures :: "js_error list"
  delays :: "real list"

definition disallowed :: "jsstring list" where
  "disallowed = [ascii ''Write'', ascii ''Edit'', ascii ''MultiEdit'', ascii ''NotebookEdit'',
                 ascii ''WebFetch'', ascii ''WebSearch'']"

definition issue :: "engine \<Rightarrow> jsstring \<Rightarrow> query_options \<Rightarrow> sdk_state \<Rightarrow> (js_error + jsstring) \<times> sdk_state" where
  "issue eng prompt options st =
     (case eng (length (calls st)) prompt options of
        (msgs, fin) \<Rightarrow>
          (case runQuery options msgs fin of
             (r, evs) \<Rightarrow>
               (r, st\<lparr>calls := calls st @ [(prompt, options)], progress := progress st @ evs\<rparr>)))"

definition performQuery ::
    "engine \<Rightarrow> jsstring \<Rightarrow> jsstring \<Rightarrow> sdk_config \<Rightarrow> sdk_state \<Rightarrow> (js_error + jsstring) \<times> sdk_state" where
  "performQuery eng prompt systemPrompt config st =
     issue eng prompt
       \<lparr>qo_maxTurns = None, qo_disallowedTools = disallowed,
        qo_customSystemPrompt = systemPrompt,
        qo_includePartialMessages = c_enablePartialResults config,
        qo_abortAfter = c_timeout config,
        qo_isFallbackQuery = False\<rparr> st"

definition performPartialQuery ::
    "engine \<Rightarrow> jsstring \<Rightarrow> jsstring \<Rightarrow> sdk_config \<Rightarrow> sdk_state \<Rightarrow> (js_error + jsstring) \<times> sdk_state" where
  "performPartialQuery eng prompt systemPrompt config st =
     issue eng prompt
       \<lparr>qo_maxTurns = None, qo_disallowedTools = disallowed,
        qo_customSystemPrompt = systemPrompt,
        qo_includePartialMessages = c_enablePartialResults config,
        qo_abortAfter = c_timeout config,
        qo_isFallbackQuery = True\<rparr> st"

subsection \<open>\<open>executeAnalysis\<close>\<close>

definition createSimplifiedPrompt :: "jsstring \<Rightarrow> jsstring" where
  "createSimplifiedPrompt originalPrompt = simplified_head @ originalPrompt @ simplified_tail"

definition isLimitError :: "jsstring \<Rightarrow> bool" where
  "isLimitError errorMessage =
     (str_includes errorMessage pat_max_turns_reached
      \<or> str_includes errorMessage pat_max_turns
      \<or> str_includes errorMessage pat_timeout
      \<or> str_includes errorMessage (ascii ''AbortError'')
      \<or> str_includes errorMessage (ascii ''Claude Code process aborted''))"

definition isTimeoutError :: "jsstring \<Rightarrow> bool" where
  "isTimeoutError errorMessage =
     (str_includes errorMessage pat_timeout
      \<or> str_includes errorMessage (ascii ''AbortError'')
      \<or> str_includes errorMessage (ascii ''Claude Code process aborted''))"

definition simplifiedConfig :: "sdk_config \<Rightarrow> jsstring \<Rightarrow> sdk_config" where
  "simplifiedConfig mergedConfig errorMessage =
     mergedConfig
       \<lparr>c_maxTurns := (case c_maxTurns mergedConfig of
                         Some mt \<Rightarrow> Some (max 15 (of_int \<lfloor>mt * 0.6\<rfloor>))
                       | None \<Rightarrow> None),
        c_timeout := (if isTimeoutError errorMessage
                      then min (c_timeout mergedConfig * 1.5) 900000
                      else c_timeout mergedConfig),
        c_retryAttempts := 1,
        c_fallbackToSimplerPrompt := False,
        c_enablePartialResults := False\<rparr>"

definition partialConfig :: "sdk_config \<Rightarrow> sdk_config" where
  "partialConfig mergedConfig =
     mergedConfig\<lparr>c_enablePartialResults := True, c_fallbackToSimplerPrompt := False\<rparr>"

text \<open>
  The degradation step inside the \<open>catch\<close> clause of an attempt: the degraded call and,
  when it throws and partial results are enabled, the salvage call. \<open>Some\<close> is the value
  that \<open>executeAnalysis\<close> returns; \<open>None\<close> means that control falls through to the retry
  logic.
\<close>

definition degrade ::
    "engine \<Rightarrow> jsstring \<Rightarrow> jsstring \<Rightarrow> sdk_config \<Rightarrow> jsstring \<Rightarrow> sdk_state \<Rightarrow> jsstring option \<times> sdk_state" where
  "degrade eng prompt systemPrompt mergedConfig errorMessage st =
     (case performQuery eng (createSimplifiedPrompt prompt) systemPrompt
             (simplifiedConfig mergedConfig errorMessage) st of
        (Inr fallbackResult, st1) \<Rightarrow>
          (if fallbackResult \<noteq> [] \<and> length fallbackResult > 50
           then (Some (fallbackResult @ note_simplified), st1) else (None, st1))
      | (Inl fallbackError, st1) \<Rightarrow>
          (if c_enablePartialResults mergedConfig then
             (case performPartialQuery eng prompt systemPrompt (partialConfig mergedConfig) st1 of
                (Inr partialResult, st2) \<Rightarrow>
                  (if partialResult \<noteq> [] \<and> length partialResult > 50
                   then (Some (partialResult @ note_partial), st2) else (None, st2))
              | (Inl partialError, st2) \<Rightarrow> (None, st2))
           else (None, st1)))"

text \<open>
  The body of the \<open>try\<close> block of an attempt: the status update, the call, and the test
  of the result, which throws for a result of at most 100 code units.
\<close>

definition tryAttempt ::
    "engine \<Rightarrow> jsstring \<Rightarrow> jsstring \<Rightarrow> sdk_config \<Rightarrow> nat \<Rightarrow> sdk_state
      \<Rightarrow> (js_error + jsstring) \<times> sdk_state" where
  "tryAttempt eng prompt systemPrompt mergedConfig attempt st =
     (case performQuery eng prompt systemPrompt mergedConfig
             (st\<lparr>progress := progress st @ [OnStatusUpdate attempt (c_retryAttempts mergedConfig)]\<rparr>) of
        (Inr result, st1) \<Rightarrow>
          (if result \<noteq> [] \<and> length result > 100 then (Inr result, st1)
           else (Inl (throwError err_insufficient), st1))
      | (Inl e, st1) \<Rightarrow> (Inl e, st1))"

text \<open>
  The first part of the \<open>catch\<close> clause of an attempt: the error is logged, and a
  limit error with degradation enabled leads to the degradation step.
\<close>

definition recover ::
    "engine \<Rightarrow> jsstring \<Rightarrow> jsstring \<Rightarrow> sdk_config \<Rightarrow> nat \<Rightarrow> js_error \<Rightarrow> sdk_state
      \<Rightarrow> jsstring option \<times> sdk_state" where
  "recover eng prompt systemPrompt mergedConfig attempt error st =
     (let errorMessage = err_message error;
          st' = st\<lparr>failures := failures st @ [error]\<rparr>
      in if isLimitError errorMessage \<and> c_fallbackToSimplerPrompt mergedConfig \<and> attempt \<ge> 1
         then degrade eng prompt systemPrompt mergedConfig errorMessage st'
         else (None, st'))"

text \<open>
  The loop \<open>for (attempt = 1; attempt <= retryAttempts; attempt++)\<close>; the first argument
  after the configuration counts the iterations that remain. When the loop ends without
  a \<open>return\<close> or a \<open>throw\<close>, the function throws the generic error.
\<close>

fun attemptLoop ::
    "engine \<Rightarrow> jsstring \<Rightarrow> jsstring \<Rightarrow> sdk_config \<Rightarrow> nat \<Rightarrow> nat \<Rightarrow> sdk_state
      \<Rightarrow> (js_error + jsstring) \<times> sdk_state" where
  "attemptLoop eng prompt systemPrompt mergedConfig 0 attempt st =
     (Inl (throwError err_execution_failed), st)"
| "attemptLoop eng prompt systemPrompt mergedConfig (Suc remaining) attempt st =
     (case tryAttempt eng prompt systemPrompt mergedConfig attempt st of
        (Inr result, st1) \<Rightarrow> (Inr result, st1)
      | (Inl error, st1) \<Rightarrow>
          (case recover eng prompt systemPrompt mergedConfig attempt error st1 of
             (Some result, st2) \<Rightarrow> (Inr result, st2)
           | (None, st2) \<Rightarrow>
               (if attempt = c_retryAttempts mergedConfig
                then (Inl (throwError (err_failed_prefix @ err_message error)), st2)
                else attemptLoop eng prompt systemPrompt mergedConfig remaining (Suc attempt)
                       (st2\<lparr>delays := delays st2
                          @ [c_retryDelay mergedConfig * real attempt]\<rparr>))))"

definition sdk_init :: sdk_state where
  "sdk_init = \<lparr>calls = [], progress = [], failures = [], delays = []\<rparr>"

definition executeAnalysis ::
    "engine \<Rightarrow> jsstring \<Rightarrow> jsstring \<Rightarrow> sdk_config_in option \<Rightarrow> (js_error + jsstring) \<times> sdk_state" where
  "executeAnalysis eng prompt systemPrompt config =
     (let mergedConfig = mergeConfig config
      in attemptLoop eng prompt systemPrompt mergedConfig (c_retryAttempts mergedConfig) 1 sdk_init)"

section \<open>The environment: parsers, clock and file system\<close>

text \<open>
  \<open>extractStructuredData\<close> hands a fenced block to \<open>yaml.load\<close> or \<open>JSON.parse\<close> and
  reads three properties of the parsed value. Both parsers are outside the repository,
  so they are parameters: a parser returns \<open>None\<close> where the real one throws or yields a
  value without properties, and otherwise the three properties (\<open>None\<close> for a property
  that is absent or falsy). Metadata objects are maps from keys to values.
  \<open>index_yaml\<close> is the text that \<open>yaml.dump\<close> prints for the index object built by
  \<open>generateKnowledgeIndex\<close>; \<open>timestamp\<close> is the formatted clock reading.
\<close>

record analysis_config =
  repoPath :: jsstring
  outputPath :: jsstring

record parsed_data =
  pd_techStack :: "jsstring list option"
  pd_references :: "jsstring list option"
  pd_metadata :: "jsobject option"

record env =
  yaml_load :: "jsstring \<Rightarrow> parsed_data option"
  json_parse :: "jsstring \<Rightarrow> parsed_data option"
  index_yaml :: "analysis_config \<Rightarrow> knowledge_generation_result \<Rightarrow> jsstring"
  write_fails :: "nat \<Rightarrow> bool"
  write_error :: js_error
  timestamp :: jsstring

text \<open>
  The file system: the files, the log of the physical writes that succeeded, and the
  number of writes attempted so far. The \<open>n\<close>-th attempted write throws
  \<open>write_error env\<close> when \<open>write_fails env n\<close> holds, and then changes nothing.
\<close>

record world =
  files :: "jsstring \<rightharpoonup> jsstring"
  writes :: "(jsstring \<times> jsstring) list"
  wcount :: nat

definition writeFile :: "env \<Rightarrow> jsstring \<Rightarrow> jsstring \<Rightarrow> world \<Rightarrow> bool \<times> world" where
  "writeFile E filePath data w =
     (if write_fails E (wcount w) then (False, w\<lparr>wcount := Suc (wcount w)\<rparr>)
      else (True, w\<lparr>files := (files w)(filePath \<mapsto> data),
                     writes := writes w @ [(filePath, data)],
                     wcount := Suc (wcount w)\<rparr>))"

text \<open>\<open>path.join\<close> of three segments and \<open>path.basename\<close>, without the normalisation of
  dots and repeated separators.\<close>

definition path_join :: "jsstring \<Rightarrow> jsstring \<Rightarrow> jsstring \<Rightarrow> jsstring" where
  "path_join a b c = a @ ascii ''/'' @ b @ ascii ''/'' @ c"

definition basename :: "jsstring \<Rightarrow> jsstring" where
  "basename p = rev (takeWhile (\<lambda>c. c \<noteq> 47) (dropWhile (\<lambda>c. c = 47) (rev p)))"

definition taskFilePath :: "analysis_config \<Rightarrow> analysis_task \<Rightarrow> jsstring" where
  "taskFilePath cfg task = path_join (outputPath cfg) (ascii ''.repomind'') (t_outputFile task)"

section \<open>Structured data embedded in a document\<close>

record structured_data =
  sd_techStack :: "jsstring list"
  sd_references :: "jsstring list"
  sd_metadata :: jsobject

definition default_structured :: structured_data where
  "default_structured = \<lparr>sd_techStack = [], sd_references = [], sd_metadata = Map.empty\<rparr>"

definition from_parsed :: "parsed_data \<Rightarrow> structured_data" where
  "from_parsed p =
     \<lparr>sd_techStack = (case pd_techStack p of None \<Rightarrow> [] | Some x \<Rightarrow> x),
      sd_references = (case pd_references p of None \<Rightarrow> [] | Some x \<Rightarrow> x),
      sd_metadata = (case pd_metadata p of None \<Rightarrow> Map.empty | Some x \<Rightarrow> x)\<rparr>"

text \<open>The regular expression that finds a fenced block: three backquotes, the language
  and a line feed, the shortest text that is followed by a line feed and three
  backquotes. The match starts at the first opening fence.\<close>

definition matchFence :: "jsstring \<Rightarrow> jsstring \<Rightarrow> jsstring option" where
  "matchFence lang content =
     (let opener = [96, 96, 96] @ lang @ [10]; closer = [10, 96, 96, 96]
      in case indexOf content opener of
           None \<Rightarrow> None
         | Some i \<Rightarrow>
             (let rest = drop (i + length opener) content
              in case indexOf rest closer of None \<Rightarrow> None | Some j \<Rightarrow> Some (take j rest)))"

definition extractStructuredData :: "env \<Rightarrow> jsstring \<Rightarrow> structured_data" where
  "extractStructuredData E content =
     (case matchFence (ascii ''yaml'') content of
        Some g \<Rightarrow> (case yaml_load E g of None \<Rightarrow> default_structured | Some p \<Rightarrow> from_parsed p)
      | None \<Rightarrow>
          (case matchFence (ascii ''json'') content of
             Some g \<Rightarrow> (case json_parse E g of None \<Rightarrow> default_structured | Some p \<Rightarrow> from_parsed p)
           | None \<Rightarrow> default_structured))"

section \<open>Live detection of completed tasks\<close>

definition formatDocument :: "jsstring \<Rightarrow> jsstring \<Rightarrow> analysis_task \<Rightarrow> jsstring \<Rightarrow> jsstring" where
  "formatDocument ts content task projectName =
     ascii ''# '' @ t_name task @ ascii '' - '' @ projectName @ [10, 10] @ content @ [10, 10]
       @ ascii ''---'' @ [10] @ footer_generated @ ts @ ascii ''*  '' @ [10]
       @ footer_task @ t_name task @ ascii ''*'' @ [10]"

definition writeTaskImmediately ::
    "env \<Rightarrow> analysis_config \<Rightarrow> analysis_task \<Rightarrow> jsstring \<Rightarrow> world \<Rightarrow> bool \<times> world" where
  "writeTaskImmediately E cfg task taskContent w =
     writeFile E (taskFilePath cfg task)
       (formatDocument (timestamp E) taskContent task (basename (repoPath cfg))) w"

text \<open>
  The state of a \<open>TaskListManager\<close> during a run: the set \<open>realtimeWrittenTasks\<close> (a
  JavaScript \<open>Set\<close> keeps insertion order, so it is a list that never holds an id
  twice), the map \<open>taskBuffer\<close> and the file system. The progress callback is not
  awaited by the caller; the model runs each scan to its end before the next begins.
\<close>

record tlm_state =
  realtimeWrittenTasks :: "jsstring list"
  taskBuffer :: "jsstring \<rightharpoonup> (jsstring \<times> nat)"
  fs :: world

definition startMarkerOf :: "analysis_task \<Rightarrow> jsstring" where
  "startMarkerOf task = ascii ''=== TASK_START: '' @ t_id task @ ascii '' ===''"

definition endMarkerOf :: "analysis_task \<Rightarrow> jsstring" where
  "endMarkerOf task = ascii ''=== TASK_END: '' @ t_id task @ ascii '' ===''"

definition set_add :: "jsstring \<Rightarrow> jsstring list \<Rightarrow> jsstring list" where
  "set_add x xs = (if x \<in> set xs then xs else xs @ [x])"

text \<open>One iteration of the loop of \<open>detectAndWriteCompletedTasks\<close>, for a task that is
  not in \<open>realtimeWrittenTasks\<close>: the block that records the start of the task, and the
  block that writes the task when both markers are present in order.\<close>

definition noteTaskStart :: "jsstring \<Rightarrow> analysis_task \<Rightarrow> tlm_state \<Rightarrow> tlm_state" where
  "noteTaskStart content task s =
     (case indexOf content (startMarkerOf task) of
        Some startIndex \<Rightarrow>
          (if taskBuffer s (t_id task) = None
           then s\<lparr>taskBuffer := (taskBuffer s)(t_id task \<mapsto> ([], startIndex))\<rparr> else s)
      | None \<Rightarrow> s)"

definition writeCompleted ::
    "env \<Rightarrow> analysis_config \<Rightarrow> jsstring \<Rightarrow> analysis_task \<Rightarrow> tlm_state \<Rightarrow> tlm_state" where
  "writeCompleted E cfg content task s =
     (case (indexOf content (startMarkerOf task), indexOf content (endMarkerOf task)) of
        (Some startIndex, Some endIndex) \<Rightarrow>
          (if endIndex > startIndex then
             (let taskContent =
                    trim (substring content (startIndex + length (startMarkerOf task)) endIndex)
              in if length taskContent > 100 then
                   (case writeTaskImmediately E cfg task taskContent (fs s) of
                      (True, w) \<Rightarrow>
                        s\<lparr>realtimeWrittenTasks := set_add (t_id task) (realtimeWrittenTasks s),
                          taskBuffer := (taskBuffer s)(t_id task := None),
                          fs := w\<rparr>
                    | (False, w) \<Rightarrow> s\<lparr>fs := w\<rparr>)
                 else s)
           else s)
      | _ \<Rightarrow> s)"

definition detectTask ::
    "env \<Rightarrow> analysis_config \<Rightarrow> jsstring \<Rightarrow> analysis_task \<Rightarrow> tlm_state \<Rightarrow> tlm_state" where
  "detectTask E cfg content task s =
     (if t_id task \<in> set (realtimeWrittenTasks s) then s
      else writeCompleted E cfg content task (noteTaskStart content task s))"

definition detectAndWriteCompletedTasks ::
    "env \<Rightarrow> analysis_config \<Rightarrow> jsstring \<Rightarrow> tlm_state \<Rightarrow> tlm_state" where
  "detectAndWriteCompletedTasks E cfg content s =
     foldl (\<lambda>st task. detectTask E cfg content task st) s ANALYSIS_TASKS"

section \<open>The fallback extraction\<close>

text \<open>The test shared by the marker strategies: both markers present, the end marker
  after the start marker.\<close>

definition betweenMarkers :: "jsstring \<Rightarrow> jsstring \<Rightarrow> jsstring \<Rightarrow> jsstring option" where
  "betweenMarkers analysisResult startMarker endMarker =
     (case (indexOf analysisResult startMarker, indexOf analysisResult endMarker) of
        (Some si, Some ei) \<Rightarrow>
          (if ei > si then Some (trim (substring analysisResult (si + length startMarker) ei))
           else None)
      | _ \<Rightarrow> None)"

definition tryStandardFormat :: "jsstring \<Rightarrow> analysis_task \<Rightarrow> jsstring option" where
  "tryStandardFormat analysisResult task =
     betweenMarkers analysisResult (startMarkerOf task) (endMarkerOf task)"

definition variants :: "analysis_task \<Rightarrow> (jsstring \<times> jsstring) list" where
  "variants task =
     [(ascii ''=== TASK_START:'' @ t_id task @ ascii '' ==='',
       ascii ''=== TASK_END:'' @ t_id task @ ascii '' ===''),
      (ascii ''=== TASK_START: '' @ t_id task @ ascii ''==='',
       ascii ''=== TASK_END: '' @ t_id task @ ascii ''===''),
      (ascii ''===TASK_START: '' @ t_id task @ ascii '' ==='',
       ascii ''===TASK_END: '' @ t_id task @ ascii '' ===''),
      (ascii ''== TASK_START: '' @ t_id task @ ascii '' =='',
       ascii ''== TASK_END: '' @ t_id task @ ascii '' ==''),
      (ascii ''==== TASK_START: '' @ t_id task @ ascii '' ===='',
       ascii ''==== TASK_END: '' @ t_id task @ ascii '' ====''),
      (ascii ''=== TASK_START'' @ [65306] @ t_id task @ ascii '' ==='',
       ascii ''=== TASK_END'' @ [65306] @ t_id task @ ascii '' ==='')]"

fun firstBetween :: "jsstring \<Rightarrow> (jsstring \<times> jsstring) list \<Rightarrow> jsstring option" where
  "firstBetween analysisResult [] = None"
| "firstBetween analysisResult ((startMarker, endMarker) # rest) =
     (case betweenMarkers analysisResult startMarker endMarker of
        Some c \<Rightarrow> Some c
      | None \<Rightarrow> firstBetween analysisResult rest)"

definition tryVariantFormats :: "jsstring \<Rightarrow> analysis_task \<Rightarrow> jsstring option" where
  "tryVariantFormats analysisResult task = firstBetween analysisResult (variants task)"

text \<open>
  Strategy 3 matches four regular expressions built from the task name, with the flag
  \<open>i\<close>. Each is modelled by the function that computes its first match. The names of the
  declared tasks consist of ASCII letters and CJK ideographs and contain no character
  that is special in a regular expression; for them, matching under the flag \<open>i\<close> is
  equality up to the case of ASCII letters.
\<close>

definition canon :: "code_unit \<Rightarrow> code_unit" where
  "canon c = (if 97 \<le> c \<and> c \<le> 122 then c - 32 else c)"

definition ciPrefix :: "jsstring \<Rightarrow> jsstring \<Rightarrow> bool" where
  "ciPrefix p s = (length p \<le> length s \<and> map canon (take (length p) s) = map canon p)"

definition skipWs :: "jsstring \<Rightarrow> jsstring" where
  "skipWs s = dropWhile isWhiteSpace s"

definition isLineTerminator :: "code_unit \<Rightarrow> bool" where
  "isLineTerminator c = (c \<in> {10, 13, 8232, 8233})"

text \<open>The leftmost position where a pattern's head matches, and the lazy group
  \<open>([\s\S]*?)\<close> that ends at the first position where the lookahead holds or at the end
  of the text.\<close>

fun firstMatch :: "(jsstring \<Rightarrow> 'a option) \<Rightarrow> jsstring \<Rightarrow> 'a option" where
  "firstMatch f [] = f []"
| "firstMatch f (c # cs) = (case f (c # cs) of Some r \<Rightarrow> Some r | None \<Rightarrow> firstMatch f cs)"

fun lazyUntil :: "(jsstring \<Rightarrow> bool) \<Rightarrow> jsstring \<Rightarrow> jsstring" where
  "lazyUntil ahead [] = []"
| "lazyUntil ahead (c # cs) = (if ahead (c # cs) then [] else c # lazyUntil ahead cs)"

text \<open>The head \<open>#\s*NAME\<close> (with one, two or three hash signs) at the start of a text:
  the text after the name.\<close>

definition headingStart :: "jsstring \<Rightarrow> jsstring \<Rightarrow> jsstring \<Rightarrow> jsstring option" where
  "headingStart hashes name s =
     (if prefix hashes s then
        (let r = skipWs (drop (length hashes) s)
         in if ciPrefix name r then Some (drop (length name) r) else None)
      else None)"

text \<open>The lookahead \<open>#\s*[^#\s]\<close>: the hash signs, white space, and then a character that
  is neither a hash sign nor white space.\<close>

definition headingAhead :: "jsstring \<Rightarrow> jsstring \<Rightarrow> bool" where
  "headingAhead hashes r =
     (prefix hashes r \<and>
      (case skipWs (drop (length hashes) r) of [] \<Rightarrow> False | x # _ \<Rightarrow> x \<noteq> 35))"

definition fuzzyHeading :: "jsstring \<Rightarrow> jsstring \<Rightarrow> jsstring \<Rightarrow> jsstring option" where
  "fuzzyHeading hashes name s =
     (case firstMatch (headingStart hashes name) s of
        None \<Rightarrow> None
      | Some rest \<Rightarrow> Some (lazyUntil (headingAhead hashes) rest))"

text \<open>The fourth pattern: \<open>---\s*NAME\s*---\<close>, the lazy group, and the lookahead
  \<open>---.*?---\<close>, in which the dot matches no line terminator.\<close>

definition dashStart :: "jsstring \<Rightarrow> jsstring \<Rightarrow> jsstring option" where
  "dashStart name s =
     (if prefix (ascii ''---'') s then
        (let r = skipWs (drop 3 s)
         in if ciPrefix name r then
              (let r2 = skipWs (drop (length name) r)
               in if prefix (ascii ''---'') r2 then Some (drop 3 r2) else None)
            else None)
      else None)"

definition dashAhead :: "jsstring \<Rightarrow> bool" where
  "dashAhead r =
     (prefix (ascii ''---'') r \<and>
      (case indexOf (drop 3 r) (ascii ''---'') of
         None \<Rightarrow> False
       | Some k \<Rightarrow> list_all (\<lambda>c. \<not> isLineTerminator c) (take k (drop 3 r))))"

definition fuzzyDashes :: "jsstring \<Rightarrow> jsstring \<Rightarrow> jsstring option" where
  "fuzzyDashes name s =
     (case firstMatch (dashStart name) s of
        None \<Rightarrow> None
      | Some rest \<Rightarrow> Some (lazyUntil dashAhead rest))"

text \<open>The loop over the patterns: the first whose group is non-empty and, trimmed, longer
  than 100.\<close>

fun firstLong :: "jsstring option list \<Rightarrow> jsstring option" where
  "firstLong [] = None"
| "firstLong (m # ms) =
     (case m of
        Some g \<Rightarrow> (if g \<noteq> [] \<and> length (trim g) > 100 then Some (trim g) else firstLong ms)
      | None \<Rightarrow> firstLong ms)"

definition tryFuzzyMatching :: "jsstring \<Rightarrow> analysis_task \<Rightarrow> jsstring option" where
  "tryFuzzyMatching analysisResult task =
     firstLong
       [fuzzyHeading (ascii ''#'') (t_name task) analysisResult,
        fuzzyHeading (ascii ''##'') (t_name task) analysisResult,
        fuzzyHeading (ascii ''###'') (t_name task) analysisResult,
        fuzzyDashes (t_name task) analysisResult]"

text \<open>A result that the test \<open>if (result)\<close> accepts: neither \<open>null\<close> nor the empty string.\<close>

definition truthyStr :: "jsstring option \<Rightarrow> bool" where
  "truthyStr r = (case r of None \<Rightarrow> False | Some c \<Rightarrow> c \<noteq> [])"

definition extractTaskContentForFallback :: "jsstring \<Rightarrow> analysis_task \<Rightarrow> jsstring option" where
  "extractTaskContentForFallback analysisResult task =
     (let standardResult = tryStandardFormat analysisResult task
      in if truthyStr standardResult then standardResult
         else
           (let variantResult = tryVariantFormats analysisResult task
            in if truthyStr variantResult then variantResult
               else
                 (let fuzzyResult = tryFuzzyMatching analysisResult task
                  in if truthyStr fuzzyResult then fuzzyResult else None)))"

section \<open>Parsing the task outputs\<close>

text \<open>
  The output of a task written live is built from the file read back. The model reads
  the code units that were written, without the round trip through UTF-8 (which
  replaces a lone surrogate), and the only read error is that of a missing file.
\<close>

definition realtimeOutput :: "env \<Rightarrow> analysis_config \<Rightarrow> world \<Rightarrow> analysis_task \<Rightarrow> task_output" where
  "realtimeOutput E cfg w task =
     (case files w (taskFilePath cfg task) of
        Some actualContent \<Rightarrow>
          (let structuredData = extractStructuredData E actualContent
           in \<lparr>to_taskId = t_id task,
               to_document = actualContent,
               to_metadata =
                 [ascii ''taskName'' \<mapsto> VStr (t_name task),
                  ascii ''outputFile'' \<mapsto> VStr (t_outputFile task),
                  ascii ''realtimeWritten'' \<mapsto> VBool True] ++ sd_metadata structuredData,
               to_references = sd_references structuredData\<rparr>)
      | None \<Rightarrow>
          \<lparr>to_taskId = t_id task,
           to_document = ascii ''# '' @ t_name task @ read_failed_title
             @ ascii ''ENOENT: no such file or directory, open '' @ [39] @ taskFilePath cfg task @ [39],
           to_metadata =
             [ascii ''taskName'' \<mapsto> VStr (t_name task),
              ascii ''outputFile'' \<mapsto> VStr (t_outputFile task),
              ascii ''realtimeWritten'' \<mapsto> VBool True,
              ascii ''readError'' \<mapsto> VBool True],
           to_references = []\<rparr>)"

definition fallbackOutput :: "env \<Rightarrow> analysis_config \<Rightarrow> analysis_task \<Rightarrow> jsstring \<Rightarrow> task_output" where
  "fallbackOutput E cfg task taskContent =
     (let structuredData = extractStructuredData E taskContent
      in \<lparr>to_taskId = t_id task,
          to_document = formatDocument (timestamp E) taskContent task (basename (repoPath cfg)),
          to_metadata =
            [ascii ''taskName'' \<mapsto> VStr (t_name task),
             ascii ''outputFile'' \<mapsto> VStr (t_outputFile task),
             ascii ''fallbackParsed'' \<mapsto> VBool True] ++ sd_metadata structuredData,
          to_references = sd_references structuredData\<rparr>)"

definition parseTaskOutputs ::
    "env \<Rightarrow> analysis_config \<Rightarrow> jsstring \<Rightarrow> tlm_state \<Rightarrow> task_output list" where
  "parseTaskOutputs E cfg analysisResult s =
     (let realtime = concat (map (\<lambda>taskId.
            case find (\<lambda>t. t_id t = taskId) ANALYSIS_TASKS of
              Some task \<Rightarrow> [realtimeOutput E cfg (fs s) task]
            | None \<Rightarrow> []) (realtimeWrittenTasks s));
          remainingTasks = filter (\<lambda>task. t_id task \<notin> set (realtimeWrittenTasks s)) ANALYSIS_TASKS;
          fallback = concat (map (\<lambda>task.
            case extractTaskContentForFallback analysisResult task of
              Some taskContent \<Rightarrow>
                (if taskContent \<noteq> [] \<and> length taskContent > 100
                 then [fallbackOutput E cfg task taskContent] else [])
            | None \<Rightarrow> []) remainingTasks)
      in realtime @ fallback)"

section \<open>Updating the knowledge base\<close>

definition isRealtimeWritten :: "analysis_result \<Rightarrow> bool" where
  "isRealtimeWritten r =
     (case ao_metadata (ar_output r) (ascii ''realtimeWritten'') of
        Some v \<Rightarrow> truthy v
      | None \<Rightarrow> False)"

definition writeTaskOutput :: "env \<Rightarrow> analysis_config \<Rightarrow> analysis_result \<Rightarrow> world \<Rightarrow> bool \<times> world" where
  "writeTaskOutput E cfg r w =
     (case find (\<lambda>t. t_id t = ar_agentName r) ANALYSIS_TASKS of
        None \<Rightarrow> (True, w)
      | Some task \<Rightarrow> writeFile E (taskFilePath cfg task) (ao_document (ar_output r)) w)"

text \<open>The loop of \<open>updateKnowledgeBase\<close> over the results; a write that throws ends it
  (\<open>False\<close>).\<close>

fun writeResults :: "env \<Rightarrow> analysis_config \<Rightarrow> analysis_result list \<Rightarrow> world \<Rightarrow> bool \<times> world" where
  "writeResults E cfg [] w = (True, w)"
| "writeResults E cfg (r # rs) w =
     (if ar_status r = StatusSuccess then
        (if isRealtimeWritten r then writeResults E cfg rs w
         else (case writeTaskOutput E cfg r w of
                 (True, w') \<Rightarrow> writeResults E cfg rs w'
               | (False, w') \<Rightarrow> (False, w')))
      else writeResults E cfg rs w)"

definition updateKnowledgeBase ::
    "env \<Rightarrow> analysis_config \<Rightarrow> knowledge_generation_result \<Rightarrow> world \<Rightarrow> bool \<times> world" where
  "updateKnowledgeBase E cfg result w =
     (case writeFile E (path_join (outputPath cfg) (ascii ''.repomind'') (ascii ''knowledge.yaml''))
             (index_yaml E cfg result) w of
        (True, w') \<Rightarrow> writeResults E cfg (kg_results result) w'
      | (False, w') \<Rightarrow> (False, w'))"

section \<open>A run of the knowledge generation\<close>

definition tlm_init :: "world \<Rightarrow> tlm_state" where
  "tlm_init w = \<lparr>realtimeWrittenTasks = [], taskBuffer = Map.empty, fs = w\<rparr>"

text \<open>The callback object that \<open>executeUnifiedAnalysis\<close> passes: only \<open>onContentUpdate\<close>
  changes the state, by a scan of the accumulated content.\<close>

definition onProgress :: "env \<Rightarrow> analysis_config \<Rightarrow> tlm_state \<Rightarrow> progress \<Rightarrow> tlm_state" where
  "onProgress E cfg s ev =
     (case ev of
        OnContentUpdate content totalLength \<Rightarrow>
          detectAndWriteCompletedTasks E cfg content s
      | _ \<Rightarrow> s)"

definition unifiedConfig :: sdk_config_in where
  "unifiedConfig =
     \<lparr>i_maxTurns = None, i_timeout = Some (1000 * 60 * 60 * 2), i_retryAttempts = Some 2,
      i_retryDelay = None, i_enablePartialResults = Some True,
      i_fallbackToSimplerPrompt = Some True, i_enableDetailedLogging = Some True\<rparr>"

definition executeUnifiedAnalysis ::
    "engine \<Rightarrow> env \<Rightarrow> analysis_config \<Rightarrow> jsstring \<Rightarrow> world \<Rightarrow> (js_error + jsstring) \<times> tlm_state" where
  "executeUnifiedAnalysis eng E cfg prompt w =
     (case executeAnalysis eng prompt unified_system_prompt (Some unifiedConfig) of
        (r, sdk) \<Rightarrow>
          (let s = foldl (onProgress E cfg) (tlm_init w) (progress sdk)
           in case r of
                Inl e \<Rightarrow> (Inl e, s)
              | Inr result \<Rightarrow> (Inr result, detectAndWriteCompletedTasks E cfg result s)))"

text \<open>
  \<open>executeKnowledgeGeneration\<close> from its second step on; the first step builds the
  prompt from the template files and is represented by its result, the prompt.
\<close>

definition executeKnowledgeGeneration ::
    "engine \<Rightarrow> env \<Rightarrow> analysis_config \<Rightarrow> jsstring \<Rightarrow> world
      \<Rightarrow> (js_error + knowledge_generation_result) \<times> world" where
  "executeKnowledgeGeneration eng E cfg unifiedPrompt w =
     (case executeUnifiedAnalysis eng E cfg unifiedPrompt w of
        (Inl e, s) \<Rightarrow> (Inl e, fs s)
      | (Inr analysisResult, s) \<Rightarrow>
          (let taskOutputs = parseTaskOutputs E cfg analysisResult s;
               result = validateAndPackageResults (timestamp E) taskOutputs
           in case updateKnowledgeBase E cfg result (fs s) of
                (True, w') \<Rightarrow> (Inr result, w')
              | (False, w') \<Rightarrow> (Inl (write_error E), w')))"

section \<open>Auxiliary notions for the statements\<close>

text \<open>
  An annotation that adds no structure: it starts with a line feed, carries one of the
  two markers that \<open>calculateTaskConfidence\<close> penalises, and contains no hash sign, no
  bar, no run of three dashes and no mermaid fence. The annotations that the SDK helper
  appends are of this kind.
\<close>

definition plainNote :: "jsstring \<Rightarrow> bool" where
  "plainNote a =
     (a \<noteq> [] \<and> hd a = 10
      \<and> (str_includes a mark_note \<or> str_includes a mark_because)
      \<and> \<not> str_includes a (ascii ''#'')
      \<and> \<not> str_includes a (ascii ''|'')
      \<and> \<not> str_includes a (ascii ''---'')
      \<and> \<not> str_includes a ([96, 96, 96] @ ascii ''mermaid''))"

text \<open>The part of the confidence that comes from the structure of the document and
  from the references.\<close>

definition structureBonus :: "task_output \<Rightarrow> real" where
  "structureBonus output =
     (if str_includes (to_document output) (ascii ''#'')
         \<and> str_includes (to_document output) (ascii ''##'') then 0.2 else 0)
     + (if str_includes (to_document output) ([96, 96, 96] @ ascii ''mermaid'') then 0.1 else 0)
     + (if str_includes (to_document output) (ascii ''|'')
          \<and> str_includes (to_document output) (ascii ''---'') then 0.1 else 0)
     + (if length (to_references output) > 0 then 0.1 else 0)"

definition marked :: "jsstring \<Rightarrow> bool" where
  "marked d = (str_includes d mark_note \<or> str_includes d mark_because)"

text \<open>The fallback pass accepts a task when the extraction returns more than 100 code
  units for it.\<close>

definition accepted :: "jsstring \<Rightarrow> analysis_task \<Rightarrow> bool" where
  "accepted analysisResult task =
     (case extractTaskContentForFallback analysisResult task of
        Some taskContent \<Rightarrow> taskContent \<noteq> [] \<and> length taskContent > 100
      | None \<Rightarrow> False)"

text \<open>The invariant of the set of tasks written live: no id twice, declared ids only.\<close>

definition rw_ok :: "tlm_state \<Rightarrow> bool" where
  "rw_ok s =
     (distinct (realtimeWrittenTasks s)
      \<and> set (realtimeWrittenTasks s) \<subseteq> set (map t_id ANALYSIS_TASKS))"

text \<open>
  A task that a scan of the content hands to persistence in state \<open>s\<close>: it is not yet
  written, both of its markers are found in order, and the trimmed text between them is
  longer than 100 code units. The scan visits the declared tasks in order and every
  task handed to persistence costs one write, so the write attempted for a task is the
  one numbered by the writes attempted before the scan plus the tasks before it that
  the scan hands to persistence.
\<close>

definition handsOver :: "jsstring \<Rightarrow> tlm_state \<Rightarrow> analysis_task \<Rightarrow> bool" where
  "handsOver content s u =
     (t_id u \<notin> set (realtimeWrittenTasks s)
      \<and> (case betweenMarkers content (startMarkerOf u) (endMarkerOf u) of
            Some c \<Rightarrow> 100 < length c
          | None \<Rightarrow> False))"

definition attemptOf :: "jsstring \<Rightarrow> tlm_state \<Rightarrow> analysis_task \<Rightarrow> nat" where
  "attemptOf content s task =
     wcount (fs s)
       + length (filter (handsOver content s) (takeWhile (\<lambda>u. t_id u \<noteq> t_id task) ANALYSIS_TASKS))"

text \<open>The first hit of a list of strategy results, in the sense that the code gives to a
  hit: the first result that is neither \<open>null\<close> nor the empty string, and \<open>null\<close> when
  there is none.\<close>

definition firstHit :: "jsstring option list \<Rightarrow> jsstring option" where
  "firstHit rs = (case filter truthyStr rs of [] \<Rightarrow> None | x # xs \<Rightarrow> x)"

text \<open>The text buffered by a sequence of messages (the concatenation of its text
  deltas), and the sequences that hold no result message.\<close>

fun textOf :: "message \<Rightarrow> jsstring" where
  "textOf (StreamEvent session_id parent_tool_use_id (ContentBlockDelta (TextDelta t))) = t"
| "textOf m = []"

definition buffered :: "message list \<Rightarrow> jsstring" where
  "buffered msgs = concat (map textOf msgs)"

fun isResult :: "message \<Rightarrow> bool" where
  "isResult (Result sub) = True"
| "isResult m = False"

definition noResult :: "message list \<Rightarrow> bool" where
  "noResult msgs = list_all (\<lambda>m. \<not> isResult m) msgs"

text \<open>The effect of one message that is not a result on the state of \<open>runQuery\<close>.\<close>

fun rq_step :: "rq_state \<Rightarrow> message \<Rightarrow> rq_state" where
  "rq_step st (StreamEvent session_id parent_tool_use_id ev) =
     onStreamEvent session_id parent_tool_use_id ev st"
| "rq_step st m = st"

text \<open>The invariant of the loop of \<open>runQuery\<close>: the last valid content is the buffered
  text once that is longer than 200, and empty before.\<close>

definition rq_ok :: "rq_state \<Rightarrow> bool" where
  "rq_ok st = (lastValidContent st = (if 200 < length (partialContent st) then partialContent st else []))"

text \<open>
  What a call to the engine yields: the value that \<open>runQuery\<close> returns or throws for the
  messages with which the engine answers the call. A call yields at most \<open>k\<close> code
  units when it throws or returns a text of at most that length.
\<close>

definition outcomeOf :: "engine \<Rightarrow> nat \<Rightarrow> jsstring \<Rightarrow> query_options \<Rightarrow> js_error + jsstring" where
  "outcomeOf eng n prompt options =
     (case eng n prompt options of (msgs, fin) \<Rightarrow> fst (runQuery options msgs fin))"

definition atMost :: "nat \<Rightarrow> js_error + jsstring \<Rightarrow> bool" where
  "atMost k r = (case r of Inl e \<Rightarrow> True | Inr t \<Rightarrow> length t \<le> k)"

text \<open>The options that \<open>performQuery\<close> (\<open>False\<close>) and \<open>performPartialQuery\<close> (\<open>True\<close>)
  build from the system prompt and a configuration.\<close>

definition queryOptions :: "jsstring \<Rightarrow> sdk_config \<Rightarrow> bool \<Rightarrow> query_options" where
  "queryOptions systemPrompt config fallbackQuery =
     \<lparr>qo_maxTurns = None, qo_disallowedTools = disallowed,
      qo_customSystemPrompt = systemPrompt,
      qo_includePartialMessages = c_enablePartialResults config,
      qo_abortAfter = c_timeout config,
      qo_isFallbackQuery = fallbackQuery\<rparr>"

section \<open>Example inputs\<close>

text \<open>
  An environment in which the parsers find nothing and no write fails, a configuration,
  an empty file system, and three analysis texts: one without any marker or heading,
  one in which only the task \<open>overview\<close> is delimited by its markers (with 101 code
  units between them), and the same with exactly 100 code units.
\<close>

definition env0 :: env where
  "env0 = \<lparr>yaml_load = (\<lambda>g. None), json_parse = (\<lambda>g. None), index_yaml = (\<lambda>c r. ascii ''index''),
           write_fails = (\<lambda>n. False),
           write_error = JsError (ascii ''Error'') (ascii ''EACCES: permission denied''),
           timestamp = ascii ''[2025-01-01T00:00:00.000Z]''\<rparr>"

definition cfg0 :: analysis_config where
  "cfg0 = \<lparr>repoPath = ascii ''/work/demo'', outputPath = ascii ''/work/demo''\<rparr>"

definition world0 :: world where
  "world0 = \<lparr>files = Map.empty, writes = [], wcount = 0\<rparr>"

definition text_plain :: jsstring where
  "text_plain = replicate 150 97"

definition text_overview :: jsstring where
  "text_overview =
     ascii ''=== TASK_START: overview ==='' @ replicate 101 97 @ ascii ''=== TASK_END: overview ===''"

definition text_overview100 :: jsstring where
  "text_overview100 =
     ascii ''=== TASK_START: overview ==='' @ replicate 100 97 @ ascii ''=== TASK_END: overview ===''"

text \<open>An engine whose every call streams the given text in one delta and then
  succeeds with it.\<close>

definition eng_returns :: "jsstring \<Rightarrow> engine" where
  "eng_returns t =
     (\<lambda>n p options. ([StreamEvent None None (ContentBlockDelta (TextDelta t)), Result (Success t)],
                     EndOfStream))"

text \<open>Two runs in the example environment: the engine returns the text without markers,
  and the text in which only \<open>overview\<close> is delimited.\<close>

definition run_plain :: "(js_error + knowledge_generation_result) \<times> world" where
  "run_plain = executeKnowledgeGeneration (eng_returns text_plain) env0 cfg0 (ascii ''prompt'') world0"

definition run_overview :: "(js_error + knowledge_generation_result) \<times> world" where
  "run_overview = executeKnowledgeGeneration (eng_returns text_overview) env0 cfg0 (ascii ''prompt'') world0"

definition task_overview :: analysis_task where
  "task_overview = hd ANALYSIS_TASKS"

text \<open>A text without markers in which the name of \<open>overview\<close> is a heading, followed by
  101 code units; and the second declared task.\<close>

definition text_heading :: jsstring where
  "text_heading = ascii ''# '' @ name_overview @ [10] @ replicate 101 97"

definition task_architecture :: analysis_task where
  "task_architecture = ANALYSIS_TASKS ! 1"

text \<open>A text in which \<open>overview\<close> is delimited by the variant of the markers with two
  equals signs.\<close>

definition text_variant :: jsstring where
  "text_variant =
     ascii ''== TASK_START: overview =='' @ replicate 101 97 @ ascii ''== TASK_END: overview ==''"

text \<open>
  A text in which the exact markers of \<open>overview\<close> enclose a single space, followed by
  101 code units between the markers of the first variant (no space after the colon);
  and an environment in which every write fails.
\<close>

definition text_blank :: jsstring where
  "text_blank =
     ascii ''=== TASK_START: overview === === TASK_END: overview ===''
       @ ascii ''=== TASK_START:overview ==='' @ replicate 101 97 @ ascii ''=== TASK_END:overview ===''"

definition env_readonly :: env where
  "env_readonly = env0\<lparr>write_fails := (\<lambda>n. True)\<rparr>"

text \<open>The options of a call of \<open>performQuery\<close> with partial results enabled and the default
  timeout; a delta of text.\<close>

definition options_partial :: query_options where
  "options_partial =
     \<lparr>qo_maxTurns = None, qo_disallowedTools = disallowed, qo_customSystemPrompt = ascii ''system'',
      qo_includePartialMessages = True, qo_abortAfter = 300000, qo_isFallbackQuery = False\<rparr>"

definition text_delta :: "jsstring \<Rightarrow> message" where
  "text_delta t = StreamEvent None None (ContentBlockDelta (TextDelta t))"

text \<open>
  Example engines. The first answers the first call with 60 code units of text and the
  turn-limit result, and every later call with a successful result of 60 code units.
  The second answers every call with the turn-limit result. The configuration disables
  partial results and leaves the rest to the defaults.
\<close>

definition eng_scenarioB :: engine where
  "eng_scenarioB =
     (\<lambda>n p options.
        if n = 0 then ([text_delta (replicate 60 97), Result ErrorMaxTurns], EndOfStream)
        else ([Result (Success (replicate 60 97))], EndOfStream))"

definition eng_limit :: engine where
  "eng_limit = (\<lambda>n p options. ([Result ErrorMaxTurns], EndOfStream))"

definition config_scenarioB :: sdk_config_in where
  "config_scenarioB =
     \<lparr>i_maxTurns = None, i_timeout = None, i_retryAttempts = None, i_retryDelay = None,
      i_enablePartialResults = Some False, i_fallbackToSimplerPrompt = None,
      i_enableDetailedLogging = None\<rparr>"

text \<open>An engine whose first call is aborted and whose later calls return 60 code
  units.\<close>

definition abort_error :: js_error where
  "abort_error = JsError (ascii ''AbortError'') (ascii ''Claude Code process aborted by user'')"

definition eng_abort :: engine where
  "eng_abort =
     (\<lambda>n p options.
        if n = 0 then ([], Thrown abort_error)
        else ([Result (Success (replicate 60 97))], EndOfStream))"

text \<open>
  A text in which the segment of \<open>overview\<close> holds a fenced YAML block with the line
  \<open>metadata:\<close> and, indented, \<open>realtimeWritten: false\<close>, followed by 101 code units; and
  an environment whose YAML parser reads exactly this block, as the object with the
  property \<open>metadata\<close> whose property \<open>realtimeWritten\<close> is \<open>false\<close>.
\<close>

definition yaml_block :: jsstring where
  "yaml_block = ascii ''metadata:'' @ [10] @ ascii ''  realtimeWritten: false''"

definition text_meta :: jsstring where
  "text_meta =
     ascii ''=== TASK_START: overview ==='' @ [10]
       @ [96, 96, 96] @ ascii ''yaml'' @ [10] @ yaml_block @ [10] @ [96, 96, 96] @ [10]
       @ replicate 101 97 @ [10]
       @ ascii ''=== TASK_END: overview ===''"

definition env_meta :: env where
  "env_meta =
     env0\<lparr>yaml_load := (\<lambda>g. if g = yaml_block
                then Some \<lparr>pd_techStack = None, pd_references = None,
                           pd_metadata = Some [ascii ''realtimeWritten'' \<mapsto> VBool False]\<rparr>
                else None)\<rparr>"

definition run_meta :: "(js_error + knowledge_generation_result) \<times> world" where
  "run_meta = executeKnowledgeGeneration (eng_returns text_meta) env_meta cfg0 (ascii ''prompt'') world0"

section \<open>Facts about strings\<close>

lemma indexOf_None_iff: "indexOf s p = None \<longleftrightarrow> \<not> sublist p s"
  by (induction s) (auto simp: sublist_Cons_right)

lemma str_includes_sublist: "str_includes s p \<longleftrightarrow> sublist p s"
  by (simp add: str_includes_def indexOf_None_iff)

lemma str_includes_append_note:
  assumes "a \<noteq> []" and "hd a \<notin> set p" and "\<not> str_includes a p"
  shows "str_includes (d @ a) p = str_includes d p"
proof -
  have "\<not> (\<exists>p1 p2. p = p1 @ p2 \<and> suffix p1 d \<and> prefix p2 a)" if "\<not> sublist p d"
  proof
    assume "\<exists>p1 p2. p = p1 @ p2 \<and> suffix p1 d \<and> prefix p2 a"
    then obtain p1 p2 where p: "p = p1 @ p2" "suffix p1 d" "prefix p2 a" by blast
    show False
    proof (cases p2)
      case Nil
      with p have "suffix p d" by simp
      then have "sublist p d" by (auto simp: suffix_def)
      with that show False by simp
    next
      case (Cons c cs)
      with p(3) assms(1) have "hd a = c" by (cases a) auto
      with p(1) Cons assms(2) show False by simp
    qed
  qed
  with assms(3) show ?thesis
    by (auto simp: str_includes_sublist sublist_append)
qed

lemma str_includes_append_right: "str_includes a p \<Longrightarrow> str_includes (d @ a) p"
  by (auto simp: str_includes_sublist sublist_append)

lemma error_not_abort: "ascii ''Error'' \<noteq> ascii ''AbortError''"
  by (simp add: ascii_def)

section \<open>Runs against an engine that succeeds at once\<close>

lemma runQuery_eng_returns:
  "runQuery options [StreamEvent None None (ContentBlockDelta (TextDelta t)), Result (Success t)] EndOfStream
     = (Inr t, [OnContentUpdate t (length t)])"
  by (simp add: runQuery_def onStreamEvent_def onResult_def rq_init_def isToolUse_def Let_def)

lemma performQuery_eng_returns:
  "performQuery (eng_returns t) p sp c st =
     (Inr t, st\<lparr>calls := calls st @ [(p, \<lparr>qo_maxTurns = None, qo_disallowedTools = disallowed,
        qo_customSystemPrompt = sp, qo_includePartialMessages = c_enablePartialResults c,
        qo_abortAfter = c_timeout c, qo_isFallbackQuery = False\<rparr>)],
       progress := progress st @ [OnContentUpdate t (length t)]\<rparr>)"
  by (simp add: performQuery_def issue_def eng_returns_def runQuery_eng_returns)

lemma executeAnalysis_eng_returns:
  assumes "100 < length t"
  shows "fst (executeAnalysis (eng_returns t) p sp (Some unifiedConfig)) = Inr t
     \<and> progress (snd (executeAnalysis (eng_returns t) p sp (Some unifiedConfig)))
         = [OnStatusUpdate 1 2, OnContentUpdate t (length t)]"
proof -
  have r: "c_retryAttempts (mergeConfig (Some unifiedConfig)) = Suc (Suc 0)"
    by (simp add: mergeConfig_def unifiedConfig_def nullish_def)
  from assms have "t \<noteq> []" by auto
  with assms show ?thesis
    by (simp add: executeAnalysis_def Let_def r tryAttempt_def performQuery_eng_returns sdk_init_def)
qed

lemma executeUnifiedAnalysis_eng_returns:
  assumes "100 < length t"
  shows "executeUnifiedAnalysis (eng_returns t) E cfg p w =
     (Inr t, detectAndWriteCompletedTasks E cfg t (detectAndWriteCompletedTasks E cfg t (tlm_init w)))"
proof -
  obtain r sdk where e: "executeAnalysis (eng_returns t) p unified_system_prompt (Some unifiedConfig) = (r, sdk)"
    by (cases "executeAnalysis (eng_returns t) p unified_system_prompt (Some unifiedConfig)")
  with executeAnalysis_eng_returns [OF assms, of p unified_system_prompt]
  have "r = Inr t" "progress sdk = [OnStatusUpdate 1 2, OnContentUpdate t (length t)]" by simp_all
  with e show ?thesis
    by (simp add: executeUnifiedAnalysis_def onProgress_def)
qed

lemma writeFile_ok: "\<not> write_fails E (wcount w) \<Longrightarrow> fst (writeFile E path data w) = True"
  by (simp add: writeFile_def)

lemma writeResults_ok:
  assumes "\<And>n. \<not> write_fails E n"
  shows "fst (writeResults E cfg rs w) = True"
proof (induction rs arbitrary: w)
  case Nil
  then show ?case by simp
next
  case (Cons r rs)
  have "fst (writeTaskOutput E cfg r w) = True"
    using assms by (simp add: writeTaskOutput_def writeFile_ok split: option.splits)
  then obtain w' where "writeTaskOutput E cfg r w = (True, w')"
    by (cases "writeTaskOutput E cfg r w") auto
  with Cons show ?case by simp
qed

lemma updateKnowledgeBase_ok:
  assumes "\<And>n. \<not> write_fails E n"
  shows "fst (updateKnowledgeBase E cfg result w) = True"
proof -
  let ?p = "path_join (outputPath cfg) (ascii ''.repomind'') (ascii ''knowledge.yaml'')"
  have "fst (writeFile E ?p (index_yaml E cfg result) w) = True"
    using assms by (simp add: writeFile_ok)
  then obtain w' where "writeFile E ?p (index_yaml E cfg result) w = (True, w')"
    by (cases "writeFile E ?p (index_yaml E cfg result) w") auto
  then show ?thesis using assms by (simp add: updateKnowledgeBase_def writeResults_ok)
qed

lemma run_eng_returns:
  assumes "100 < length t" and "\<And>n. \<not> write_fails E n"
  shows "fst (executeKnowledgeGeneration (eng_returns t) E cfg p w) =
     Inr (validateAndPackageResults (timestamp E) (parseTaskOutputs E cfg t
            (detectAndWriteCompletedTasks E cfg t (detectAndWriteCompletedTasks E cfg t (tlm_init w)))))"
proof -
  let ?s = "detectAndWriteCompletedTasks E cfg t (detectAndWriteCompletedTasks E cfg t (tlm_init w))"
  let ?res = "validateAndPackageResults (timestamp E) (parseTaskOutputs E cfg t ?s)"
  obtain ok w' where u: "updateKnowledgeBase E cfg ?res (fs ?s) = (ok, w')"
    by (cases "updateKnowledgeBase E cfg ?res (fs ?s)")
  with updateKnowledgeBase_ok [OF assms(2), of cfg ?res "fs ?s"] have "ok = True" by simp
  with u show ?thesis
    by (simp add: executeKnowledgeGeneration_def executeUnifiedAnalysis_eng_returns [OF assms(1)] Let_def)
qed

lemma run_eng_returns_world:
  assumes "100 < length t" and "\<And>n. \<not> write_fails E n"
  shows "snd (executeKnowledgeGeneration (eng_returns t) E cfg p w) =
     snd (updateKnowledgeBase E cfg
            (validateAndPackageResults (timestamp E) (parseTaskOutputs E cfg t
               (detectAndWriteCompletedTasks E cfg t (detectAndWriteCompletedTasks E cfg t (tlm_init w)))))
            (fs (detectAndWriteCompletedTasks E cfg t (detectAndWriteCompletedTasks E cfg t (tlm_init w)))))"
proof -
  let ?s = "detectAndWriteCompletedTasks E cfg t (detectAndWriteCompletedTasks E cfg t (tlm_init w))"
  let ?res = "validateAndPackageResults (timestamp E) (parseTaskOutputs E cfg t ?s)"
  obtain ok w' where u: "updateKnowledgeBase E cfg ?res (fs ?s) = (ok, w')"
    by (cases "updateKnowledgeBase E cfg ?res (fs ?s)")
  with updateKnowledgeBase_ok [OF assms(2), of cfg ?res "fs ?s"] have "ok = True" by simp
  with u show ?thesis
    by (simp add: executeKnowledgeGeneration_def executeUnifiedAnalysis_eng_returns [OF assms(1)] Let_def)
qed

section \<open>The set of tasks written live\<close>

lemma declared_ids:
  "map t_id ANALYSIS_TASKS =
     [ascii ''overview'', ascii ''systemArchitecture'', ascii ''apiReference'', ascii ''businessWorkflows'']"
  by (simp add: ANALYSIS_TASKS_def)

lemma declared_ids_distinct: "distinct (map t_id ANALYSIS_TASKS)"
  by (simp add: declared_ids ascii_def)

lemma find_declared:
  assumes "x \<in> set (map t_id ANALYSIS_TASKS)"
  shows "\<exists>task. find (\<lambda>t. t_id t = x) ANALYSIS_TASKS = Some task \<and> t_id task = x"
proof -
  from assms obtain t where "t \<in> set ANALYSIS_TASKS" "t_id t = x" by auto
  then have "find (\<lambda>t. t_id t = x) ANALYSIS_TASKS \<noteq> None"
    by (auto simp: find_None_iff)
  then obtain task where f: "find (\<lambda>t. t_id t = x) ANALYSIS_TASKS = Some task" by auto
  then have "t_id task = x" by (auto simp: find_Some_iff)
  with f show ?thesis by blast
qed

lemma noteTaskStart_same:
  "realtimeWrittenTasks (noteTaskStart content task s) = realtimeWrittenTasks s
   \<and> fs (noteTaskStart content task s) = fs s"
  by (simp add: noteTaskStart_def split: option.splits)

lemma writeCompleted_written:
  "realtimeWrittenTasks (writeCompleted E cfg content task s) = realtimeWrittenTasks s
   \<or> realtimeWrittenTasks (writeCompleted E cfg content task s)
        = set_add (t_id task) (realtimeWrittenTasks s)"
proof (cases "indexOf content (startMarkerOf task)")
  case None
  then show ?thesis by (simp add: writeCompleted_def)
next
  case (Some si)
  show ?thesis
  proof (cases "indexOf content (endMarkerOf task)")
    case None
    with Some show ?thesis by (simp add: writeCompleted_def)
  next
    case (Some ei)
    obtain ok w where w: "writeTaskImmediately E cfg task
        (trim (substring content (si + length (startMarkerOf task)) ei)) (fs s) = (ok, w)"
      by (cases "writeTaskImmediately E cfg task
        (trim (substring content (si + length (startMarkerOf task)) ei)) (fs s)")
    show ?thesis
      using \<open>indexOf content (startMarkerOf task) = Some si\<close> Some w
      by (cases ok) (simp_all add: writeCompleted_def Let_def)
  qed
qed

lemma detectTask_written:
  "realtimeWrittenTasks (detectTask E cfg content task s) = realtimeWrittenTasks s
   \<or> (t_id task \<notin> set (realtimeWrittenTasks s)
       \<and> realtimeWrittenTasks (detectTask E cfg content task s) = realtimeWrittenTasks s @ [t_id task])"
  using writeCompleted_written [of E cfg content task "noteTaskStart content task s"]
  by (auto simp: detectTask_def noteTaskStart_same set_add_def)

lemma detectTask_rw_ok:
  assumes "rw_ok s" and "task \<in> set ANALYSIS_TASKS"
  shows "rw_ok (detectTask E cfg content task s)"
  using detectTask_written [of E cfg content task s] assms
  by (auto simp: rw_ok_def)

lemma foldl_preserves:
  assumes "\<And>s x. x \<in> set xs \<Longrightarrow> P s \<Longrightarrow> P (f s x)" and "P s"
  shows "P (foldl f s xs)"
  using assms by (induction xs arbitrary: s) auto

lemma detectAndWrite_rw_ok: "rw_ok s \<Longrightarrow> rw_ok (detectAndWriteCompletedTasks E cfg content s)"
  unfolding detectAndWriteCompletedTasks_def
  by (rule foldl_preserves) (auto intro: detectTask_rw_ok)

lemma onProgress_rw_ok: "rw_ok s \<Longrightarrow> rw_ok (onProgress E cfg s ev)"
  by (cases ev) (auto simp: onProgress_def intro: detectAndWrite_rw_ok)

lemma tlm_init_rw_ok: "rw_ok (tlm_init w)"
  by (simp add: rw_ok_def tlm_init_def)

lemma executeUnifiedAnalysis_rw_ok: "rw_ok (snd (executeUnifiedAnalysis eng E cfg p w))"
proof -
  have "rw_ok (foldl (onProgress E cfg) (tlm_init w) evs)" for evs
    by (rule foldl_preserves) (auto intro: onProgress_rw_ok tlm_init_rw_ok)
  then show ?thesis
    by (auto simp: executeUnifiedAnalysis_def Let_def split: prod.splits sum.splits
        intro: detectAndWrite_rw_ok)
qed

lemma realtime_ids:
  assumes "set rw \<subseteq> set (map t_id ANALYSIS_TASKS)"
  shows "map to_taskId (concat (map (\<lambda>taskId.
            case find (\<lambda>t. t_id t = taskId) ANALYSIS_TASKS of
              Some task \<Rightarrow> [realtimeOutput E cfg w task]
            | None \<Rightarrow> []) rw)) = rw"
  using assms
proof (induction rw)
  case Nil
  then show ?case by simp
next
  case (Cons x rw)
  then obtain task where "find (\<lambda>t. t_id t = x) ANALYSIS_TASKS = Some task" "t_id task = x"
    using find_declared [of x] by auto
  moreover have "to_taskId (realtimeOutput E cfg w task) = t_id task" for task
    by (simp add: realtimeOutput_def Let_def split: option.splits)
  ultimately show ?case using Cons by simp
qed

lemma fallback_ids:
  "map to_taskId (concat (map (\<lambda>task.
            case extractTaskContentForFallback r task of
              Some taskContent \<Rightarrow>
                (if taskContent \<noteq> [] \<and> length taskContent > 100
                 then [fallbackOutput E cfg task taskContent] else [])
            | None \<Rightarrow> []) ts)) = map t_id (filter (accepted r) ts)"
  by (induction ts) (auto simp: accepted_def fallbackOutput_def Let_def split: option.splits)

lemma parse_ids:
  assumes "rw_ok s"
  shows "map to_taskId (parseTaskOutputs E cfg r s) =
           realtimeWrittenTasks s
           @ map t_id (filter (accepted r)
               (filter (\<lambda>task. t_id task \<notin> set (realtimeWrittenTasks s)) ANALYSIS_TASKS))"
  using assms realtime_ids [of "realtimeWrittenTasks s" E cfg "fs s"]
  by (simp add: parseTaskOutputs_def Let_def fallback_ids rw_ok_def)

lemma result_ids: "map ar_agentName (kg_results (validateAndPackageResults ts outs)) = map to_taskId outs"
  by (simp add: validateAndPackageResults_def Let_def comp_def)

lemma parse_ids_distinct:
  assumes "rw_ok s"
  shows "distinct (map to_taskId (parseTaskOutputs E cfg r s))"
proof -
  have d: "distinct (map t_id (filter (accepted r)
               (filter (\<lambda>task. t_id task \<notin> set (realtimeWrittenTasks s)) ANALYSIS_TASKS)))"
    using declared_ids_distinct by (simp add: distinct_map_filter)
  show ?thesis using assms d by (auto simp: parse_ids rw_ok_def)
qed

lemma parse_ids_declared:
  assumes "rw_ok s"
  shows "set (map to_taskId (parseTaskOutputs E cfg r s)) \<subseteq> set (map t_id ANALYSIS_TASKS)"
  using assms by (auto simp: parse_ids rw_ok_def)

lemma parse_ids_member:
  assumes "rw_ok s" and "task \<in> set ANALYSIS_TASKS"
  shows "t_id task \<in> set (map to_taskId (parseTaskOutputs E cfg r s))
          \<longleftrightarrow> t_id task \<in> set (realtimeWrittenTasks s) \<or> accepted r task"
proof (cases "t_id task \<in> set (realtimeWrittenTasks s)")
  case True
  then show ?thesis using assms(1) by (simp add: parse_ids)
next
  case False
  have inj: "u = task" if "u \<in> set ANALYSIS_TASKS" "t_id u = t_id task" for u
    using declared_ids_distinct that assms(2) by (simp add: distinct_map inj_on_def)
  have "t_id task \<in> t_id ` {u \<in> set ANALYSIS_TASKS. t_id u \<notin> set (realtimeWrittenTasks s) \<and> accepted r u}
          \<longleftrightarrow> accepted r task"
  proof
    assume "t_id task \<in> t_id ` {u \<in> set ANALYSIS_TASKS. t_id u \<notin> set (realtimeWrittenTasks s) \<and> accepted r u}"
    then obtain u where "u \<in> set ANALYSIS_TASKS" "accepted r u" "t_id u = t_id task" by auto
    then show "accepted r task" using inj by blast
  next
    assume "accepted r task"
    then show "t_id task \<in> t_id ` {u \<in> set ANALYSIS_TASKS. t_id u \<notin> set (realtimeWrittenTasks s) \<and> accepted r u}"
      using False assms(2) by blast
  qed
  moreover have "set (map t_id (filter (accepted r)
               (filter (\<lambda>task. t_id task \<notin> set (realtimeWrittenTasks s)) ANALYSIS_TASKS)))
        = t_id ` {u \<in> set ANALYSIS_TASKS. t_id u \<notin> set (realtimeWrittenTasks s) \<and> accepted r u}"
    by auto
  ultimately show ?thesis using False assms(1) by (simp only: parse_ids set_append Un_iff)
qed


lemma run_result_ids:
  assumes "executeUnifiedAnalysis eng E cfg p w = (Inr r, s)"
  shows "fst (executeKnowledgeGeneration eng E cfg p w) = Inr result \<Longrightarrow>
           map ar_agentName (kg_results result) = map to_taskId (parseTaskOutputs E cfg r s)"
  using assms
  by (auto simp: executeKnowledgeGeneration_def Let_def result_ids split: prod.splits bool.splits)

lemma run_returns_analysis:
  assumes "fst (executeKnowledgeGeneration eng E cfg p w) = Inr result"
  shows "\<exists>r s. executeUnifiedAnalysis eng E cfg p w = (Inr r, s)"
proof (cases "executeUnifiedAnalysis eng E cfg p w")
  case (Pair a s)
  with assms show ?thesis
    by (cases a) (auto simp: executeKnowledgeGeneration_def)
qed

section \<open>The calls issued by the SDK helper\<close>

lemma issue_outcome:
  "fst (issue eng p options st) = outcomeOf eng (length (calls st)) p options
   \<and> calls (snd (issue eng p options st)) = calls st @ [(p, options)]
   \<and> failures (snd (issue eng p options st)) = failures st
   \<and> delays (snd (issue eng p options st)) = delays st"
  by (simp add: issue_def outcomeOf_def split: prod.splits)

lemma performQuery_outcome:
  "fst (performQuery eng p sp c st) = outcomeOf eng (length (calls st)) p (queryOptions sp c False)
   \<and> calls (snd (performQuery eng p sp c st)) = calls st @ [(p, queryOptions sp c False)]
   \<and> failures (snd (performQuery eng p sp c st)) = failures st
   \<and> delays (snd (performQuery eng p sp c st)) = delays st"
  using issue_outcome [of eng p "queryOptions sp c False" st]
  by (simp add: performQuery_def queryOptions_def)

lemma performPartialQuery_outcome:
  "fst (performPartialQuery eng p sp c st) = outcomeOf eng (length (calls st)) p (queryOptions sp c True)
   \<and> calls (snd (performPartialQuery eng p sp c st)) = calls st @ [(p, queryOptions sp c True)]
   \<and> failures (snd (performPartialQuery eng p sp c st)) = failures st
   \<and> delays (snd (performPartialQuery eng p sp c st)) = delays st"
  using issue_outcome [of eng p "queryOptions sp c True" st]
  by (simp add: performPartialQuery_def queryOptions_def)

text \<open>The degradation step: its first call is the degraded request; a salvage call may
  follow; nothing else is issued.\<close>

lemma degrade_calls:
  "calls (snd (degrade eng p sp c m st)) =
      calls st @ [(createSimplifiedPrompt p, queryOptions sp (simplifiedConfig c m) False)]
   \<or> calls (snd (degrade eng p sp c m st)) =
      calls st @ [(createSimplifiedPrompt p, queryOptions sp (simplifiedConfig c m) False),
                  (p, queryOptions sp (partialConfig c) True)]"
proof -
  obtain r1 st1 where q1: "performQuery eng (createSimplifiedPrompt p) sp (simplifiedConfig c m) st = (r1, st1)"
    by (cases "performQuery eng (createSimplifiedPrompt p) sp (simplifiedConfig c m) st")
  then have c1: "calls st1 = calls st @ [(createSimplifiedPrompt p, queryOptions sp (simplifiedConfig c m) False)]"
    using performQuery_outcome [of eng "createSimplifiedPrompt p" sp "simplifiedConfig c m" st] by simp
  obtain r2 st2 where q2: "performPartialQuery eng p sp (partialConfig c) st1 = (r2, st2)"
    by (cases "performPartialQuery eng p sp (partialConfig c) st1")
  then have c2: "calls st2 = calls st1 @ [(p, queryOptions sp (partialConfig c) True)]"
    using performPartialQuery_outcome [of eng p sp "partialConfig c" st1] by simp
  show ?thesis
    using q1 q2 c1 c2 by (auto simp: degrade_def split: sum.splits)
qed

lemma degrade_logs:
  "failures (snd (degrade eng p sp c m st)) = failures st
   \<and> delays (snd (degrade eng p sp c m st)) = delays st"
proof -
  obtain r1 st1 where q1: "performQuery eng (createSimplifiedPrompt p) sp (simplifiedConfig c m) st = (r1, st1)"
    by (cases "performQuery eng (createSimplifiedPrompt p) sp (simplifiedConfig c m) st")
  then have c1: "failures st1 = failures st" "delays st1 = delays st"
    using performQuery_outcome [of eng "createSimplifiedPrompt p" sp "simplifiedConfig c m" st] by simp_all
  obtain r2 st2 where q2: "performPartialQuery eng p sp (partialConfig c) st1 = (r2, st2)"
    by (cases "performPartialQuery eng p sp (partialConfig c) st1")
  then have c2: "failures st2 = failures st1" "delays st2 = delays st1"
    using performPartialQuery_outcome [of eng p sp "partialConfig c" st1] by simp_all
  show ?thesis
    using q1 q2 c1 c2 by (auto simp: degrade_def split: sum.splits)
qed

lemma degrade_none:
  assumes "\<And>n options. atMost 50 (outcomeOf eng n (createSimplifiedPrompt p) options)"
    and "\<And>n options. qo_isFallbackQuery options \<Longrightarrow> atMost 50 (outcomeOf eng n p options)"
  shows "fst (degrade eng p sp c m st) = None"
proof -
  obtain r1 st1 where q1: "performQuery eng (createSimplifiedPrompt p) sp (simplifiedConfig c m) st = (r1, st1)"
    by (cases "performQuery eng (createSimplifiedPrompt p) sp (simplifiedConfig c m) st")
  then have a1: "atMost 50 r1"
    using performQuery_outcome [of eng "createSimplifiedPrompt p" sp "simplifiedConfig c m" st] assms(1)
    by simp
  obtain r2 st2 where q2: "performPartialQuery eng p sp (partialConfig c) st1 = (r2, st2)"
    by (cases "performPartialQuery eng p sp (partialConfig c) st1")
  then have a2: "atMost 50 r2"
    using performPartialQuery_outcome [of eng p sp "partialConfig c" st1]
      assms(2) [of "queryOptions sp (partialConfig c) True"]
    by (simp add: queryOptions_def)
  show ?thesis
    using q1 q2 a1 a2 by (auto simp: degrade_def atMost_def split: sum.splits)
qed

lemma tryAttempt_outcome:
  "calls (snd (tryAttempt eng p sp c a st)) = calls st @ [(p, queryOptions sp c False)]
   \<and> failures (snd (tryAttempt eng p sp c a st)) = failures st
   \<and> delays (snd (tryAttempt eng p sp c a st)) = delays st
   \<and> (fst (tryAttempt eng p sp c a st) =
        (case outcomeOf eng (length (calls st)) p (queryOptions sp c False) of
           Inr result \<Rightarrow>
             (if result \<noteq> [] \<and> length result > 100 then Inr result
              else Inl (throwError err_insufficient))
         | Inl e \<Rightarrow> Inl e))"
proof -
  let ?st0 = "st\<lparr>progress := progress st @ [OnStatusUpdate a (c_retryAttempts c)]\<rparr>"
  obtain r stq where q: "performQuery eng p sp c ?st0 = (r, stq)"
    by (cases "performQuery eng p sp c ?st0")
  with performQuery_outcome [of eng p sp c ?st0]
  have "outcomeOf eng (length (calls st)) p (queryOptions sp c False) = r"
    "calls stq = calls st @ [(p, queryOptions sp c False)]"
    "failures stq = failures st" "delays stq = delays st"
    by simp_all
  with q show ?thesis
    by (cases r) (simp_all add: tryAttempt_def)
qed

lemma tryAttempt_fails:
  assumes "atMost 100 (outcomeOf eng (length (calls st)) p (queryOptions sp c False))"
  shows "\<exists>error. fst (tryAttempt eng p sp c a st) = Inl error"
  using assms tryAttempt_outcome [of eng p sp c a st]
  by (cases "outcomeOf eng (length (calls st)) p (queryOptions sp c False)")
     (auto simp: atMost_def)

lemma recover_logs:
  "failures (snd (recover eng p sp c a error st)) = failures st @ [error]
   \<and> delays (snd (recover eng p sp c a error st)) = delays st"
  using degrade_logs [of eng p sp c "err_message error" "st\<lparr>failures := failures st @ [error]\<rparr>"]
  by (simp add: recover_def Let_def)

lemma recover_none:
  assumes "\<And>n options. atMost 50 (outcomeOf eng n (createSimplifiedPrompt p) options)"
    and "\<And>n options. qo_isFallbackQuery options \<Longrightarrow> atMost 50 (outcomeOf eng n p options)"
  shows "fst (recover eng p sp c a error st) = None"
  using degrade_none [OF assms, of sp c "err_message error" "st\<lparr>failures := failures st @ [error]\<rparr>"]
  by (simp add: recover_def Let_def)

lemma attemptLoop_exhausts:
  assumes n: "\<And>n options. \<not> qo_isFallbackQuery options \<Longrightarrow> atMost 100 (outcomeOf eng n p options)"
    and d: "\<And>n options. atMost 50 (outcomeOf eng n (createSimplifiedPrompt p) options)"
    and s: "\<And>n options. qo_isFallbackQuery options \<Longrightarrow> atMost 50 (outcomeOf eng n p options)"
  shows "a + k = c_retryAttempts c \<Longrightarrow>
     \<exists>st'. attemptLoop eng p sp c (Suc k) a st
              = (Inl (throwError (err_failed_prefix @ err_message (last (failures st')))), st')
          \<and> length (failures st') = length (failures st) + Suc k
          \<and> delays st' = delays st @ map (\<lambda>i. c_retryDelay c * real i) [a..<a + k]"
proof (induction k arbitrary: a st)
  case 0
  obtain error where e: "fst (tryAttempt eng p sp c a st) = Inl error"
    using tryAttempt_fails [of eng st p sp c a] n [of "queryOptions sp c False"]
    by (auto simp: queryOptions_def)
  obtain st1 where t: "tryAttempt eng p sp c a st = (Inl error, st1)"
    using e by (cases "tryAttempt eng p sp c a st") auto
  then have l1: "failures st1 = failures st" "delays st1 = delays st"
    using tryAttempt_outcome [of eng p sp c a st] by simp_all
  obtain st2 where r: "recover eng p sp c a error st1 = (None, st2)"
    using recover_none [OF d s, of sp c a error st1]
    by (cases "recover eng p sp c a error st1") auto
  then have l2: "failures st2 = failures st @ [error]" "delays st2 = delays st"
    using recover_logs [of eng p sp c a error st1] l1 by simp_all
  show ?case using 0 t r l2 by simp
next
  case (Suc k)
  obtain error where e: "fst (tryAttempt eng p sp c a st) = Inl error"
    using tryAttempt_fails [of eng st p sp c a] n [of "queryOptions sp c False"]
    by (auto simp: queryOptions_def)
  obtain st1 where t: "tryAttempt eng p sp c a st = (Inl error, st1)"
    using e by (cases "tryAttempt eng p sp c a st") auto
  then have l1: "failures st1 = failures st" "delays st1 = delays st"
    using tryAttempt_outcome [of eng p sp c a st] by simp_all
  obtain st2 where r: "recover eng p sp c a error st1 = (None, st2)"
    using recover_none [OF d s, of sp c a error st1]
    by (cases "recover eng p sp c a error st1") auto
  then have l2: "failures st2 = failures st @ [error]" "delays st2 = delays st"
    using recover_logs [of eng p sp c a error st1] l1 by simp_all
  let ?st3 = "st2\<lparr>delays := delays st2 @ [c_retryDelay c * real a]\<rparr>"
  from Suc.prems have na: "a \<noteq> c_retryAttempts c" and nx: "Suc a + k = c_retryAttempts c" by simp_all
  from Suc.IH [OF nx, of ?st3] obtain st' where
    ih: "attemptLoop eng p sp c (Suc k) (Suc a) ?st3
           = (Inl (throwError (err_failed_prefix @ err_message (last (failures st')))), st')"
      "length (failures st') = length (failures ?st3) + Suc k"
      "delays st' = delays ?st3 @ map (\<lambda>i. c_retryDelay c * real i) [Suc a..<Suc a + k]"
    by blast
  have step: "attemptLoop eng p sp c (Suc (Suc k)) a st = attemptLoop eng p sp c (Suc k) (Suc a) ?st3"
    using t r na by (simp del: attemptLoop.simps add: attemptLoop.simps(2) [of _ _ _ _ "Suc k" a st])
  have "[a..<a + Suc k] = a # [Suc a..<Suc a + k]"
    by (simp add: upt_conv_Cons)
  with ih l2 step show ?case
    by (intro exI [of _ st']) simp
qed

section \<open>A degraded call that succeeds\<close>

lemma limit_message: "isLimitError err_max_turns \<and> \<not> isTimeoutError err_max_turns"
  by code_simp

text \<open>The engine of scenario B: the first call ends at the turn limit with 60 code units
  buffered, the degraded call returns 60 code units.\<close>

lemma scenarioB_first:
  "outcomeOf eng_scenarioB 0 p options = Inl (throwError err_max_turns)"
  using error_not_abort
  by (simp add: outcomeOf_def eng_scenarioB_def runQuery_def text_delta_def onStreamEvent_def
      onResult_def catchClause_def throwError_def rq_init_def isToolUse_def Let_def)

lemma scenarioB_later: "outcomeOf eng_scenarioB (Suc n) p options = Inr (replicate 60 97)"
  by (simp add: outcomeOf_def eng_scenarioB_def runQuery_def onResult_def rq_init_def)

lemma scenarioB_run:
  assumes "c_fallbackToSimplerPrompt (mergeConfig config)"
    and "c_retryAttempts (mergeConfig config) = Suc k"
  shows "fst (executeAnalysis eng_scenarioB p sp config) = Inr (replicate 60 97 @ note_simplified)
     \<and> calls (snd (executeAnalysis eng_scenarioB p sp config))
         = [(p, queryOptions sp (mergeConfig config) False),
            (createSimplifiedPrompt p,
             queryOptions sp (simplifiedConfig (mergeConfig config) err_max_turns) False)]"
proof -
  let ?c = "mergeConfig config"
  obtain r st1 where t: "tryAttempt eng_scenarioB p sp ?c 1 sdk_init = (r, st1)"
    by (cases "tryAttempt eng_scenarioB p sp ?c 1 sdk_init")
  with tryAttempt_outcome [of eng_scenarioB p sp ?c 1 sdk_init]
  have r: "r = Inl (throwError err_max_turns)"
    and c1: "calls st1 = [(p, queryOptions sp ?c False)]"
    by (simp_all add: sdk_init_def scenarioB_first)
  let ?st1 = "st1\<lparr>failures := failures st1 @ [throwError err_max_turns]\<rparr>"
  obtain r2 st2 where q: "performQuery eng_scenarioB (createSimplifiedPrompt p) sp
      (simplifiedConfig ?c err_max_turns) ?st1 = (r2, st2)"
    by (cases "performQuery eng_scenarioB (createSimplifiedPrompt p) sp
      (simplifiedConfig ?c err_max_turns) ?st1")
  with performQuery_outcome [of eng_scenarioB "createSimplifiedPrompt p" sp
      "simplifiedConfig ?c err_max_turns" ?st1] c1
  have r2: "r2 = Inr (replicate 60 97)"
    and c2: "calls st2 = [(p, queryOptions sp ?c False),
            (createSimplifiedPrompt p, queryOptions sp (simplifiedConfig ?c err_max_turns) False)]"
    by (simp_all add: scenarioB_later)
  have d: "degrade eng_scenarioB p sp ?c err_max_turns ?st1 = (Some (replicate 60 97 @ note_simplified), st2)"
    using q r2 by (simp add: degrade_def)
  have rc: "recover eng_scenarioB p sp ?c 1 (throwError err_max_turns) st1
      = (Some (replicate 60 97 @ note_simplified), st2)"
    using d assms(1) limit_message by (simp add: recover_def Let_def throwError_def)
  show ?thesis
    using t r rc c2 assms(2) by (simp add: executeAnalysis_def Let_def)
qed


section \<open>The packaged result\<close>

text \<open>
  C10. For every list of task outputs, the \<open>generatedFiles\<close> of the result of
  \<open>validateAndPackageResults\<close> are the output paths of all four declared tasks, whether
  or not a task was resolved or written.
\<close>

theorem generatedFiles_all_declared_paths:
  "kg_generatedFiles (validateAndPackageResults ts outs) =
     [ascii ''docs/overview.md'', ascii ''docs/system-architecture.md'',
      ascii ''docs/api-reference.md'', ascii ''docs/business-workflows.md'']"
  by (simp add: validateAndPackageResults_def ANALYSIS_TASKS_def Let_def)

section \<open>The confidence of a task output\<close>

lemma calculateTaskConfidence_alt:
  "calculateTaskConfidence output =
     min ((min (real (length (to_document output)) / 2000) 1 * 0.4 + structureBonus output)
            * (if marked (to_document output) then 0.7 else 1)) 1"
  by (simp add: calculateTaskConfidence_def structureBonus_def marked_def Let_def)

lemma structureBonus_range: "0 \<le> structureBonus output \<and> structureBonus output \<le> 0.5"
  by (simp add: structureBonus_def)

lemma confidence_range: "0 \<le> calculateTaskConfidence output \<and> calculateTaskConfidence output \<le> 1"
proof -
  have b: "0 \<le> structureBonus output" using structureBonus_range by blast
  have "0 \<le> min (real (length (to_document output)) / 2000) 1 * 0.4" by simp
  with b have "0 \<le> (min (real (length (to_document output)) / 2000) 1 * 0.4 + structureBonus output)
            * (if marked (to_document output) then 0.7 else 1)"
    by simp
  then show ?thesis by (simp add: calculateTaskConfidence_alt)
qed

lemma hash2_includes: "str_includes a (ascii ''##'') \<Longrightarrow> str_includes a (ascii ''#'')"
proof -
  assume "str_includes a (ascii ''##'')"
  then have "sublist [35, 35] a" by (simp add: str_includes_sublist ascii_def)
  moreover have "sublist [35] [35, 35::int]" by (simp add: sublist_code)
  ultimately have "sublist [35] a" using sublist_order.order_trans by blast
  then show ?thesis by (simp add: str_includes_sublist ascii_def)
qed

lemma structureBonus_plainNote:
  assumes "plainNote a"
  shows "structureBonus (output\<lparr>to_document := d @ a\<rparr>) = structureBonus (output\<lparr>to_document := d\<rparr>)"
proof -
  from assms have a: "a \<noteq> []" "hd a = 10" and
    n1: "\<not> str_includes a (ascii ''#'')" and n2: "\<not> str_includes a (ascii ''|'')" and
    n3: "\<not> str_includes a (ascii ''---'')" and n4: "\<not> str_includes a ([96, 96, 96] @ ascii ''mermaid'')"
    by (simp_all add: plainNote_def)
  from n1 have n5: "\<not> str_includes a (ascii ''##'')" using hash2_includes by blast
  have "str_includes (d @ a) (ascii ''#'') = str_includes d (ascii ''#'')"
    using a n1 by (intro str_includes_append_note) (simp_all add: ascii_def)
  moreover have "str_includes (d @ a) (ascii ''##'') = str_includes d (ascii ''##'')"
    using a n5 by (intro str_includes_append_note) (simp_all add: ascii_def)
  moreover have "str_includes (d @ a) (ascii ''|'') = str_includes d (ascii ''|'')"
    using a n2 by (intro str_includes_append_note) (simp_all add: ascii_def)
  moreover have "str_includes (d @ a) (ascii ''---'') = str_includes d (ascii ''---'')"
    using a n3 by (intro str_includes_append_note) (simp_all add: ascii_def)
  moreover have "str_includes (d @ a) ([96, 96, 96] @ ascii ''mermaid'') = str_includes d ([96, 96, 96] @ ascii ''mermaid'')"
    using a n4 by (intro str_includes_append_note) (simp_all add: ascii_def)
  ultimately show ?thesis by (simp add: structureBonus_def)
qed

lemma marked_plainNote: "plainNote a \<Longrightarrow> marked (d @ a)"
  by (auto simp: plainNote_def marked_def intro: str_includes_append_right)

lemma penalty_arith:
  fixes L A B :: real
  assumes "0 \<le> B" "0 \<le> L" "0 \<le> A" "7 * A \<le> 3 * L"
  shows "(min ((L + A) / 2000) 1 * 0.4 + B) * 0.7 \<le> min (L / 2000) 1 * 0.4 + B"
proof -
  define X where "X = min ((L + A) / 2000) 1"
  have "X \<le> (L + A) / 2000" unfolding X_def by (rule min.cobounded1)
  then have X1: "X * 2000 \<le> L + A" by (simp add: field_simps)
  have X2: "X \<le> 1" unfolding X_def by (rule min.cobounded2)
  show ?thesis
  proof (cases "L \<le> 2000")
    case True
    then have "min (L / 2000) 1 = L / 2000" by (simp add: min_def)
    moreover have "(X * 0.4 + B) * 0.7 \<le> L / 2000 * 0.4 + B"
      using X1 assms by (simp add: field_simps)
    ultimately show ?thesis by (simp add: X_def)
  next
    case False
    then have "min (L / 2000) 1 = 1" by (simp add: min_def)
    moreover have "(X * 0.4 + B) * 0.7 \<le> 1 * 0.4 + B"
      using X2 assms by (simp add: field_simps)
    ultimately show ?thesis by (simp add: X_def)
  qed
qed

text \<open>
  C9, as amended. Every confidence computed by \<open>calculateTaskConfidence\<close> lies between 0
  and 1. Appending an annotation that adds no structure to a document does not raise its
  confidence when the document has at least 2000 code units, or when it carries no
  marker yet and is more than seven thirds as long as the annotation. (The score grows
  with the length of the document, and the penalty applies to a document that contains
  a marker, so without these conditions the annotated document can score higher.)
\<close>

theorem confidence_in_range_and_annotation_penalty:
  "0 \<le> calculateTaskConfidence output \<and> calculateTaskConfidence output \<le> 1
   \<and> (plainNote a \<longrightarrow>
        (2000 \<le> length d \<or> (\<not> marked d \<and> 7 * length a < 3 * length d)) \<longrightarrow>
        calculateTaskConfidence (output\<lparr>to_document := d @ a\<rparr>)
          \<le> calculateTaskConfidence (output\<lparr>to_document := d\<rparr>))"
proof (intro conjI impI)
  show "0 \<le> calculateTaskConfidence output" using confidence_range by blast
  show "calculateTaskConfidence output \<le> 1" using confidence_range by blast
next
  assume pn: "plainNote a"
    and c: "2000 \<le> length d \<or> (\<not> marked d \<and> 7 * length a < 3 * length d)"
  define B where "B = structureBonus (output\<lparr>to_document := d\<rparr>)"
  have B: "0 \<le> B" unfolding B_def using structureBonus_range by blast
  have sb: "structureBonus (output\<lparr>to_document := d @ a\<rparr>) = B"
    unfolding B_def using pn by (rule structureBonus_plainNote)
  have m: "marked (d @ a)" using pn by (rule marked_plainNote)
  define L where "L = real (length d)"
  define A where "A = real (length a)"
  have la: "real (length (d @ a)) = L + A" by (simp add: L_def A_def)
  have key: "(min ((L + A) / 2000) 1 * 0.4 + B) * 0.7
               \<le> (min (L / 2000) 1 * 0.4 + B) * (if marked d then 0.7 else 1)"
  proof (cases "2000 \<le> length d")
    case True
    then have "2000 \<le> L" by (simp add: L_def)
    moreover have "0 \<le> A" by (simp add: A_def)
    ultimately have "min ((L + A) / 2000) 1 = 1" "min (L / 2000) 1 = 1" by (simp_all add: min_def)
    then show ?thesis using B by simp
  next
    case False
    with c have nm: "\<not> marked d" and le: "7 * length a \<le> 3 * length d" by auto
    from le have "real (7 * length a) \<le> real (3 * length d)" by (simp only: of_nat_le_iff)
    then have "7 * A \<le> 3 * L" by (simp add: L_def A_def)
    then have "(min ((L + A) / 2000) 1 * 0.4 + B) * 0.7 \<le> min (L / 2000) 1 * 0.4 + B"
      using B by (intro penalty_arith) (simp_all add: L_def A_def)
    with nm show ?thesis by simp
  qed
  have "calculateTaskConfidence (output\<lparr>to_document := d @ a\<rparr>)
          = min ((min ((L + A) / 2000) 1 * 0.4 + B) * 0.7) 1"
    using sb m la by (simp add: calculateTaskConfidence_alt)
  moreover have "calculateTaskConfidence (output\<lparr>to_document := d\<rparr>)
          = min ((min (L / 2000) 1 * 0.4 + B) * (if marked d then 0.7 else 1)) 1"
    by (simp add: calculateTaskConfidence_alt B_def L_def)
  ultimately show "calculateTaskConfidence (output\<lparr>to_document := d @ a\<rparr>)
          \<le> calculateTaskConfidence (output\<lparr>to_document := d\<rparr>)"
    using key by (simp add: min_def)
qed


text \<open>The annotations appended by the SDK helper add no structure.\<close>

lemma plainNote_simplified: "plainNote note_simplified"
  by code_simp

lemma plainNote_all:
  "plainNote note_partial \<and> plainNote note_max_turns_truncated \<and> plainNote note_execution_error
   \<and> plainNote note_cancelled \<and> plainNote note_timeout \<and> plainNote note_incomplete"
  by code_simp

lemma not_marked_filler: "\<not> marked (replicate 120 97)"
  by code_simp

theorem confidence_in_range_and_annotation_penalty_witness:
  "plainNote note_simplified
   \<and> \<not> marked (replicate 120 97) \<and> 7 * length note_simplified < 3 * length (replicate 120 (97::int))
   \<and> calculateTaskConfidence
        \<lparr>to_taskId = ascii ''overview'', to_document = replicate 120 97 @ note_simplified,
         to_metadata = Map.empty, to_references = []\<rparr>
      \<le> calculateTaskConfidence
        \<lparr>to_taskId = ascii ''overview'', to_document = replicate 120 97,
         to_metadata = Map.empty, to_references = []\<rparr>"
proof -
  have l: "7 * length note_simplified < 3 * length (replicate 120 (97::int))"
    by (simp add: note_simplified_def)
  show ?thesis
    using confidence_in_range_and_annotation_penalty
      [of "\<lparr>to_taskId = ascii ''overview'', to_document = [],
            to_metadata = Map.empty, to_references = []\<rparr>" note_simplified "replicate 120 97"]
      plainNote_simplified not_marked_filler l
    by simp
qed

text \<open>
  C9 as stated fails: a document of 120 code units that already contains the marker of
  three CJK characters scores higher with the annotation of a degraded result appended
  than without it.
\<close>

lemma cex_marked: "marked (replicate 117 97 @ mark_because) \<and> marked ((replicate 117 97 @ mark_because) @ note_simplified)"
  by code_simp

lemma cex_bonus:
  "structureBonus \<lparr>to_taskId = ascii ''overview'', to_document = replicate 117 97 @ mark_because,
         to_metadata = Map.empty, to_references = []\<rparr> = 0
   \<and> structureBonus \<lparr>to_taskId = ascii ''overview'', to_document = (replicate 117 97 @ mark_because) @ note_simplified,
         to_metadata = Map.empty, to_references = []\<rparr> = 0"
  by code_simp

theorem annotated_confidence_exceeds_live_counterexample:
  "calculateTaskConfidence
      \<lparr>to_taskId = ascii ''overview'', to_document = replicate 117 97 @ mark_because,
       to_metadata = Map.empty, to_references = []\<rparr>
   < calculateTaskConfidence
      \<lparr>to_taskId = ascii ''overview'', to_document = (replicate 117 97 @ mark_because) @ note_simplified,
       to_metadata = Map.empty, to_references = []\<rparr>"
  using cex_marked cex_bonus
  by (simp add: calculateTaskConfidence_alt mark_because_def note_simplified_def)

section \<open>The status of the result\<close>

lemma status_of_outputs:
  "kg_status (validateAndPackageResults ts outs) = (if outs = [] then StatusError else StatusSuccess)"
  by (simp add: validateAndPackageResults_def Let_def)

lemma counts_of_outputs:
  "rm_successfulTasks (kg_metadata (validateAndPackageResults ts outs)) = length outs
   \<and> rm_totalTasks (kg_metadata (validateAndPackageResults ts outs)) = 4"
  by (simp add: validateAndPackageResults_def Let_def ANALYSIS_TASKS_def)

text \<open>
  C2, as amended. The status of the result is \<open>success\<close> exactly when at least one task
  output was produced and \<open>error\<close> exactly when none was; \<open>partial\<close> is never
  returned. The result counts the outputs as successful tasks next to the four declared
  tasks.
\<close>

theorem status_is_success_or_error:
  "(kg_status (validateAndPackageResults ts outs) = StatusSuccess \<longleftrightarrow> outs \<noteq> [])
   \<and> (kg_status (validateAndPackageResults ts outs) = StatusError \<longleftrightarrow> outs = [])
   \<and> kg_status (validateAndPackageResults ts outs) \<noteq> StatusPartial
   \<and> rm_successfulTasks (kg_metadata (validateAndPackageResults ts outs)) = length outs
   \<and> rm_totalTasks (kg_metadata (validateAndPackageResults ts outs)) = 4"
  using counts_of_outputs [of ts outs] by (simp add: status_of_outputs)

text \<open>
  C2 as stated fails: when only the task \<open>overview\<close> of the four declared tasks is
  resolved, the status is \<open>success\<close>, not \<open>partial\<close>.
\<close>

lemma parse_overview_only:
  "map to_taskId (parseTaskOutputs env0 cfg0 text_overview (tlm_init world0)) = [ascii ''overview'']"
  by code_simp

theorem one_of_four_resolved_is_success_counterexample:
  "map to_taskId (parseTaskOutputs env0 cfg0 text_overview (tlm_init world0)) = [ascii ''overview'']
   \<and> length ANALYSIS_TASKS = 4
   \<and> kg_status (validateAndPackageResults (timestamp env0)
         (parseTaskOutputs env0 cfg0 text_overview (tlm_init world0))) = StatusSuccess
   \<and> kg_status (validateAndPackageResults (timestamp env0)
         (parseTaskOutputs env0 cfg0 text_overview (tlm_init world0))) \<noteq> StatusPartial"
proof -
  have "parseTaskOutputs env0 cfg0 text_overview (tlm_init world0) \<noteq> []"
    using parse_overview_only by auto
  then show ?thesis
    using parse_overview_only by (simp add: status_of_outputs ANALYSIS_TASKS_def)
qed

section \<open>The results of a run\<close>

text \<open>
  C1, as amended. In the result of every run that returns, the results array holds each
  declared task id at most once and no other id, so it has at most four entries; a
  declared task is in it exactly when the task was written live or the fallback pass
  accepted it. A task that was not resolved has no entry.
\<close>

theorem results_hold_each_resolved_task_once:
  assumes "fst (executeKnowledgeGeneration eng E cfg p w) = Inr result"
  shows "distinct (map ar_agentName (kg_results result))
     \<and> set (map ar_agentName (kg_results result)) \<subseteq> set (map t_id ANALYSIS_TASKS)
     \<and> length (kg_results result) \<le> length ANALYSIS_TASKS
     \<and> (\<exists>r s. executeUnifiedAnalysis eng E cfg p w = (Inr r, s)
           \<and> (\<forall>task \<in> set ANALYSIS_TASKS.
                 t_id task \<in> set (map ar_agentName (kg_results result))
                   \<longleftrightarrow> t_id task \<in> set (realtimeWrittenTasks s) \<or> accepted r task))"
proof -
  from assms obtain r s where u: "executeUnifiedAnalysis eng E cfg p w = (Inr r, s)"
    using run_returns_analysis by blast
  then have ok: "rw_ok s" using executeUnifiedAnalysis_rw_ok [of eng E cfg p w] by simp
  have ids: "map ar_agentName (kg_results result) = map to_taskId (parseTaskOutputs E cfg r s)"
    using u assms by (rule run_result_ids)
  have d: "distinct (map ar_agentName (kg_results result))"
    using ok by (simp add: ids parse_ids_distinct)
  have sub: "set (map ar_agentName (kg_results result)) \<subseteq> set (map t_id ANALYSIS_TASKS)"
    using parse_ids_declared [OF ok] by (simp only: ids)
  have "card (set (map ar_agentName (kg_results result))) \<le> card (set (map t_id ANALYSIS_TASKS))"
    using sub by (intro card_mono) simp_all
  then have len: "length (kg_results result) \<le> length ANALYSIS_TASKS"
    using d declared_ids_distinct distinct_card [of "map ar_agentName (kg_results result)"]
      distinct_card [of "map t_id ANALYSIS_TASKS"]
    by simp
  have mem: "\<forall>task \<in> set ANALYSIS_TASKS.
                 t_id task \<in> set (map ar_agentName (kg_results result))
                   \<longleftrightarrow> t_id task \<in> set (realtimeWrittenTasks s) \<or> accepted r task"
    using parse_ids_member [OF ok] by (simp only: ids) blast
  from d sub len u mem show ?thesis by blast
qed

text \<open>Two runs in the example environment.\<close>

lemma env0_writes: "\<not> write_fails env0 n"
  by (simp add: env0_def)

lemma overview_scans_ids:
  "map to_taskId (parseTaskOutputs env0 cfg0 text_overview
      (detectAndWriteCompletedTasks env0 cfg0 text_overview
        (detectAndWriteCompletedTasks env0 cfg0 text_overview (tlm_init world0)))) = [ascii ''overview'']"
  by code_simp

lemma plain_scans_ids:
  "map to_taskId (parseTaskOutputs env0 cfg0 text_plain
      (detectAndWriteCompletedTasks env0 cfg0 text_plain
        (detectAndWriteCompletedTasks env0 cfg0 text_plain (tlm_init world0)))) = []"
  by code_simp

lemma run_overview_result:
  "fst run_overview = Inr (projr (fst run_overview))
   \<and> map ar_agentName (kg_results (projr (fst run_overview))) = [ascii ''overview'']"
proof -
  have "100 < length text_overview" by (simp add: text_overview_def ascii_def)
  then show ?thesis
    unfolding run_overview_def
    using run_eng_returns [of text_overview env0 cfg0 "ascii ''prompt''" world0] env0_writes overview_scans_ids
    by (simp add: result_ids)
qed

lemma run_plain_result:
  "fst run_plain = Inr (projr (fst run_plain))
   \<and> kg_results (projr (fst run_plain)) = []"
proof -
  have "100 < length text_plain" by (simp add: text_plain_def)
  then have "fst run_plain = Inr (projr (fst run_plain))
    \<and> map ar_agentName (kg_results (projr (fst run_plain))) = []"
    unfolding run_plain_def
    using run_eng_returns [of text_plain env0 cfg0 "ascii ''prompt''" world0] env0_writes plain_scans_ids
    by (simp add: result_ids)
  then show ?thesis by simp
qed

theorem results_hold_each_resolved_task_once_witness:
  "fst run_overview = Inr (projr (fst run_overview))
   \<and> map ar_agentName (kg_results (projr (fst run_overview))) = [ascii ''overview'']
   \<and> distinct (map ar_agentName (kg_results (projr (fst run_overview))))
   \<and> length (kg_results (projr (fst run_overview))) \<le> length ANALYSIS_TASKS"
  using run_overview_result
    results_hold_each_resolved_task_once
      [of "eng_returns text_overview" env0 cfg0 "ascii ''prompt''" world0 "projr (fst run_overview)"]
  by (simp add: run_overview_def)

text \<open>
  C1 as stated fails: when the engine returns a text of 150 code units without markers
  or headings, the run returns a result whose results array is empty, although four
  tasks are declared.
\<close>

theorem unresolved_tasks_absent_counterexample:
  "fst run_plain = Inr (projr (fst run_plain))
   \<and> length (kg_results (projr (fst run_plain))) = 0
   \<and> length ANALYSIS_TASKS = 4"
  using run_plain_result by (simp add: ANALYSIS_TASKS_def)

section \<open>The threshold of the live scan\<close>

lemma writeTaskImmediately_outcome:
  "writeTaskImmediately E cfg task c w =
     (if write_fails E (wcount w) then (False, w\<lparr>wcount := Suc (wcount w)\<rparr>)
      else (True, w\<lparr>files := (files w)(taskFilePath cfg task \<mapsto>
                        formatDocument (timestamp E) c task (basename (repoPath cfg))),
                     writes := writes w @ [(taskFilePath cfg task,
                        formatDocument (timestamp E) c task (basename (repoPath cfg)))],
                     wcount := Suc (wcount w)\<rparr>))"
  by (simp add: writeTaskImmediately_def writeFile_def)

lemma betweenMarkers_found:
  assumes "indexOf content a = Some si" and "indexOf content b = Some ei" and "si < ei"
  shows "betweenMarkers content a b = Some (trim (substring content (si + length a) ei))"
  using assms by (simp add: betweenMarkers_def)

text \<open>One iteration of the scan, in terms of the tasks handed to persistence.\<close>

lemma writeCompleted_between:
  "writeCompleted E cfg content u s =
     (case betweenMarkers content (startMarkerOf u) (endMarkerOf u) of
        None \<Rightarrow> s
      | Some c \<Rightarrow>
          (if 100 < length c then
             (if write_fails E (wcount (fs s)) then s\<lparr>fs := (fs s)\<lparr>wcount := Suc (wcount (fs s))\<rparr>\<rparr>
              else s\<lparr>realtimeWrittenTasks := set_add (t_id u) (realtimeWrittenTasks s),
                     taskBuffer := (taskBuffer s)(t_id u := None),
                     fs := (fs s)\<lparr>files := (files (fs s))(taskFilePath cfg u \<mapsto>
                                       formatDocument (timestamp E) c u (basename (repoPath cfg))),
                                    writes := writes (fs s) @ [(taskFilePath cfg u,
                                       formatDocument (timestamp E) c u (basename (repoPath cfg)))],
                                    wcount := Suc (wcount (fs s))\<rparr>\<rparr>)
           else s))"
proof (cases "indexOf content (startMarkerOf u)")
  case None
  then show ?thesis by (simp add: writeCompleted_def betweenMarkers_def)
next
  case (Some si)
  note si = this
  show ?thesis
  proof (cases "indexOf content (endMarkerOf u)")
    case None
    with si show ?thesis by (simp add: writeCompleted_def betweenMarkers_def)
  next
    case (Some ei)
    with si show ?thesis
      by (simp add: writeCompleted_def betweenMarkers_def Let_def writeTaskImmediately_outcome)
  qed
qed

lemma detectTask_rw:
  "realtimeWrittenTasks (detectTask E cfg content u s) =
     (if handsOver content s u \<and> \<not> write_fails E (wcount (fs s))
      then realtimeWrittenTasks s @ [t_id u] else realtimeWrittenTasks s)"
proof (cases "betweenMarkers content (startMarkerOf u) (endMarkerOf u)")
  case None
  then show ?thesis
    by (simp add: detectTask_def writeCompleted_between handsOver_def noteTaskStart_same)
next
  case (Some c)
  then show ?thesis
    by (simp add: detectTask_def writeCompleted_between handsOver_def noteTaskStart_same set_add_def)
qed

lemma detectTask_fs:
  "fs (detectTask E cfg content u s) =
     (if handsOver content s u then
        (if write_fails E (wcount (fs s)) then (fs s)\<lparr>wcount := Suc (wcount (fs s))\<rparr>
         else (fs s)\<lparr>files := (files (fs s))(taskFilePath cfg u \<mapsto>
                  formatDocument (timestamp E)
                    (the (betweenMarkers content (startMarkerOf u) (endMarkerOf u))) u (basename (repoPath cfg))),
                writes := writes (fs s) @ [(taskFilePath cfg u,
                  formatDocument (timestamp E)
                    (the (betweenMarkers content (startMarkerOf u) (endMarkerOf u))) u (basename (repoPath cfg)))],
                wcount := Suc (wcount (fs s))\<rparr>)
      else fs s)"
proof (cases "betweenMarkers content (startMarkerOf u) (endMarkerOf u)")
  case None
  then show ?thesis
    by (simp add: detectTask_def writeCompleted_between handsOver_def noteTaskStart_same)
next
  case (Some c)
  then show ?thesis
    by (simp add: detectTask_def writeCompleted_between handsOver_def noteTaskStart_same)
qed

lemma handsOver_cong:
  "(t_id u \<in> set (realtimeWrittenTasks s') \<longleftrightarrow> t_id u \<in> set (realtimeWrittenTasks s))
     \<Longrightarrow> handsOver content s' u = handsOver content s u"
  by (simp add: handsOver_def)

lemma detectTask_other:
  assumes "t_id v \<noteq> t_id u"
  shows "t_id v \<in> set (realtimeWrittenTasks (detectTask E cfg content u s))
           \<longleftrightarrow> t_id v \<in> set (realtimeWrittenTasks s)"
  using assms by (simp add: detectTask_rw)

lemma detectTask_handsOver:
  assumes "t_id v \<noteq> t_id u"
  shows "handsOver content (detectTask E cfg content u s) v = handsOver content s v"
  using assms by (intro handsOver_cong detectTask_other)

lemma detectTask_wcount:
  "wcount (fs (detectTask E cfg content u s))
     = wcount (fs s) + (if handsOver content s u then 1 else 0)"
  by (simp add: detectTask_fs)

text \<open>The scan over a list of tasks with distinct ids and distinct files.\<close>

lemma scan_wcount:
  assumes "distinct (map t_id ts)"
  shows "wcount (fs (foldl (\<lambda>st task. detectTask E cfg content task st) s ts))
           = wcount (fs s) + length (filter (handsOver content s) ts)"
  using assms
proof (induction ts arbitrary: s)
  case Nil
  then show ?case by simp
next
  case (Cons u ts)
  let ?s1 = "detectTask E cfg content u s"
  have "filter (handsOver content ?s1) ts = filter (handsOver content s) ts"
  proof (rule filter_cong [OF refl])
    fix v assume "v \<in> set ts"
    then have "t_id v \<in> t_id ` set ts" by (rule imageI)
    with Cons.prems have "t_id v \<noteq> t_id u" by auto
    then show "handsOver content ?s1 v = handsOver content s v" by (rule detectTask_handsOver)
  qed
  moreover have "wcount (fs (foldl (\<lambda>st task. detectTask E cfg content task st) ?s1 ts))
      = wcount (fs ?s1) + length (filter (handsOver content ?s1) ts)"
    using Cons.prems by (intro Cons.IH) simp
  ultimately show ?case by (simp add: detectTask_wcount)
qed

lemma scan_other:
  assumes "t_id task \<notin> t_id ` set ts" and "taskFilePath cfg task \<notin> taskFilePath cfg ` set ts"
  shows "(t_id task \<in> set (realtimeWrittenTasks (foldl (\<lambda>st task. detectTask E cfg content task st) s ts))
            \<longleftrightarrow> t_id task \<in> set (realtimeWrittenTasks s))
     \<and> files (fs (foldl (\<lambda>st task. detectTask E cfg content task st) s ts)) (taskFilePath cfg task)
         = files (fs s) (taskFilePath cfg task)
     \<and> filter (\<lambda>x. fst x = taskFilePath cfg task)
           (writes (fs (foldl (\<lambda>st task. detectTask E cfg content task st) s ts)))
         = filter (\<lambda>x. fst x = taskFilePath cfg task) (writes (fs s))"
  using assms
proof (induction ts arbitrary: s)
  case Nil
  then show ?case by simp
next
  case (Cons u ts)
  let ?s1 = "detectTask E cfg content u s"
  from Cons.prems have ne: "t_id task \<noteq> t_id u" "taskFilePath cfg u \<noteq> taskFilePath cfg task" by auto
  have 1: "t_id task \<in> set (realtimeWrittenTasks ?s1) \<longleftrightarrow> t_id task \<in> set (realtimeWrittenTasks s)"
    using ne(1) by (rule detectTask_other)
  have 2: "files (fs ?s1) (taskFilePath cfg task) = files (fs s) (taskFilePath cfg task)"
    using ne(2) by (simp add: detectTask_fs)
  have 3: "filter (\<lambda>x. fst x = taskFilePath cfg task) (writes (fs ?s1))
         = filter (\<lambda>x. fst x = taskFilePath cfg task) (writes (fs s))"
    using ne(2) by (simp add: detectTask_fs)
  from Cons.prems have "t_id task \<notin> t_id ` set ts" "taskFilePath cfg task \<notin> taskFilePath cfg ` set ts"
    by auto
  from Cons.IH [OF this, of ?s1] 1 2 3 show ?case by simp
qed

lemma scan_task:
  assumes "task \<in> set ts" and "distinct (map t_id ts)" and "distinct (map (taskFilePath cfg) ts)"
    and "t_id task \<notin> set (realtimeWrittenTasks s)"
    and "n = wcount (fs s)
           + length (filter (handsOver content s) (takeWhile (\<lambda>u. t_id u \<noteq> t_id task) ts))"
    and "d = formatDocument (timestamp E)
           (the (betweenMarkers content (startMarkerOf task) (endMarkerOf task))) task (basename (repoPath cfg))"
  shows "(t_id task \<in> set (realtimeWrittenTasks (foldl (\<lambda>st task. detectTask E cfg content task st) s ts))
            \<longleftrightarrow> handsOver content s task \<and> \<not> write_fails E n)
     \<and> files (fs (foldl (\<lambda>st task. detectTask E cfg content task st) s ts)) (taskFilePath cfg task)
         = (if handsOver content s task \<and> \<not> write_fails E n then Some d
            else files (fs s) (taskFilePath cfg task))
     \<and> filter (\<lambda>x. fst x = taskFilePath cfg task)
           (writes (fs (foldl (\<lambda>st task. detectTask E cfg content task st) s ts)))
         = filter (\<lambda>x. fst x = taskFilePath cfg task) (writes (fs s))
             @ (if handsOver content s task \<and> \<not> write_fails E n then [(taskFilePath cfg task, d)] else [])"
  using assms
proof (induction ts arbitrary: s n)
  case Nil
  then show ?case by simp
next
  case (Cons u ts)
  let ?s1 = "detectTask E cfg content u s"
  show ?case
  proof (cases "u = task")
    case True
    from Cons.prems(2,3) True
    have out: "t_id task \<notin> t_id ` set ts" "taskFilePath cfg task \<notin> taskFilePath cfg ` set ts"
      by auto
    have n: "n = wcount (fs s)" using Cons.prems(5) True by simp
    have 1: "t_id task \<in> set (realtimeWrittenTasks ?s1)
               \<longleftrightarrow> handsOver content s task \<and> \<not> write_fails E n"
      using Cons.prems(4) by (simp add: True detectTask_rw n)
    have 2: "files (fs ?s1) (taskFilePath cfg task)
         = (if handsOver content s task \<and> \<not> write_fails E n then Some d
            else files (fs s) (taskFilePath cfg task))"
      by (simp add: True detectTask_fs n Cons.prems(6))
    have 3: "filter (\<lambda>x. fst x = taskFilePath cfg task) (writes (fs ?s1))
         = filter (\<lambda>x. fst x = taskFilePath cfg task) (writes (fs s))
             @ (if handsOver content s task \<and> \<not> write_fails E n then [(taskFilePath cfg task, d)] else [])"
      by (simp add: True detectTask_fs n Cons.prems(6))
    from scan_other [OF out, of E content ?s1] 1 2 3 show ?thesis by simp
  next
    case False
    with Cons.prems(1) have mem: "task \<in> set ts" by simp
    then have "t_id task \<in> t_id ` set ts" "taskFilePath cfg task \<in> taskFilePath cfg ` set ts"
      by (simp_all only: imageI)
    with Cons.prems(2,3) have ne: "t_id task \<noteq> t_id u" "taskFilePath cfg u \<noteq> taskFilePath cfg task"
      by auto
    have d1: "distinct (map t_id ts)" "distinct (map (taskFilePath cfg) ts)"
      using Cons.prems(2,3) by simp_all
    have nw: "t_id task \<notin> set (realtimeWrittenTasks ?s1)"
      using Cons.prems(4) detectTask_other [OF ne(1), of E cfg content s] by simp
    have same: "filter (handsOver content ?s1) (takeWhile (\<lambda>u. t_id u \<noteq> t_id task) ts)
        = filter (handsOver content s) (takeWhile (\<lambda>u. t_id u \<noteq> t_id task) ts)"
    proof (rule filter_cong [OF refl])
      fix v assume "v \<in> set (takeWhile (\<lambda>u. t_id u \<noteq> t_id task) ts)"
      then have "v \<in> set ts" by (rule set_takeWhileD [THEN conjunct1])
      then have "t_id v \<in> t_id ` set ts" by (rule imageI)
      with Cons.prems(2) have "t_id v \<noteq> t_id u" by auto
      then show "handsOver content ?s1 v = handsOver content s v" by (rule detectTask_handsOver)
    qed
    have n1: "n = wcount (fs ?s1)
           + length (filter (handsOver content ?s1) (takeWhile (\<lambda>u. t_id u \<noteq> t_id task) ts))"
      using Cons.prems(5) ne(1) by (simp add: same detectTask_wcount)
    have h: "handsOver content ?s1 task = handsOver content s task"
      using ne(1) by (rule detectTask_handsOver)
    have 2: "files (fs ?s1) (taskFilePath cfg task) = files (fs s) (taskFilePath cfg task)"
      using ne(2) by (simp add: detectTask_fs)
    have 3: "filter (\<lambda>x. fst x = taskFilePath cfg task) (writes (fs ?s1))
         = filter (\<lambda>x. fst x = taskFilePath cfg task) (writes (fs s))"
      using ne(2) by (simp add: detectTask_fs)
    from Cons.IH [OF mem d1 nw n1 Cons.prems(6)] h 2 3 show ?thesis by simp
  qed
qed

lemma declared_paths_distinct: "distinct (map (taskFilePath cfg) ANALYSIS_TASKS)"
  by (simp add: ANALYSIS_TASKS_def taskFilePath_def path_join_def ascii_def)

text \<open>
  C5, as amended. For a declared task that is not yet written, whose start and end
  markers are found in the content in this order, a scan of the content by
  \<open>detectAndWriteCompletedTasks\<close> hands the trimmed text between the markers to
  persistence exactly when it is longer than 100 code units (the scan attempts one write
  for every task with such a text), and gates the task as written exactly when the text
  is longer than 100 code units and that write succeeds; the file of the task then
  holds the formatted text, written once. A trimmed text of at most 100 code units,
  exactly 100 included, and likewise a write that fails, leave the task open for a
  later scan: it is not gated and its file is untouched.
\<close>

theorem live_scan_gates_long_segment_once_written:
  assumes "task \<in> set ANALYSIS_TASKS"
    and "t_id task \<notin> set (realtimeWrittenTasks s)"
    and "indexOf content (startMarkerOf task) = Some si"
    and "indexOf content (endMarkerOf task) = Some ei"
    and "si < ei"
    and "c = trim (substring content (si + length (startMarkerOf task)) ei)"
    and "d = formatDocument (timestamp E) c task (basename (repoPath cfg))"
    and "s' = detectAndWriteCompletedTasks E cfg content s"
  shows "(handsOver content s task \<longleftrightarrow> 100 < length c)
     \<and> wcount (fs s') = wcount (fs s) + length (filter (handsOver content s) ANALYSIS_TASKS)
     \<and> (t_id task \<in> set (realtimeWrittenTasks s')
           \<longleftrightarrow> 100 < length c \<and> \<not> write_fails E (attemptOf content s task))
     \<and> files (fs s') (taskFilePath cfg task)
         = (if 100 < length c \<and> \<not> write_fails E (attemptOf content s task) then Some d
            else files (fs s) (taskFilePath cfg task))
     \<and> filter (\<lambda>x. fst x = taskFilePath cfg task) (writes (fs s'))
         = filter (\<lambda>x. fst x = taskFilePath cfg task) (writes (fs s))
             @ (if 100 < length c \<and> \<not> write_fails E (attemptOf content s task)
                then [(taskFilePath cfg task, d)] else [])"
proof -
  have b: "betweenMarkers content (startMarkerOf task) (endMarkerOf task) = Some c"
    using assms(3-6) by (simp add: betweenMarkers_found)
  have h: "handsOver content s task \<longleftrightarrow> 100 < length c"
    using assms(2) b by (simp add: handsOver_def)
  have d: "d = formatDocument (timestamp E)
           (the (betweenMarkers content (startMarkerOf task) (endMarkerOf task))) task (basename (repoPath cfg))"
    using assms(7) b by simp
  have w: "wcount (fs s') = wcount (fs s) + length (filter (handsOver content s) ANALYSIS_TASKS)"
    unfolding assms(8) detectAndWriteCompletedTasks_def
    by (rule scan_wcount [OF declared_ids_distinct])
  have n: "attemptOf content s task = wcount (fs s)
           + length (filter (handsOver content s) (takeWhile (\<lambda>u. t_id u \<noteq> t_id task) ANALYSIS_TASKS))"
    by (simp add: attemptOf_def)
  note t = scan_task [OF assms(1) declared_ids_distinct declared_paths_distinct assms(2) n d,
      folded detectAndWriteCompletedTasks_def, folded assms(8)]
  from h w t show ?thesis by simp
qed

text \<open>The boundary in the example: 101 code units between the markers resolve the task,
  exactly 100 leave it open, and a later scan of the text with 101 code units resolves
  it; where every write fails, 101 code units leave it open as well.\<close>

lemma overview_markers:
  "indexOf text_overview (startMarkerOf task_overview) = Some 0
   \<and> indexOf text_overview (endMarkerOf task_overview) = Some 129
   \<and> length (trim (substring text_overview (0 + length (startMarkerOf task_overview)) 129)) = 101"
  by code_simp

lemma overview100_markers:
  "indexOf text_overview100 (startMarkerOf task_overview) = Some 0
   \<and> indexOf text_overview100 (endMarkerOf task_overview) = Some 128
   \<and> length (trim (substring text_overview100 (0 + length (startMarkerOf task_overview)) 128)) = 100"
  by code_simp

lemma overview_first:
  "task_overview \<in> set ANALYSIS_TASKS \<and> attemptOf content s task_overview = wcount (fs s)"
  by (simp add: task_overview_def ANALYSIS_TASKS_def attemptOf_def)

theorem live_scan_gates_long_segment_once_written_witness:
  "length (trim (substring text_overview (0 + length (startMarkerOf task_overview)) 129)) = 101
   \<and> t_id task_overview \<in> set (realtimeWrittenTasks
         (detectAndWriteCompletedTasks env0 cfg0 text_overview (tlm_init world0)))
   \<and> files (fs (detectAndWriteCompletedTasks env0 cfg0 text_overview (tlm_init world0)))
         (taskFilePath cfg0 task_overview)
       = Some (formatDocument (timestamp env0)
           (trim (substring text_overview (0 + length (startMarkerOf task_overview)) 129))
           task_overview (basename (repoPath cfg0)))
   \<and> length (trim (substring text_overview100 (0 + length (startMarkerOf task_overview)) 128)) = 100
   \<and> t_id task_overview \<notin> set (realtimeWrittenTasks
         (detectAndWriteCompletedTasks env0 cfg0 text_overview100 (tlm_init world0)))
   \<and> files (fs (detectAndWriteCompletedTasks env0 cfg0 text_overview100 (tlm_init world0)))
         (taskFilePath cfg0 task_overview) = None
   \<and> t_id task_overview \<in> set (realtimeWrittenTasks
         (detectAndWriteCompletedTasks env0 cfg0 text_overview
           (detectAndWriteCompletedTasks env0 cfg0 text_overview100 (tlm_init world0))))
   \<and> t_id task_overview \<notin> set (realtimeWrittenTasks
         (detectAndWriteCompletedTasks env_readonly cfg0 text_overview (tlm_init world0)))"
proof -
  have n: "t_id task_overview \<notin> set (realtimeWrittenTasks (tlm_init world0))"
    by (simp add: tlm_init_def)
  have w: "\<not> write_fails env0 k" "write_fails env_readonly k" for k
    by (simp_all add: env0_def env_readonly_def)
  have i: "files (fs (tlm_init world0)) p = None" for p
    by (simp add: tlm_init_def world0_def)
  note m = overview_markers [THEN conjunct1] overview_markers [THEN conjunct2, THEN conjunct1]
  note m100 = overview100_markers [THEN conjunct1] overview100_markers [THEN conjunct2, THEN conjunct1]
  have lt: "(0::nat) < 129" "(0::nat) < 128" by simp_all
  note a = live_scan_gates_long_segment_once_written
      [OF overview_first [THEN conjunct1] n m lt(1) refl refl refl, of env0 cfg0]
  note b = live_scan_gates_long_segment_once_written
      [OF overview_first [THEN conjunct1] n m100 lt(2) refl refl refl, of env0 cfg0]
  note c = live_scan_gates_long_segment_once_written
      [OF overview_first [THEN conjunct1] n m lt(1) refl refl refl, of env_readonly cfg0]
  from a w i overview_markers
  have 1: "t_id task_overview \<in> set (realtimeWrittenTasks
         (detectAndWriteCompletedTasks env0 cfg0 text_overview (tlm_init world0)))
     \<and> files (fs (detectAndWriteCompletedTasks env0 cfg0 text_overview (tlm_init world0)))
         (taskFilePath cfg0 task_overview)
       = Some (formatDocument (timestamp env0)
           (trim (substring text_overview (0 + length (startMarkerOf task_overview)) 129))
           task_overview (basename (repoPath cfg0)))"
    by simp
  from b w i overview100_markers
  have 2: "t_id task_overview \<notin> set (realtimeWrittenTasks
         (detectAndWriteCompletedTasks env0 cfg0 text_overview100 (tlm_init world0)))
     \<and> files (fs (detectAndWriteCompletedTasks env0 cfg0 text_overview100 (tlm_init world0)))
         (taskFilePath cfg0 task_overview) = None"
    by simp
  from 2 have n': "t_id task_overview \<notin> set (realtimeWrittenTasks
         (detectAndWriteCompletedTasks env0 cfg0 text_overview100 (tlm_init world0)))"
    by simp
  note e = live_scan_gates_long_segment_once_written
      [OF overview_first [THEN conjunct1] n' m lt(1) refl refl refl, of env0 cfg0]
  from e w overview_markers
  have 4: "t_id task_overview \<in> set (realtimeWrittenTasks
         (detectAndWriteCompletedTasks env0 cfg0 text_overview
           (detectAndWriteCompletedTasks env0 cfg0 text_overview100 (tlm_init world0))))"
    by simp
  from c w
  have 3: "t_id task_overview \<notin> set (realtimeWrittenTasks
         (detectAndWriteCompletedTasks env_readonly cfg0 text_overview (tlm_init world0)))"
    by simp
  from 1 2 3 4 overview_markers overview100_markers show ?thesis by simp
qed

text \<open>
  The claim without the condition on the write: in an environment in which every write
  fails, the 101 code units between the markers of \<open>overview\<close> are handed to persistence
  (one write is attempted) and the task is not gated as written.
\<close>

theorem failed_write_leaves_long_segment_open_counterexample:
  "indexOf text_overview (startMarkerOf task_overview) = Some 0
   \<and> indexOf text_overview (endMarkerOf task_overview) = Some 129
   \<and> length (trim (substring text_overview (0 + length (startMarkerOf task_overview)) 129)) = 101
   \<and> wcount (fs (detectAndWriteCompletedTasks env_readonly cfg0 text_overview (tlm_init world0))) = 1
   \<and> realtimeWrittenTasks (detectAndWriteCompletedTasks env_readonly cfg0 text_overview (tlm_init world0)) = []
   \<and> writes (fs (detectAndWriteCompletedTasks env_readonly cfg0 text_overview (tlm_init world0))) = []"
  by code_simp

section \<open>The order of the fallback strategies\<close>

lemma extract_firstHit:
  "extractTaskContentForFallback r u
     = firstHit [tryStandardFormat r u, tryVariantFormats r u, tryFuzzyMatching r u]"
  by (simp add: extractTaskContentForFallback_def firstHit_def Let_def)

lemma firstLong_long: "firstLong ms = Some c \<Longrightarrow> 100 < length c"
  by (induction ms) (auto split: option.splits if_splits)

lemma tryFuzzyMatching_long: "tryFuzzyMatching r u = Some c \<Longrightarrow> 100 < length c"
  unfolding tryFuzzyMatching_def by (rule firstLong_long)

lemma betweenMarkers_lacking:
  "indexOf r a = None \<or> indexOf r b = None \<Longrightarrow> betweenMarkers r a b = None"
  by (auto simp: betweenMarkers_def split: option.splits)

lemma firstBetween_lacking:
  "list_all (\<lambda>(a, b). indexOf r a = None \<or> indexOf r b = None) vs \<Longrightarrow> firstBetween r vs = None"
  by (induction vs) (auto simp: betweenMarkers_lacking)

text \<open>The outputs of one task among the outputs of \<open>parseTaskOutputs\<close>.\<close>

lemma filter_concat_none:
  assumes "\<And>v out. out \<in> set (g v) \<Longrightarrow> to_taskId out = t_id v"
    and "t_id u \<notin> t_id ` set ts"
  shows "filter (\<lambda>out. to_taskId out = t_id u) (concat (map g ts)) = []"
  using assms(2)
proof (induction ts)
  case Nil
  then show ?case by simp
next
  case (Cons v ts)
  then have "t_id v \<noteq> t_id u" by auto
  with assms(1) have "filter (\<lambda>out. to_taskId out = t_id u) (g v) = []"
    by (auto simp: filter_empty_conv)
  with Cons show ?case by simp
qed

lemma filter_concat_one:
  assumes "\<And>v out. out \<in> set (g v) \<Longrightarrow> to_taskId out = t_id v"
    and "distinct (map t_id ts)" and "u \<in> set ts"
  shows "filter (\<lambda>out. to_taskId out = t_id u) (concat (map g ts)) = g u"
  using assms(2,3)
proof (induction ts)
  case Nil
  then show ?case by simp
next
  case (Cons v ts)
  show ?case
  proof (cases "v = u")
    case True
    with Cons.prems have "t_id u \<notin> t_id ` set ts" by simp
    then have "filter (\<lambda>out. to_taskId out = t_id u) (concat (map g ts)) = []"
      using assms(1) by (intro filter_concat_none [where g = g]) simp_all
    moreover have "filter (\<lambda>out. to_taskId out = t_id u) (g u) = g u"
      using assms(1) by (simp add: filter_id_conv)
    ultimately show ?thesis using True by simp
  next
    case False
    with Cons.prems have mem: "u \<in> set ts" by simp
    then have "t_id u \<in> t_id ` set ts" by (rule imageI)
    with Cons.prems have "t_id v \<noteq> t_id u" by auto
    with assms(1) have "filter (\<lambda>out. to_taskId out = t_id u) (g v) = []"
      by (auto simp: filter_empty_conv)
    moreover have "filter (\<lambda>out. to_taskId out = t_id u) (concat (map g ts)) = g u"
      using Cons.prems mem by (intro Cons.IH) simp_all
    ultimately show ?thesis by simp
  qed
qed

lemma realtime_none:
  assumes "rw_ok s" and "t_id u \<notin> set (realtimeWrittenTasks s)"
  shows "filter (\<lambda>out. to_taskId out = t_id u)
           (concat (map (\<lambda>taskId.
              case find (\<lambda>t. t_id t = taskId) ANALYSIS_TASKS of
                Some task \<Rightarrow> [realtimeOutput E cfg (fs s) task]
              | None \<Rightarrow> []) (realtimeWrittenTasks s))) = []"
proof -
  let ?xs = "concat (map (\<lambda>taskId.
              case find (\<lambda>t. t_id t = taskId) ANALYSIS_TASKS of
                Some task \<Rightarrow> [realtimeOutput E cfg (fs s) task]
              | None \<Rightarrow> []) (realtimeWrittenTasks s))"
  have ids: "map to_taskId ?xs = realtimeWrittenTasks s"
    using assms(1) by (intro realtime_ids) (simp add: rw_ok_def)
  have "to_taskId out \<noteq> t_id u" if "out \<in> set ?xs" for out
  proof -
    from that have "to_taskId out \<in> set (map to_taskId ?xs)" by (simp only: set_map imageI)
    with ids assms(2) show ?thesis by auto
  qed
  then show ?thesis by (simp only: filter_empty_conv) blast
qed

lemma parse_task_outputs_of:
  assumes "rw_ok s" and "u \<in> set ANALYSIS_TASKS" and "t_id u \<notin> set (realtimeWrittenTasks s)"
  shows "filter (\<lambda>out. to_taskId out = t_id u) (parseTaskOutputs E cfg r s)
     = (case extractTaskContentForFallback r u of
          Some c \<Rightarrow> if 100 < length c then [fallbackOutput E cfg u c] else []
        | None \<Rightarrow> [])"
proof -
  let ?g = "\<lambda>task. case extractTaskContentForFallback r task of
              Some taskContent \<Rightarrow>
                (if taskContent \<noteq> [] \<and> length taskContent > 100
                 then [fallbackOutput E cfg task taskContent] else [])
            | None \<Rightarrow> []"
  let ?ts = "filter (\<lambda>task. t_id task \<notin> set (realtimeWrittenTasks s)) ANALYSIS_TASKS"
  have g: "to_taskId out = t_id v" if "out \<in> set (?g v)" for v out
    using that by (auto simp: fallbackOutput_def Let_def split: option.splits if_splits)
  have d: "distinct (map t_id ?ts)"
    using declared_ids_distinct by (simp add: distinct_map_filter)
  have m: "u \<in> set ?ts" using assms(2,3) by simp
  have "filter (\<lambda>out. to_taskId out = t_id u) (concat (map ?g ?ts)) = ?g u"
    using g d m by (rule filter_concat_one)
  moreover have "?g u = (case extractTaskContentForFallback r u of
          Some c \<Rightarrow> if 100 < length c then [fallbackOutput E cfg u c] else []
        | None \<Rightarrow> [])"
    by (auto split: option.splits)
  ultimately show ?thesis
    using realtime_none [OF assms(1,3), of E cfg]
    by (simp add: parseTaskOutputs_def Let_def)
qed

lemma run_returns:
  assumes "\<And>n. \<not> write_fails E n" and "executeUnifiedAnalysis eng E cfg p w = (Inr r, s)"
  shows "fst (executeKnowledgeGeneration eng E cfg p w)
     = Inr (validateAndPackageResults (timestamp E) (parseTaskOutputs E cfg r s))"
proof -
  let ?res = "validateAndPackageResults (timestamp E) (parseTaskOutputs E cfg r s)"
  obtain ok w' where u: "updateKnowledgeBase E cfg ?res (fs s) = (ok, w')"
    by (cases "updateKnowledgeBase E cfg ?res (fs s)")
  with updateKnowledgeBase_ok [OF assms(1), of cfg ?res "fs s"] have "ok = True" by simp
  with u show ?thesis
    by (simp add: executeKnowledgeGeneration_def assms(2) Let_def)
qed

text \<open>
  C8, as amended. For every declared task that was not written live, the fallback pass
  takes the result of the first strategy, in the order exact markers, marker variants,
  headings, whose result is neither \<open>null\<close> nor the empty string; a strategy whose
  markers are found around white space only counts as failed and the next one is tried.
  Exact markers around a text that is not blank win whatever the later strategies find.
  The task gets one output, built from that result (the formatted document, the
  metadata with \<open>fallbackParsed\<close> and the references), when the result is longer than
  100 code units, and no output otherwise. A text in which a marker of the exact pair and
  of every variant pair is lacking resolves the task by the headings, or not at all. A
  task for which no strategy has a hit gets no output and no mark of any kind, and the
  run goes on: when the analysis has returned and no write fails, the run returns a
  result whose entries are the outputs of the pass.
\<close>

theorem fallback_takes_first_nonempty_strategy:
  assumes "rw_ok s" and "u \<in> set ANALYSIS_TASKS" and "t_id u \<notin> set (realtimeWrittenTasks s)"
    and "entry = (\<lambda>c. \<lparr>to_taskId = t_id u,
           to_document = formatDocument (timestamp E) c u (basename (repoPath cfg)),
           to_metadata =
             [ascii ''taskName'' \<mapsto> VStr (t_name u),
              ascii ''outputFile'' \<mapsto> VStr (t_outputFile u),
              ascii ''fallbackParsed'' \<mapsto> VBool True] ++ sd_metadata (extractStructuredData E c),
           to_references = sd_references (extractStructuredData E c)\<rparr>)"
  shows "extractTaskContentForFallback r u
       = firstHit [tryStandardFormat r u, tryVariantFormats r u, tryFuzzyMatching r u]
     \<and> (indexOf r (startMarkerOf u) = Some si \<and> indexOf r (endMarkerOf u) = Some ei \<and> si < ei
          \<and> trim (substring r (si + length (startMarkerOf u)) ei) \<noteq> [] \<longrightarrow>
        extractTaskContentForFallback r u
          = Some (trim (substring r (si + length (startMarkerOf u)) ei)))
     \<and> filter (\<lambda>out. to_taskId out = t_id u) (parseTaskOutputs E cfg r s)
       = (case firstHit [tryStandardFormat r u, tryVariantFormats r u, tryFuzzyMatching r u] of
            Some c \<Rightarrow> if 100 < length c then [entry c] else []
          | None \<Rightarrow> [])
     \<and> (list_all (\<lambda>(a, b). indexOf r a = None \<or> indexOf r b = None)
            ((startMarkerOf u, endMarkerOf u) # variants u) \<longrightarrow>
        filter (\<lambda>out. to_taskId out = t_id u) (parseTaskOutputs E cfg r s)
          = (case tryFuzzyMatching r u of Some c \<Rightarrow> [entry c] | None \<Rightarrow> []))
     \<and> ((\<forall>n. \<not> write_fails E n) \<and> executeUnifiedAnalysis eng E cfg p w = (Inr r, s) \<longrightarrow>
        (\<exists>result. fst (executeKnowledgeGeneration eng E cfg p w) = Inr result
           \<and> map ar_agentName (kg_results result) = map to_taskId (parseTaskOutputs E cfg r s)))"
proof -
  let ?hit = "firstHit [tryStandardFormat r u, tryVariantFormats r u, tryFuzzyMatching r u]"
  have e: "fallbackOutput E cfg u c = entry c" for c
    by (simp add: fallbackOutput_def Let_def assms(4))
  have 1: "extractTaskContentForFallback r u = ?hit"
    by (rule extract_firstHit)
  have 2: "extractTaskContentForFallback r u
          = Some (trim (substring r (si + length (startMarkerOf u)) ei))"
    if "indexOf r (startMarkerOf u) = Some si \<and> indexOf r (endMarkerOf u) = Some ei \<and> si < ei
          \<and> trim (substring r (si + length (startMarkerOf u)) ei) \<noteq> []"
    using that
    by (simp add: extractTaskContentForFallback_def tryStandardFormat_def betweenMarkers_def
        truthyStr_def Let_def)
  have 3: "filter (\<lambda>out. to_taskId out = t_id u) (parseTaskOutputs E cfg r s)
       = (case ?hit of Some c \<Rightarrow> if 100 < length c then [entry c] else [] | None \<Rightarrow> [])"
    using parse_task_outputs_of [OF assms(1-3), of E cfg r] by (simp add: 1 e split: option.splits)
  have 4: "filter (\<lambda>out. to_taskId out = t_id u) (parseTaskOutputs E cfg r s)
          = (case tryFuzzyMatching r u of Some c \<Rightarrow> [entry c] | None \<Rightarrow> [])"
    if l: "list_all (\<lambda>(a, b). indexOf r a = None \<or> indexOf r b = None)
            ((startMarkerOf u, endMarkerOf u) # variants u)"
  proof -
    from l have "tryStandardFormat r u = None"
      by (simp add: tryStandardFormat_def betweenMarkers_lacking)
    moreover from l have "tryVariantFormats r u = None"
      by (simp add: tryVariantFormats_def firstBetween_lacking)
    ultimately have h: "?hit = (if truthyStr (tryFuzzyMatching r u) then tryFuzzyMatching r u else None)"
      by (simp add: firstHit_def truthyStr_def)
    show ?thesis
    proof (cases "tryFuzzyMatching r u")
      case None
      with h 3 show ?thesis by (simp add: truthyStr_def)
    next
      case (Some c)
      then have "100 < length c" by (rule tryFuzzyMatching_long)
      with h 3 Some show ?thesis by (auto simp: truthyStr_def)
    qed
  qed
  have 5: "\<exists>result. fst (executeKnowledgeGeneration eng E cfg p w) = Inr result
           \<and> map ar_agentName (kg_results result) = map to_taskId (parseTaskOutputs E cfg r s)"
    if "(\<forall>n. \<not> write_fails E n) \<and> executeUnifiedAnalysis eng E cfg p w = (Inr r, s)"
  proof -
    from that have "fst (executeKnowledgeGeneration eng E cfg p w)
       = Inr (validateAndPackageResults (timestamp E) (parseTaskOutputs E cfg r s))"
      by (intro run_returns) simp_all
    then show ?thesis by (simp add: result_ids)
  qed
  from 1 2 3 4 5 show ?thesis by blast
qed

text \<open>The examples: exact markers resolve \<open>overview\<close> by the first strategy; the
  markers with two equals signs by the second; a text without markers in which the name
  of \<open>overview\<close> is a heading by the third, while the second task has no hit and no
  output, and the run on this text returns a result with the one entry.\<close>

lemma heading_strategies:
  "tryStandardFormat text_heading task_overview = None
   \<and> tryVariantFormats text_heading task_overview = None
   \<and> tryFuzzyMatching text_heading task_overview = Some (replicate 101 97)"
  by code_simp

lemma heading_lacks_markers:
  "list_all (\<lambda>(a, b). indexOf text_heading a = None \<or> indexOf text_heading b = None)
     ((startMarkerOf task_overview, endMarkerOf task_overview) # variants task_overview)"
  by code_simp

lemma heading_other_task:
  "tryStandardFormat text_heading task_architecture = None
   \<and> tryVariantFormats text_heading task_architecture = None
   \<and> tryFuzzyMatching text_heading task_architecture = None"
  by code_simp

lemma heading_no_start_marker:
  "list_all (\<lambda>t. indexOf text_heading (startMarkerOf t) = None) ANALYSIS_TASKS"
  by code_simp

lemma heading_scan: "detectAndWriteCompletedTasks E cfg text_heading s = s"
proof -
  have "detectTask E cfg text_heading t s' = s'" if "t \<in> set ANALYSIS_TASKS" for t s'
  proof -
    from that heading_no_start_marker have "indexOf text_heading (startMarkerOf t) = None"
      by (simp add: list_all_iff)
    then show ?thesis
      by (simp add: detectTask_def noteTaskStart_def writeCompleted_def)
  qed
  then have "foldl (\<lambda>st task. detectTask E cfg text_heading task st) s ts = s"
    if "set ts \<subseteq> set ANALYSIS_TASKS" for ts
    using that by (induction ts) simp_all
  then show ?thesis by (simp add: detectAndWriteCompletedTasks_def)
qed

lemma heading_analysis:
  "executeUnifiedAnalysis (eng_returns text_heading) env0 cfg0 (ascii ''prompt'') world0
     = (Inr text_heading, tlm_init world0)"
proof -
  have "100 < length text_heading" by (simp add: text_heading_def)
  then show ?thesis by (simp add: executeUnifiedAnalysis_eng_returns heading_scan)
qed

lemma heading_ids:
  "map to_taskId (parseTaskOutputs env0 cfg0 text_heading (tlm_init world0)) = [ascii ''overview'']"
  by code_simp

lemma example_tasks_declared:
  "task_overview \<in> set ANALYSIS_TASKS \<and> task_architecture \<in> set ANALYSIS_TASKS"
  by (simp add: task_overview_def task_architecture_def ANALYSIS_TASKS_def)

lemma exact_and_variant_strategies:
  "indexOf text_overview (startMarkerOf task_overview) = Some 0
   \<and> indexOf text_overview (endMarkerOf task_overview) = Some 129
   \<and> trim (substring text_overview (0 + length (startMarkerOf task_overview)) 129) = replicate 101 97
   \<and> tryStandardFormat text_variant task_overview = None
   \<and> tryVariantFormats text_variant task_overview = Some (replicate 101 97)"
  by code_simp

theorem fallback_takes_first_nonempty_strategy_witness:
  "extractTaskContentForFallback text_overview task_overview = Some (replicate 101 97)
   \<and> tryStandardFormat text_variant task_overview = None
   \<and> extractTaskContentForFallback text_variant task_overview = Some (replicate 101 97)
   \<and> tryStandardFormat text_heading task_overview = None
   \<and> tryVariantFormats text_heading task_overview = None
   \<and> extractTaskContentForFallback text_heading task_overview = Some (replicate 101 97)
   \<and> map to_document (filter (\<lambda>out. to_taskId out = t_id task_overview)
         (parseTaskOutputs env0 cfg0 text_heading (tlm_init world0)))
       = [formatDocument (timestamp env0) (replicate 101 97) task_overview (basename (repoPath cfg0))]
   \<and> extractTaskContentForFallback text_heading task_architecture = None
   \<and> filter (\<lambda>out. to_taskId out = t_id task_architecture)
         (parseTaskOutputs env0 cfg0 text_heading (tlm_init world0)) = []
   \<and> (\<exists>result. fst (executeKnowledgeGeneration (eng_returns text_heading) env0 cfg0
                        (ascii ''prompt'') world0) = Inr result
         \<and> map ar_agentName (kg_results result) = [ascii ''overview''])"
proof -
  have n: "t_id task_overview \<notin> set (realtimeWrittenTasks (tlm_init world0))"
      "t_id task_architecture \<notin> set (realtimeWrittenTasks (tlm_init world0))"
    by (simp_all add: tlm_init_def)
  note ok = tlm_init_rw_ok [of world0]
  note d = example_tasks_declared [THEN conjunct1] example_tasks_declared [THEN conjunct2]
  note a = fallback_takes_first_nonempty_strategy
      [OF ok d(1) n(1) refl, of text_overview 0 129 env0 cfg0]
  note b = fallback_takes_first_nonempty_strategy
      [OF ok d(1) n(1) refl, of text_variant _ _ env0 cfg0]
  note c = fallback_takes_first_nonempty_strategy
      [OF ok d(1) n(1) refl, of text_heading _ _ env0 cfg0
         "eng_returns text_heading" "ascii ''prompt''" world0]
  note e = fallback_takes_first_nonempty_strategy
      [OF ok d(2) n(2) refl, of text_heading _ _ env0 cfg0]
  have 1: "extractTaskContentForFallback text_overview task_overview = Some (replicate 101 97)"
    using a [THEN conjunct2, THEN conjunct1] exact_and_variant_strategies by simp
  have 2: "extractTaskContentForFallback text_variant task_overview = Some (replicate 101 97)"
    using b [THEN conjunct1] exact_and_variant_strategies by (simp add: firstHit_def truthyStr_def)
  have 3: "extractTaskContentForFallback text_heading task_overview = Some (replicate 101 97)"
    using c [THEN conjunct1] heading_strategies by (simp add: firstHit_def truthyStr_def)
  have 4: "map to_document (filter (\<lambda>out. to_taskId out = t_id task_overview)
         (parseTaskOutputs env0 cfg0 text_heading (tlm_init world0)))
       = [formatDocument (timestamp env0) (replicate 101 97) task_overview (basename (repoPath cfg0))]"
    using c [THEN conjunct2, THEN conjunct2, THEN conjunct2, THEN conjunct1]
      heading_lacks_markers heading_strategies by simp
  have 5: "extractTaskContentForFallback text_heading task_architecture = None"
    using e [THEN conjunct1] heading_other_task by (simp add: firstHit_def truthyStr_def)
  have 6: "filter (\<lambda>out. to_taskId out = t_id task_architecture)
         (parseTaskOutputs env0 cfg0 text_heading (tlm_init world0)) = []"
    using e [THEN conjunct2, THEN conjunct2, THEN conjunct1] heading_other_task
    by (simp add: firstHit_def truthyStr_def)
  have 7: "\<exists>result. fst (executeKnowledgeGeneration (eng_returns text_heading) env0 cfg0
                        (ascii ''prompt'') world0) = Inr result
         \<and> map ar_agentName (kg_results result) = [ascii ''overview'']"
    using c [THEN conjunct2, THEN conjunct2, THEN conjunct2, THEN conjunct2]
      heading_analysis heading_ids by (simp add: env0_def)
  from 1 2 3 4 5 6 7 heading_strategies exact_and_variant_strategies show ?thesis by simp
qed

text \<open>
  The claim with a match read as markers found: in the example the exact markers of
  \<open>overview\<close> are found, around a single space, so the first strategy matches with the
  empty string; the extraction nevertheless returns the 101 code units found by the
  second strategy, and the task is resolved with them.
\<close>

theorem blank_exact_match_yields_to_variant_counterexample:
  "tryStandardFormat text_blank task_overview = Some []
   \<and> tryVariantFormats text_blank task_overview = Some (replicate 101 97)
   \<and> extractTaskContentForFallback text_blank task_overview = Some (replicate 101 97)
   \<and> realtimeWrittenTasks (detectAndWriteCompletedTasks env0 cfg0 text_blank (tlm_init world0)) = []
   \<and> map to_taskId (parseTaskOutputs env0 cfg0 text_blank
        (detectAndWriteCompletedTasks env0 cfg0 text_blank (tlm_init world0))) = [ascii ''overview'']"
  by code_simp

section \<open>Salvage of buffered text by \<open>runQuery\<close>\<close>

lemma onStreamEvent_text:
  "partialContent (onStreamEvent sid ptid (ContentBlockDelta (TextDelta t)) st) = partialContent st @ t
   \<and> lastValidContent (onStreamEvent sid ptid (ContentBlockDelta (TextDelta t)) st)
       = (if 200 < length (partialContent st @ t) then partialContent st @ t else lastValidContent st)"
  by (simp add: onStreamEvent_def Let_def isToolUse_def split: option.splits)

lemma onStreamEvent_other:
  assumes "\<And>t. ev \<noteq> ContentBlockDelta (TextDelta t)"
  shows "partialContent (onStreamEvent sid ptid ev st) = partialContent st
   \<and> lastValidContent (onStreamEvent sid ptid ev st) = lastValidContent st"
proof (cases ev)
  case (ContentBlockDelta d)
  with assms obtain "d = OtherDelta" by (cases d) auto
  with ContentBlockDelta show ?thesis
    by (simp add: onStreamEvent_def Let_def isToolUse_def split: option.splits)
qed (simp_all add: onStreamEvent_def Let_def isToolUse_def blockOf_def split: option.splits)

lemma rq_step_content:
  "partialContent (rq_step st m) = partialContent st @ textOf m
   \<and> (rq_ok st \<longrightarrow> rq_ok (rq_step st m))"
proof (cases m)
  case (StreamEvent sid ptid ev)
  show ?thesis
  proof (cases "\<exists>t. ev = ContentBlockDelta (TextDelta t)")
    case True
    then obtain t where "ev = ContentBlockDelta (TextDelta t)" by blast
    with StreamEvent show ?thesis
      using onStreamEvent_text [of sid ptid t st] by (auto simp: rq_ok_def)
  next
    case False
    then have o: "\<And>t. ev \<noteq> ContentBlockDelta (TextDelta t)" by blast
    have "textOf (StreamEvent sid ptid ev) = []"
      using o by (cases ev) (auto, metis delta.exhaust textOf.simps)
    with StreamEvent onStreamEvent_other [OF o, of sid ptid st] show ?thesis
      by (simp add: rq_ok_def)
  qed
qed simp_all

lemma foldl_rq_step:
  "partialContent (foldl rq_step st msgs) = partialContent st @ buffered msgs
   \<and> (rq_ok st \<longrightarrow> rq_ok (foldl rq_step st msgs))"
proof (induction msgs arbitrary: st)
  case Nil
  then show ?case by (simp add: buffered_def)
next
  case (Cons m msgs)
  show ?case
    using Cons [of "rq_step st m"] rq_step_content [of st m]
    by (simp add: buffered_def)
qed

lemma runQueryLoop_prefix:
  "noResult pre \<Longrightarrow>
     runQueryLoop options (pre @ rest) fin st = runQueryLoop options rest fin (foldl rq_step st pre)"
proof (induction pre arbitrary: st)
  case Nil
  then show ?case by simp
next
  case (Cons m pre)
  then show ?case by (cases m) (simp_all add: noResult_def)
qed

lemma after_prefix:
  assumes "noResult pre"
  shows "lastValidContent (foldl rq_step rq_init pre)
           = (if 200 < length (buffered pre) then buffered pre else [])"
proof -
  have "rq_ok rq_init" by (simp add: rq_ok_def rq_init_def)
  then have "rq_ok (foldl rq_step rq_init pre)"
    and "partialContent (foldl rq_step rq_init pre) = buffered pre"
    using foldl_rq_step [of rq_init pre] by (simp_all add: rq_init_def)
  then show ?thesis by (simp add: rq_ok_def)
qed

text \<open>
  C3, as amended. Let a call stream messages that buffer a text and then end. When
  partial results are enabled and more than 200 code units are buffered, \<open>runQuery\<close>
  returns the buffered text with a truncation annotation after an execution error, a
  cancellation, any other error subtype, an abort, or a stream that ends without a
  result; after a turn-limit result it does so only for a fallback query. In every
  other case (partial results disabled, or at most 200 code units buffered) it throws.
\<close>

theorem salvage_needs_more_than_200_buffered:
  assumes "noResult pre"
  shows "fst (runQuery options (pre @ Result sub # rest) fin) =
      (case sub of
         Success result \<Rightarrow> Inr result
       | ErrorMaxTurns \<Rightarrow>
           (if 200 < length (buffered pre) \<and> qo_includePartialMessages options
               \<and> qo_isFallbackQuery options
            then Inr (buffered pre @ note_max_turns_truncated)
            else Inl (throwError err_max_turns))
       | ErrorDuringExecution \<Rightarrow>
           (if 200 < length (buffered pre) \<and> qo_includePartialMessages options
            then Inr (buffered pre @ note_execution_error)
            else Inl (throwError err_during_execution))
       | Cancelled \<Rightarrow>
           (if 200 < length (buffered pre) \<and> qo_includePartialMessages options
            then Inr (buffered pre @ note_cancelled)
            else Inl (throwError err_cancelled))
       | OtherSubtype name \<Rightarrow>
           (if 200 < length (buffered pre) \<and> qo_includePartialMessages options
            then Inr (buffered pre @ note_error_open @ name @ note_error_close)
            else Inl (throwError (err_query_prefix @ name))))
    \<and> fst (runQuery options pre (Thrown e)) =
         (if err_name e = ascii ''AbortError'' \<and> 200 < length (buffered pre)
             \<and> qo_includePartialMessages options
          then Inr (buffered pre @ note_timeout) else Inl e)
    \<and> fst (runQuery options pre EndOfStream) =
         (if 200 < length (buffered pre) \<and> qo_includePartialMessages options
          then Inr (buffered pre @ note_incomplete) else Inl (throwError err_no_response))"
proof -
  let ?st = "foldl rq_step rq_init pre"
  have lv: "lastValidContent ?st = (if 200 < length (buffered pre) then buffered pre else [])"
    using assms by (rule after_prefix)
  have ne: "200 < length (buffered pre) \<Longrightarrow> buffered pre \<noteq> []" by auto
  have 1: "runQueryLoop options (pre @ Result sub # rest) fin rq_init = (onResult options sub ?st, ?st)"
    using runQueryLoop_prefix [OF assms, of options "Result sub # rest" fin rq_init] by simp
  have 2: "runQueryLoop options pre fin' rq_init = runQueryLoop options [] fin' ?st" for fin'
    using runQueryLoop_prefix [OF assms, of options "[]" fin' rq_init] by simp
  have a: "fst (runQuery options (pre @ Result sub # rest) fin) = onResult options sub ?st"
    by (simp add: runQuery_def 1)
  have b: "fst (runQuery options pre (Thrown e)) = catchClause options e ?st"
    by (simp add: runQuery_def 2)
  have c: "fst (runQuery options pre EndOfStream) =
      (if lastValidContent ?st \<noteq> [] \<and> qo_includePartialMessages options
       then Inr (lastValidContent ?st @ note_incomplete) else Inl (throwError err_no_response))"
    by (simp add: runQuery_def 2)
  show ?thesis
    unfolding a b c
    using ne error_not_abort
    by (cases sub) (auto simp: onResult_def catchClause_def throwError_def lv)
qed

text \<open>The example of the specification: a cancellation with 300 buffered code units and
  partial results enabled returns the buffered text with the annotation.\<close>

lemma delta_buffers: "noResult [text_delta t] \<and> buffered [text_delta t] = t"
  by (simp add: noResult_def buffered_def text_delta_def)

theorem salvage_needs_more_than_200_buffered_witness:
  "noResult [text_delta (replicate 300 97)]
   \<and> length (buffered [text_delta (replicate 300 97)]) = 300
   \<and> qo_includePartialMessages options_partial
   \<and> fst (runQuery options_partial ([text_delta (replicate 300 97)] @ [Result Cancelled]) EndOfStream)
        = Inr (replicate 300 97 @ note_cancelled)"
  using salvage_needs_more_than_200_buffered
      [of "[text_delta (replicate 300 97)]" options_partial Cancelled "[]" EndOfStream]
    delta_buffers [of "replicate 300 97"]
  by (simp add: options_partial_def)

text \<open>
  C3 as stated fails: with partial results enabled and 100 code units buffered (at least
  50), a cancellation makes \<open>runQuery\<close> throw.
\<close>

theorem cancelled_with_100_buffered_throws_counterexample:
  "50 \<le> length (buffered [text_delta (replicate 100 97)])
   \<and> qo_includePartialMessages options_partial
   \<and> fst (runQuery options_partial [text_delta (replicate 100 97), Result Cancelled] EndOfStream)
        = Inl (throwError err_cancelled)"
proof -
  have "fst (runQuery options_partial [text_delta (replicate 100 97), Result Cancelled] EndOfStream)
        = Inl (throwError err_cancelled)"
    using error_not_abort
    by (simp add: options_partial_def runQuery_def text_delta_def onStreamEvent_def
        onResult_def catchClause_def throwError_def rq_init_def isToolUse_def Let_def)
  then show ?thesis
    using delta_buffers [of "replicate 100 97"] by (simp add: options_partial_def)
qed

section \<open>Exhausting the attempts\<close>

text \<open>
  C7, as amended. Suppose that the configured number of attempts is positive, that no
  normal call yields more than 100 code units, and that no degraded call and no salvage
  call yields more than 50. Then \<open>executeAnalysis\<close> makes every attempt, awaits the
  linearly growing delay between attempts, and fails with the error whose message is the
  prefix for a failed analysis followed by the message of the error of the last attempt.
  (A degraded or salvaged result of more than 50 code units is returned, also when it is
  shorter than 100.)
\<close>

theorem exhausted_attempts_fail_with_last_error:
  assumes "0 < c_retryAttempts (mergeConfig config)"
    and "\<And>n options. \<not> qo_isFallbackQuery options \<Longrightarrow> atMost 100 (outcomeOf eng n p options)"
    and "\<And>n options. atMost 50 (outcomeOf eng n (createSimplifiedPrompt p) options)"
    and "\<And>n options. qo_isFallbackQuery options \<Longrightarrow> atMost 50 (outcomeOf eng n p options)"
  shows "fst (executeAnalysis eng p sp config)
           = Inl (throwError (err_failed_prefix
                   @ err_message (last (failures (snd (executeAnalysis eng p sp config))))))
     \<and> length (failures (snd (executeAnalysis eng p sp config))) = c_retryAttempts (mergeConfig config)
     \<and> delays (snd (executeAnalysis eng p sp config))
         = map (\<lambda>i. c_retryDelay (mergeConfig config) * real i) [1..<c_retryAttempts (mergeConfig config)]"
proof -
  let ?c = "mergeConfig config"
  from assms(1) obtain k where k: "c_retryAttempts ?c = Suc k"
    by (cases "c_retryAttempts ?c") auto
  then have "1 + k = c_retryAttempts ?c" by simp
  from attemptLoop_exhausts [OF assms(2-4) this, of sp sdk_init]
  obtain st' where
    "attemptLoop eng p sp ?c (Suc k) 1 sdk_init
       = (Inl (throwError (err_failed_prefix @ err_message (last (failures st')))), st')"
    "length (failures st') = length (failures sdk_init) + Suc k"
    "delays st' = delays sdk_init @ map (\<lambda>i. c_retryDelay ?c * real i) [1..<1 + k]"
    by blast
  then show ?thesis
    using k by (simp add: executeAnalysis_def Let_def sdk_init_def)
qed

text \<open>The example: an engine that answers every call with the turn-limit result, under
  the default configuration of three attempts.\<close>

lemma eng_limit_outcome: "outcomeOf eng_limit n p options = Inl (throwError err_max_turns)"
  using error_not_abort
  by (simp add: outcomeOf_def eng_limit_def runQuery_def onResult_def catchClause_def
      throwError_def rq_init_def)

lemma eng_limit_failures:
  "set (failures (snd (attemptLoop eng_limit p sp c k a st)))
     \<subseteq> set (failures st) \<union> {throwError err_max_turns}"
proof (induction k arbitrary: a st)
  case 0
  then show ?case by auto
next
  case (Suc k)
  obtain r st1 where t: "tryAttempt eng_limit p sp c a st = (r, st1)"
    by (cases "tryAttempt eng_limit p sp c a st")
  with tryAttempt_outcome [of eng_limit p sp c a st]
  have r: "r = Inl (throwError err_max_turns)" and f1: "failures st1 = failures st"
    by (simp_all add: eng_limit_outcome)
  obtain sv st2 where rc: "recover eng_limit p sp c a (throwError err_max_turns) st1 = (sv, st2)"
    by (cases "recover eng_limit p sp c a (throwError err_max_turns) st1")
  with recover_logs [of eng_limit p sp c a "throwError err_max_turns" st1] f1
  have f2: "failures st2 = failures st @ [throwError err_max_turns]" by simp
  show ?case
    using t r rc f2 Suc.IH [of "Suc a" "st2\<lparr>delays := delays st2 @ [c_retryDelay c * real a]\<rparr>"]
    by (cases sv) (auto simp del: attemptLoop.simps simp add: attemptLoop.simps(2) [of _ _ _ _ k a st])
qed

theorem exhausted_attempts_fail_with_last_error_witness:
  "fst (executeAnalysis eng_limit (ascii ''prompt'') (ascii ''system'') None)
     = Inl (throwError (err_failed_prefix @ err_max_turns))
   \<and> length (failures (snd (executeAnalysis eng_limit (ascii ''prompt'') (ascii ''system'') None))) = 3
   \<and> delays (snd (executeAnalysis eng_limit (ascii ''prompt'') (ascii ''system'') None)) = [1000, 2000]"
proof -
  let ?run = "executeAnalysis eng_limit (ascii ''prompt'') (ascii ''system'') None"
  have c: "c_retryAttempts (mergeConfig None) = 3" "c_retryDelay (mergeConfig None) = 1000"
    by (simp_all add: mergeConfig_def DEFAULT_CONFIG_def)
  have a: "atMost k (outcomeOf eng_limit n q options)" for k n q options
    by (simp add: eng_limit_outcome atMost_def)
  note t = exhausted_attempts_fail_with_last_error
      [of None eng_limit "ascii ''prompt''" "ascii ''system''", OF _ a a a]
  have u: "[1..<3] = [1, 2::nat]" by (simp add: upt_rec)
  from t c u have 1: "fst ?run = Inl (throwError (err_failed_prefix @ err_message (last (failures (snd ?run)))))"
    and 2: "length (failures (snd ?run)) = 3" and 3: "delays (snd ?run) = [1000, 2000]"
    by simp_all
  from 2 have "failures (snd ?run) \<noteq> []" by auto
  then have "last (failures (snd ?run)) \<in> set (failures (snd ?run))" by simp
  moreover have "set (failures (snd ?run)) \<subseteq> {throwError err_max_turns}"
    using eng_limit_failures [of "ascii ''prompt''" "ascii ''system''" "mergeConfig None" 3 1 sdk_init]
    by (simp add: executeAnalysis_def Let_def c sdk_init_def)
  ultimately have "last (failures (snd ?run)) = throwError err_max_turns" by auto
  with 1 2 3 show ?thesis by (simp add: throwError_def)
qed

text \<open>
  C7 as stated fails: with partial results disabled, a first call that ends at the turn
  limit and a degraded call that returns 60 code units, \<open>executeAnalysis\<close> returns these
  60 code units with the annotation of a degraded result instead of failing.
\<close>

theorem short_degraded_result_is_returned_counterexample:
  "\<not> c_enablePartialResults (mergeConfig (Some config_scenarioB))
   \<and> outcomeOf eng_scenarioB 0 (ascii ''prompt'')
        (queryOptions (ascii ''system'') (mergeConfig (Some config_scenarioB)) False)
        = Inl (throwError err_max_turns)
   \<and> length (replicate 60 (97::int)) < 100
   \<and> fst (executeAnalysis eng_scenarioB (ascii ''prompt'') (ascii ''system'') (Some config_scenarioB))
        = Inr (replicate 60 97 @ note_simplified)"
proof -
  have c: "c_fallbackToSimplerPrompt (mergeConfig (Some config_scenarioB))"
    "c_retryAttempts (mergeConfig (Some config_scenarioB)) = Suc 2"
    "\<not> c_enablePartialResults (mergeConfig (Some config_scenarioB))"
    by (simp_all add: mergeConfig_def config_scenarioB_def DEFAULT_CONFIG_def nullish_def)
  show ?thesis
    using scenarioB_run [OF c(1,2), of "ascii ''prompt''" "ascii ''system''"] c(3)
    by (simp add: scenarioB_first)
qed

section \<open>The degraded request\<close>

lemma recover_calls:
  "\<exists>more. calls (snd (recover eng p sp c a error st)) = calls st @ more"
  using degrade_calls [of eng p sp c "err_message error" "st\<lparr>failures := failures st @ [error]\<rparr>"]
  by (auto simp: recover_def Let_def)

lemma attemptLoop_calls:
  "\<exists>more. calls (snd (attemptLoop eng p sp c k a st)) = calls st @ more"
proof (induction k arbitrary: a st)
  case 0
  then show ?case by simp
next
  case (Suc k)
  obtain r st1 where t: "tryAttempt eng p sp c a st = (r, st1)"
    by (cases "tryAttempt eng p sp c a st")
  with tryAttempt_outcome [of eng p sp c a st]
  have c1: "calls st1 = calls st @ [(p, queryOptions sp c False)]" by simp
  show ?case
  proof (cases r)
    case (Inr result)
    with t c1 show ?thesis by simp
  next
    case (Inl error)
    obtain sv st2 where rc: "recover eng p sp c a error st1 = (sv, st2)"
      by (cases "recover eng p sp c a error st1")
    with recover_calls [of eng p sp c a error st1] c1
    obtain m2 where c2: "calls st2 = calls st @ m2" by auto
    let ?st3 = "st2\<lparr>delays := delays st2 @ [c_retryDelay c * real a]\<rparr>"
    from Suc.IH [of "Suc a" ?st3] c2
    obtain m3 where c3: "calls (snd (attemptLoop eng p sp c k (Suc a) ?st3)) = calls st @ m3"
      by auto
    show ?thesis
      using t Inl rc c2 c3
      by (cases sv) (auto simp del: attemptLoop.simps simp add: attemptLoop.simps(2) [of _ _ _ _ k a st])
  qed
qed

text \<open>The options of the degraded request after an error with the given message.\<close>

lemma degraded_options:
  "queryOptions sp (simplifiedConfig c m) False =
     \<lparr>qo_maxTurns = None, qo_disallowedTools = disallowed, qo_customSystemPrompt = sp,
      qo_includePartialMessages = False,
      qo_abortAfter = (if isTimeoutError m then min (c_timeout c * 1.5) 900000 else c_timeout c),
      qo_isFallbackQuery = False\<rparr>"
  by (simp add: queryOptions_def simplifiedConfig_def)

text \<open>
  C6, as amended. When an attempt of \<open>executeAnalysis\<close> fails with an error whose message
  classifies as a limit error and degradation is enabled, the call issued next, in the
  same attempt (the first as well as any later one), is the degraded request: the
  simplified prompt, no turn limit, partial results disabled, and as timeout the minimum
  of one and a half times the configured timeout and 900000 ms when the message is of
  the timeout or abort kind, and the configured timeout unchanged when it is only of the
  turn-limit kind. The degraded request is issued once in the attempt, as a direct call,
  under a configuration with one attempt and degradation disabled.
\<close>

theorem limit_failure_is_degraded_at_once:
  assumes "fst (tryAttempt eng p sp c a st) = Inl error"
    and "isLimitError (err_message error)"
    and "c_fallbackToSimplerPrompt c"
    and "1 \<le> a"
  shows "take 2 (drop (length (calls st)) (calls (snd (attemptLoop eng p sp c (Suc k) a st)))) =
      [(p, queryOptions sp c False),
       (createSimplifiedPrompt p,
        \<lparr>qo_maxTurns = None, qo_disallowedTools = disallowed, qo_customSystemPrompt = sp,
         qo_includePartialMessages = False,
         qo_abortAfter = (if isTimeoutError (err_message error)
                          then min (c_timeout c * 1.5) 900000 else c_timeout c),
         qo_isFallbackQuery = False\<rparr>)]
    \<and> length (filter (\<lambda>(q, options). q = createSimplifiedPrompt p)
          (calls (snd (recover eng p sp c a error (snd (tryAttempt eng p sp c a st))))))
        = Suc (length (filter (\<lambda>(q, options). q = createSimplifiedPrompt p)
                 (calls (snd (tryAttempt eng p sp c a st)))))
    \<and> c_retryAttempts (simplifiedConfig c (err_message error)) = 1
    \<and> \<not> c_fallbackToSimplerPrompt (simplifiedConfig c (err_message error))
    \<and> \<not> c_enablePartialResults (simplifiedConfig c (err_message error))"
proof -
  obtain st1 where t: "tryAttempt eng p sp c a st = (Inl error, st1)"
    using assms(1) by (cases "tryAttempt eng p sp c a st") auto
  with tryAttempt_outcome [of eng p sp c a st]
  have c1: "calls st1 = calls st @ [(p, queryOptions sp c False)]" by simp
  let ?st1 = "st1\<lparr>failures := failures st1 @ [error]\<rparr>"
  let ?d = "(createSimplifiedPrompt p, queryOptions sp (simplifiedConfig c (err_message error)) False)"
  have rd: "recover eng p sp c a error st1 = degrade eng p sp c (err_message error) ?st1"
    using assms(2-4) by (simp add: recover_def Let_def)
  obtain sv st2 where rc: "recover eng p sp c a error st1 = (sv, st2)"
    by (cases "recover eng p sp c a error st1")
  have ne: "createSimplifiedPrompt p \<noteq> p"
  proof
    assume "createSimplifiedPrompt p = p"
    then have "length (createSimplifiedPrompt p) = length p" by simp
    then show False by (simp add: createSimplifiedPrompt_def simplified_head_def)
  qed
  have "st2 = snd (degrade eng p sp c (err_message error) ?st1)"
    using rd rc by (metis snd_conv)
  with degrade_calls [of eng p sp c "err_message error" ?st1] c1
  have c2: "calls st2 = calls st @ [(p, queryOptions sp c False), ?d]
      \<or> calls st2 = calls st @ [(p, queryOptions sp c False), ?d,
                                  (p, queryOptions sp (partialConfig c) True)]"
    by simp
  have once: "length (filter (\<lambda>(q, options). q = createSimplifiedPrompt p) (calls st2))
      = Suc (length (filter (\<lambda>(q, options). q = createSimplifiedPrompt p) (calls st1)))"
    using c2 c1 ne by auto
  let ?st3 = "st2\<lparr>delays := delays st2 @ [c_retryDelay c * real a]\<rparr>"
  obtain m3 where c3: "calls (snd (attemptLoop eng p sp c k (Suc a) ?st3)) = calls st2 @ m3"
    using attemptLoop_calls [of eng p sp c k "Suc a" ?st3] by auto
  have "\<exists>more. calls (snd (attemptLoop eng p sp c (Suc k) a st)) = calls st2 @ more"
    using t rc c3
    by (cases sv) (auto simp del: attemptLoop.simps simp add: attemptLoop.simps(2) [of _ _ _ _ k a st])
  then obtain more where "calls (snd (attemptLoop eng p sp c (Suc k) a st))
      = calls st @ [(p, queryOptions sp c False), ?d] @ more"
    using c2 by auto
  then have first: "take 2 (drop (length (calls st)) (calls (snd (attemptLoop eng p sp c (Suc k) a st))))
      = [(p, queryOptions sp c False), ?d]"
    by simp
  show ?thesis
    using first once t rc
    by (simp add: degraded_options) (simp add: simplifiedConfig_def)
qed

text \<open>The example: the first call is aborted under the default configuration; the
  degraded request follows at once, with a timeout of 450000 ms.\<close>

lemma abort_message:
  "isLimitError (err_message abort_error) \<and> isTimeoutError (err_message abort_error)"
  by code_simp

lemma eng_abort_first: "outcomeOf eng_abort 0 p options = Inl abort_error"
  by (simp add: outcomeOf_def eng_abort_def runQuery_def catchClause_def rq_init_def)

theorem limit_failure_is_degraded_at_once_witness:
  "fst (tryAttempt eng_abort (ascii ''prompt'') (ascii ''system'') (mergeConfig None) 1 sdk_init)
     = Inl abort_error
   \<and> isLimitError (err_message abort_error)
   \<and> c_fallbackToSimplerPrompt (mergeConfig None)
   \<and> take 2 (calls (snd (executeAnalysis eng_abort (ascii ''prompt'') (ascii ''system'') None))) =
      [(ascii ''prompt'',
        \<lparr>qo_maxTurns = None, qo_disallowedTools = disallowed,
         qo_customSystemPrompt = ascii ''system'', qo_includePartialMessages = True,
         qo_abortAfter = 300000, qo_isFallbackQuery = False\<rparr>),
       (createSimplifiedPrompt (ascii ''prompt''),
        \<lparr>qo_maxTurns = None, qo_disallowedTools = disallowed,
         qo_customSystemPrompt = ascii ''system'', qo_includePartialMessages = False,
         qo_abortAfter = 450000, qo_isFallbackQuery = False\<rparr>)]"
proof -
  let ?c = "mergeConfig None"
  have c: "c_fallbackToSimplerPrompt ?c" "c_retryAttempts ?c = Suc 2" "c_timeout ?c = 300000"
    "c_enablePartialResults ?c"
    by (simp_all add: mergeConfig_def DEFAULT_CONFIG_def)
  have t: "fst (tryAttempt eng_abort (ascii ''prompt'') (ascii ''system'') ?c 1 sdk_init) = Inl abort_error"
    using tryAttempt_outcome [of eng_abort "ascii ''prompt''" "ascii ''system''" ?c 1 sdk_init]
    by (simp add: sdk_init_def eng_abort_first)
  show ?thesis
    using limit_failure_is_degraded_at_once
        [of eng_abort "ascii ''prompt''" "ascii ''system''" ?c 1 sdk_init abort_error 2]
      t abort_message c
    by (simp add: executeAnalysis_def Let_def sdk_init_def queryOptions_def)
qed

text \<open>
  C6 as stated fails: after a first call that ends at the turn limit, the degraded
  request carries the configured timeout of 300000 ms unchanged, not a scaled one.
\<close>

theorem turn_limit_keeps_the_timeout_counterexample:
  "outcomeOf eng_scenarioB 0 (ascii ''prompt'')
        (queryOptions (ascii ''system'') (mergeConfig None) False)
        = Inl (throwError err_max_turns)
   \<and> isLimitError (err_message (throwError err_max_turns))
   \<and> c_fallbackToSimplerPrompt (mergeConfig None)
   \<and> map fst (calls (snd (executeAnalysis eng_scenarioB (ascii ''prompt'') (ascii ''system'') None)))
        = [ascii ''prompt'', createSimplifiedPrompt (ascii ''prompt'')]
   \<and> map (\<lambda>(q, options). qo_abortAfter options)
        (calls (snd (executeAnalysis eng_scenarioB (ascii ''prompt'') (ascii ''system'') None)))
        = [300000, 300000]"
proof -
  have c: "c_fallbackToSimplerPrompt (mergeConfig None)" "c_retryAttempts (mergeConfig None) = Suc 2"
    "c_timeout (mergeConfig None) = 300000"
    by (simp_all add: mergeConfig_def DEFAULT_CONFIG_def)
  show ?thesis
    using scenarioB_run [OF c(1,2), of "ascii ''prompt''" "ascii ''system''"] c limit_message
    by (simp add: scenarioB_first queryOptions_def simplifiedConfig_def throwError_def)
qed

section \<open>The gate against a second write\<close>

text \<open>
  A task in \<open>realtimeWrittenTasks\<close> is skipped by every later scan, and the update pass
  skips a result whose metadata carry a true \<open>realtimeWritten\<close>.
\<close>

lemma written_task_is_skipped:
  "t_id task \<in> set (realtimeWrittenTasks s) \<Longrightarrow> detectTask E cfg content task s = s"
  by (simp add: detectTask_def)

lemma flagged_result_is_skipped:
  "ar_status r = StatusSuccess \<Longrightarrow> isRealtimeWritten r \<Longrightarrow>
     writeResults E cfg (r # rs) w = writeResults E cfg rs w"
  by simp

text \<open>
  The metadata of a task written live are the object with a true \<open>realtimeWritten\<close>
  followed by the metadata parsed from the document, so a document that carries its own
  \<open>realtimeWritten\<close> overrides the flag.
\<close>

text \<open>Without such a block the gate holds: in the run on the text in which only
  \<open>overview\<close> is delimited, the file of \<open>overview\<close> is written once, by the live scan.\<close>

lemma overview_writes:
  "map fst (writes (snd (updateKnowledgeBase env0 cfg0
            (validateAndPackageResults (timestamp env0) (parseTaskOutputs env0 cfg0 text_overview
               (detectAndWriteCompletedTasks env0 cfg0 text_overview
                 (detectAndWriteCompletedTasks env0 cfg0 text_overview (tlm_init world0)))))
            (fs (detectAndWriteCompletedTasks env0 cfg0 text_overview
                 (detectAndWriteCompletedTasks env0 cfg0 text_overview (tlm_init world0)))))))
     = [taskFilePath cfg0 task_overview,
        path_join (outputPath cfg0) (ascii ''.repomind'') (ascii ''knowledge.yaml'')]"
  by code_simp

lemma overview_written_once:
  "map fst (writes (snd run_overview))
     = [taskFilePath cfg0 task_overview,
        path_join (outputPath cfg0) (ascii ''.repomind'') (ascii ''knowledge.yaml'')]"
proof -
  have "100 < length text_overview" by (simp add: text_overview_def ascii_def)
  then show ?thesis
    unfolding run_overview_def
    using run_eng_returns_world [of text_overview env0 cfg0 "ascii ''prompt''" world0]
      env0_writes overview_writes
    by simp
qed

text \<open>The run on the example with the YAML block: the live scan, and the paths written
  by the run in order.\<close>

lemma meta_live_scan:
  "realtimeWrittenTasks (detectAndWriteCompletedTasks env_meta cfg0 text_meta (tlm_init world0))
     = [ascii ''overview'']
   \<and> map fst (writes (fs (detectAndWriteCompletedTasks env_meta cfg0 text_meta (tlm_init world0))))
     = [taskFilePath cfg0 task_overview]"
  by code_simp

lemma meta_writes:
  "map fst (writes (snd (updateKnowledgeBase env_meta cfg0
            (validateAndPackageResults (timestamp env_meta) (parseTaskOutputs env_meta cfg0 text_meta
               (detectAndWriteCompletedTasks env_meta cfg0 text_meta
                 (detectAndWriteCompletedTasks env_meta cfg0 text_meta (tlm_init world0)))))
            (fs (detectAndWriteCompletedTasks env_meta cfg0 text_meta
                 (detectAndWriteCompletedTasks env_meta cfg0 text_meta (tlm_init world0)))))))
     = [taskFilePath cfg0 task_overview,
        path_join (outputPath cfg0) (ascii ''.repomind'') (ascii ''knowledge.yaml''),
        taskFilePath cfg0 task_overview]"
  by code_simp

text \<open>
  C4 fails on the code at this input: at most one physical write per task is not
  guaranteed. The segment of \<open>overview\<close> holds a YAML block whose metadata set
  \<open>realtimeWritten\<close> to \<open>false\<close>. The run returns a result; the live scan writes the file
  of \<open>overview\<close> and adds the task to \<open>realtimeWrittenTasks\<close>; the update pass then
  writes the index and writes the file of \<open>overview\<close> a second time.
\<close>

theorem live_written_task_is_written_twice:
  "fst run_meta = Inr (projr (fst run_meta))
   \<and> realtimeWrittenTasks (detectAndWriteCompletedTasks env_meta cfg0 text_meta (tlm_init world0))
       = [t_id task_overview]
   \<and> map fst (writes (snd run_meta))
       = [taskFilePath cfg0 task_overview,
          path_join (outputPath cfg0) (ascii ''.repomind'') (ascii ''knowledge.yaml''),
          taskFilePath cfg0 task_overview]"
proof -
  have l: "100 < length text_meta"
    by (simp add: text_meta_def yaml_block_def ascii_def)
  have w: "\<not> write_fails env_meta n" for n
    by (simp add: env_meta_def env0_def)
  have o: "t_id task_overview = ascii ''overview''"
    by (simp add: task_overview_def ANALYSIS_TASKS_def)
  show ?thesis
    unfolding run_meta_def
    using run_eng_returns [of text_meta env_meta cfg0 "ascii ''prompt''" world0, OF l w]
      run_eng_returns_world [of text_meta env_meta cfg0 "ascii ''prompt''" world0, OF l w]
      meta_live_scan meta_writes o
    by simp
qed

end
